(* ===== verification/Rdma_Prelude.thy ===== *)
theory Rdma_Prelude
  imports Main "HOL-Library.Word" "HOL-Library.Sublist"
begin

unbundle bit_operations_syntax

text \<open>
  Shared ground of the development.  A C or C++ function becomes a \<^emph>\<open>command\<close>: a function
  from the state to an outcome and the next state.  An outcome is the value returned or the
  way the run stopped (\<open>exit\<close>, \<open>abort\<close>, a thrown exception, undefined behaviour such as a null
  dereference, or fuel that ran out).  The theory also holds the loop combinator that C's
  \<open>for (i = lo; i < hi; i++)\<close> becomes, and the weakest-precondition rules the component
  theories use.
\<close>

named_theorems cmd_defs \<open>definitions that run a command on a concrete state\<close>

section \<open>Outcomes and commands\<close>

datatype fault =
    Null_Deref
  | Dangling_Deref
  | Uninit_Read
  | Out_Of_Bounds
  | Signed_Overflow

text \<open>The types of \<open>TTransportException\<close> that the Thrift interface throws.\<close>

datatype exception_type = NOT_OPEN | END_OF_FILE

datatype stop =
    Exited int
  | Aborted
  | Faulted fault
  | Threw exception_type string
  | Out_Of_Fuel

datatype 'a outcome = Ret 'a | Stop stop

type_synonym ('s, 'a) cmd = "'s \<Rightarrow> 'a outcome \<times> 's"

definition retM :: "'a \<Rightarrow> ('s, 'a) cmd" where
  "retM x = (\<lambda>s. (Ret x, s))"

definition stopM :: "stop \<Rightarrow> ('s, 'a) cmd" where
  "stopM e = (\<lambda>s. (Stop e, s))"

definition bindM :: "('s, 'a) cmd \<Rightarrow> ('a \<Rightarrow> ('s, 'b) cmd) \<Rightarrow> ('s, 'b) cmd" where
  "bindM m f = (\<lambda>s. case m s of (Ret x, t) \<Rightarrow> f x t | (Stop e, t) \<Rightarrow> (Stop e, t))"

definition thenM :: "('s, 'a) cmd \<Rightarrow> ('s, 'b) cmd \<Rightarrow> ('s, 'b) cmd" where
  "thenM m n = bindM m (\<lambda>_. n)"

definition getM :: "('s \<Rightarrow> 'a) \<Rightarrow> ('s, 'a) cmd" where
  "getM f = (\<lambda>s. (Ret (f s), s))"

definition modifyM :: "('s \<Rightarrow> 's) \<Rightarrow> ('s, unit) cmd" where
  "modifyM f = (\<lambda>s. (Ret (), f s))"

definition whenM :: "bool \<Rightarrow> ('s, unit) cmd \<Rightarrow> ('s, unit) cmd" where
  "whenM b m = (if b then m else retM ())"

text \<open>\<open>contM m n\<close>: a part \<open>m\<close> of a function body, then the rest \<open>n\<close>.  \<open>m\<close> answers \<open>None\<close> where
  control reaches its end and \<open>Some r\<close> where it leaves the body by \<open>goto\<close> or \<open>return\<close>.\<close>

definition contM ::
    "('s, 'r option) cmd \<Rightarrow> ('s, 'r option) cmd \<Rightarrow> ('s, 'r option) cmd" where
  "contM m n = bindM m (\<lambda>r. case r of None \<Rightarrow> n | Some x \<Rightarrow> retM (Some x))"

declare contM_def [cmd_defs]
declare retM_def [cmd_defs] stopM_def [cmd_defs] bindM_def [cmd_defs] thenM_def [cmd_defs]
  getM_def [cmd_defs] modifyM_def [cmd_defs] whenM_def [cmd_defs]

lemma bindM_assoc: "bindM (bindM m f) g = bindM m (\<lambda>x. bindM (f x) g)"
  by (auto simp: bindM_def fun_eq_iff split: prod.splits outcome.splits)

lemma bindM_retM [simp]: "bindM (retM x) f = f x"
  by (simp add: bindM_def retM_def)

lemma bindM_stopM [simp]: "bindM (stopM e) f = stopM e"
  by (simp add: bindM_def stopM_def)

section \<open>Loops\<close>

text \<open>
  \<open>for_loop i n body\<close> is \<open>for (; i < n; i++) body\<close>.  The body returns \<open>None\<close> to go on and
  \<open>Some r\<close> where the source leaves the loop by \<open>goto\<close> or \<open>return\<close>.  The distance
  \<open>n - i\<close> shrinks, so the loop is total; whether the body stops is the body's own outcome.
\<close>

function for_loop :: "int \<Rightarrow> int \<Rightarrow> (int \<Rightarrow> ('s, 'r option) cmd) \<Rightarrow> ('s, 'r option) cmd" where
  "for_loop i n body s =
     (if i < n then
        (case body i s of
           (Ret None, t) \<Rightarrow> for_loop (i + 1) n body t
         | (Ret (Some r), t) \<Rightarrow> (Ret (Some r), t)
         | (Stop e, t) \<Rightarrow> (Stop e, t))
      else (Ret None, s))"
  by pat_completeness auto
termination
  by (relation "measure (\<lambda>(i, n, body, s). nat (n - i))") auto

declare for_loop.simps [simp del]

lemma for_loop_end [simp]: "\<not> i < n \<Longrightarrow> for_loop i n body s = (Ret None, s)"
  by (simp add: for_loop.simps)

lemma for_loop_step:
  "i < n \<Longrightarrow> for_loop i n body = bindM (body i)
     (\<lambda>r. case r of None \<Rightarrow> for_loop (i + 1) n body | Some x \<Rightarrow> retM (Some x))"
  by (rule ext) (auto simp: for_loop.simps [of i n body] bindM_def retM_def
      split: prod.splits outcome.splits option.splits)

section \<open>Weakest preconditions\<close>

definition wp :: "('s, 'a) cmd \<Rightarrow> ('a outcome \<Rightarrow> 's \<Rightarrow> bool) \<Rightarrow> 's \<Rightarrow> bool" where
  "wp m Q s \<longleftrightarrow> Q (fst (m s)) (snd (m s))"

lemma wpI: "(\<And>r t. m s = (r, t) \<Longrightarrow> Q r t) \<Longrightarrow> wp m Q s"
  by (cases "m s") (simp add: wp_def)

lemma wpD: "wp m Q s \<Longrightarrow> m s = (r, t) \<Longrightarrow> Q r t"
  by (simp add: wp_def)

lemma wpE:
  assumes "wp m Q s"
  obtains r t where "m s = (r, t)" "Q r t"
  using assms by (cases "m s") (simp add: wp_def)

lemma wp_mono: "wp m P s \<Longrightarrow> (\<And>r t. P r t \<Longrightarrow> Q r t) \<Longrightarrow> wp m Q s"
  by (simp add: wp_def)

lemma wp_conj: "wp m (\<lambda>r t. P r t \<and> Q r t) s \<longleftrightarrow> wp m P s \<and> wp m Q s"
  by (simp add: wp_def)

lemma wp_ret [simp]: "wp (retM x) Q s = Q (Ret x) s"
  by (simp add: wp_def retM_def)

lemma wp_stop [simp]: "wp (stopM e) Q s = Q (Stop e) s"
  by (simp add: wp_def stopM_def)

lemma wp_get [simp]: "wp (getM f) Q s = Q (Ret (f s)) s"
  by (simp add: wp_def getM_def)

lemma wp_modify [simp]: "wp (modifyM f) Q s = Q (Ret ()) (f s)"
  by (simp add: wp_def modifyM_def)

text \<open>The postcondition a first command needs for the rest of a sequence to reach \<open>Q\<close>.\<close>

definition after :: "('a \<Rightarrow> ('s, 'b) cmd) \<Rightarrow> ('b outcome \<Rightarrow> 's \<Rightarrow> bool) \<Rightarrow> 'a outcome \<Rightarrow> 's \<Rightarrow> bool" where
  "after f Q r t \<longleftrightarrow> (case r of Ret x \<Rightarrow> wp (f x) Q t | Stop e \<Rightarrow> Q (Stop e) t)"

lemma after_Ret [simp]: "after f Q (Ret x) t = wp (f x) Q t"
  by (simp add: after_def)

lemma after_Stop [simp]: "after f Q (Stop e) t = Q (Stop e) t"
  by (simp add: after_def)

lemma wp_bind: "wp (bindM m f) Q s = wp m (after f Q) s"
  by (auto simp: wp_def bindM_def after_def split: prod.splits outcome.splits)

lemma wp_then: "wp (thenM m n) Q s = wp m (after (\<lambda>_. n) Q) s"
  by (simp add: thenM_def wp_bind)

lemma wp_when: "wp (whenM b m) Q s = (if b then wp m Q s else Q (Ret ()) s)"
  by (simp add: whenM_def)

lemma wp_if: "wp (if b then m else n) Q s = (if b then wp m Q s else wp n Q s)"
  by simp

lemmas wp_simps = wp_bind wp_then wp_when wp_if

text \<open>What one turn of a loop has to establish: the invariant \<open>J\<close> where it goes on, the
  postcondition of the whole loop where it leaves.\<close>

definition loop_post ::
    "('s \<Rightarrow> bool) \<Rightarrow> ('r option outcome \<Rightarrow> 's \<Rightarrow> bool) \<Rightarrow> 'r option outcome \<Rightarrow> 's \<Rightarrow> bool" where
  "loop_post J Q r u \<longleftrightarrow> (case r of Ret None \<Rightarrow> J u | Ret (Some x) \<Rightarrow> Q (Ret (Some x)) u
     | Stop e \<Rightarrow> Q (Stop e) u)"

lemma loop_post_simps [simp]:
  "loop_post J Q (Ret None) u = J u"
  "loop_post J Q (Ret (Some x)) u = Q (Ret (Some x)) u"
  "loop_post J Q (Stop e) u = Q (Stop e) u"
  by (simp_all add: loop_post_def)

lemma loop_post_mono:
  assumes "loop_post J P r u" and "J u \<Longrightarrow> K u"
    and "\<And>x. P (Ret (Some x)) u \<Longrightarrow> Q (Ret (Some x)) u" and "\<And>e. P (Stop e) u \<Longrightarrow> Q (Stop e) u"
  shows "loop_post K Q r u"
  using assms by (simp add: loop_post_def split: outcome.splits option.splits)

text \<open>The loop rule: an invariant indexed by the counter, as in total correctness.\<close>

lemma wp_for_loop:
  assumes init: "I i s"
    and body: "\<And>k t. i \<le> k \<Longrightarrow> k < n \<Longrightarrow> I k t \<Longrightarrow> wp (body k) (loop_post (I (k + 1)) Q) t"
    and finish: "\<And>t. I (max i n) t \<Longrightarrow> Q (Ret None) t"
  shows "wp (for_loop i n body) Q s"
  using assms
proof (induction i n body s rule: for_loop.induct)
  case (1 i n body s)
  show ?case
  proof (cases "i < n")
    case False
    with "1.prems" show ?thesis by (simp add: wp_def max_def)
  next
    case True
    obtain r t where rt: "body i s = (r, t)" by fastforce
    have now: "loop_post (I (i + 1)) Q r t"
      using "1.prems"(2) [OF order_refl True "1.prems"(1)] rt by (rule wpD)
    have more: "I (i + 1) t \<Longrightarrow> r = Ret None \<Longrightarrow> wp (for_loop (i + 1) n body) Q t"
      by (rule "1.IH" [OF True rt [symmetric]]) (use "1.prems" True in \<open>auto simp: max_def\<close>)
    show ?thesis
      using now more True
      by (simp add: wp_def for_loop.simps [of i n body s] rt loop_post_def
          split: outcome.splits option.splits)
  qed
qed

lemma wp_cont: "wp (contM m n) Q s = wp m (loop_post (wp n Q) Q) s"
  unfolding contM_def wp_bind
  by (auto simp: wp_def after_def loop_post_def retM_def split: outcome.splits option.splits)

section \<open>C integers\<close>

text \<open>
  A C \<open>int\<close> is an \<open>int\<close> here; an operation whose mathematical result leaves the 32-bit range
  is undefined behaviour and stops the run.
\<close>

definition c_int :: "int \<Rightarrow> bool" where
  "c_int x \<longleftrightarrow> - (2 ^ 31) \<le> x \<and> x < 2 ^ 31"

definition c_mul :: "int \<Rightarrow> int \<Rightarrow> ('s, int) cmd" where
  "c_mul a b = (if c_int (a * b) then retM (a * b) else stopM (Faulted Signed_Overflow))"

lemma wp_c_mul:
  "wp (c_mul a b) Q s =
     (if c_int (a * b) then Q (Ret (a * b)) s else Q (Stop (Faulted Signed_Overflow)) s)"
  by (simp add: c_mul_def)

text \<open>\<open>htons\<close> on the little-endian hosts the library targets: the two bytes swapped.\<close>

definition htons :: "16 word \<Rightarrow> 16 word" where
  "htons p = push_bit 8 p OR drop_bit 8 p"

end
