(* ===== verification/Extern.thy ===== *)
theory Extern
  imports Rdma_Prelude
begin

text \<open>
  The boundary to the code outside the repository (libibverbs, librdmacm, libc, GlusterFS and
  perftest helpers).  Such a call is a constructor of a component's call type; its answer is
  a parameter of the whole development, an \<^emph>\<open>environment\<close> that may depend on the complete
  history of calls and answers.  The state records that history, so a theorem can speak of
  the order of calls, of what was acquired and released, and of every event acknowledged.
\<close>

section \<open>Values that cross the boundary\<close>

text \<open>Pointers are addresses; address 0 is \<open>NULL\<close>.\<close>

type_synonym addr = nat

abbreviation (input) NULL :: addr where "NULL \<equiv> 0"

text \<open>The connection manager's event kinds (\<open>enum rdma_cm_event_type\<close>); the source names
  eleven of them, any other is handled by its \<open>default\<close> branches.\<close>

datatype cm_event_type =
    RDMA_CM_EVENT_ADDR_RESOLVED
  | RDMA_CM_EVENT_ADDR_ERROR
  | RDMA_CM_EVENT_ROUTE_RESOLVED
  | RDMA_CM_EVENT_ROUTE_ERROR
  | RDMA_CM_EVENT_CONNECT_REQUEST
  | RDMA_CM_EVENT_CONNECT_ERROR
  | RDMA_CM_EVENT_UNREACHABLE
  | RDMA_CM_EVENT_REJECTED
  | RDMA_CM_EVENT_ESTABLISHED
  | RDMA_CM_EVENT_DISCONNECTED
  | RDMA_CM_EVENT_DEVICE_REMOVAL
  | RDMA_CM_EVENT_OTHER nat

record cm_event =
  ev_addr :: addr
  ev_type :: cm_event_type
  ev_id :: addr
  ev_status :: int
  ev_qp_num :: "32 word"
  ev_qkey :: "32 word"
  ev_ah_attr :: addr

record sockaddr_in =
  sin_family :: int
  sin_addr :: "32 word"
  sin_port :: "16 word"

text \<open>
  One answer: the value returned and what the call wrote through its pointer arguments.  A
  call uses the fields its C signature has; the others are ignored.
\<close>

record resp =
  r_int :: int                      \<comment> \<open>an \<open>int\<close> result\<close>
  r_out :: int                      \<comment> \<open>an \<open>int\<close> written through a pointer argument\<close>
  r_ptr :: addr                     \<comment> \<open>a pointer result or a pointer written through an argument\<close>
  r_cells :: "nat \<Rightarrow> addr"           \<comment> \<open>what uninitialised memory holds, cell by cell\<close>
  r_list :: "addr list"             \<comment> \<open>a NULL-terminated array, without its terminator\<close>
  r_str :: "string option"          \<comment> \<open>a \<open>char *\<close>\<close>
  r_event :: cm_event               \<comment> \<open>an event written through an argument\<close>
  r_sock :: sockaddr_in             \<comment> \<open>a resolved socket address\<close>

definition event0 :: cm_event where
  "event0 = \<lparr>ev_addr = 0, ev_type = RDMA_CM_EVENT_OTHER 0, ev_id = 0, ev_status = 0,
     ev_qp_num = 0, ev_qkey = 0, ev_ah_attr = 0\<rparr>"

definition resp0 :: resp where
  "resp0 = \<lparr>r_int = 0, r_out = 0, r_ptr = 0, r_cells = (\<lambda>_. 0), r_list = [], r_str = None,
     r_event = event0, r_sock = \<lparr>sin_family = 2, sin_addr = 0, sin_port = 0\<rparr>\<rparr>"

section \<open>History, environment, external calls\<close>

type_synonym 'c trace = "('c \<times> resp) list"
type_synonym 'c env = "'c trace \<Rightarrow> 'c \<Rightarrow> resp"

record 'c world =
  calls :: "'c trace"

definition ext :: "'c env \<Rightarrow> 'c \<Rightarrow> (('c, 'z) world_scheme, resp) cmd" where
  "ext env c = (\<lambda>s. let r = env (calls s) c in (Ret r, s\<lparr>calls := calls s @ [(c, r)]\<rparr>))"

definition call_int :: "'c env \<Rightarrow> 'c \<Rightarrow> (('c, 'z) world_scheme, int) cmd" where
  "call_int env c = bindM (ext env c) (\<lambda>r. retM (r_int r))"

definition call_ptr :: "'c env \<Rightarrow> 'c \<Rightarrow> (('c, 'z) world_scheme, addr) cmd" where
  "call_ptr env c = bindM (ext env c) (\<lambda>r. retM (r_ptr r))"

definition call_void :: "'c env \<Rightarrow> 'c \<Rightarrow> (('c, 'z) world_scheme, unit) cmd" where
  "call_void env c = bindM (ext env c) (\<lambda>_. retM ())"

declare ext_def [cmd_defs] call_int_def [cmd_defs] call_ptr_def [cmd_defs] call_void_def [cmd_defs]

text \<open>Rules that keep the answer abstract: the proof continues for every answer.\<close>

lemma wp_ext: "(\<And>r. Q (Ret r) (s\<lparr>calls := calls s @ [(c, r)]\<rparr>)) \<Longrightarrow> wp (ext env c) Q s"
  by (simp add: wp_def ext_def Let_def)

lemma wp_call_int:
  "(\<And>r. Q (Ret (r_int r)) (s\<lparr>calls := calls s @ [(c, r)]\<rparr>)) \<Longrightarrow> wp (call_int env c) Q s"
  by (simp add: wp_def call_int_def bindM_def retM_def ext_def Let_def)

lemma wp_call_ptr:
  "(\<And>r. Q (Ret (r_ptr r)) (s\<lparr>calls := calls s @ [(c, r)]\<rparr>)) \<Longrightarrow> wp (call_ptr env c) Q s"
  by (simp add: wp_def call_ptr_def bindM_def retM_def ext_def Let_def)

lemma wp_call_void:
  "(\<And>r. Q (Ret ()) (s\<lparr>calls := calls s @ [(c, r)]\<rparr>)) \<Longrightarrow> wp (call_void env c) Q s"
  by (simp add: wp_def call_void_def bindM_def retM_def ext_def Let_def)

lemmas wp_calls = wp_ext wp_call_int wp_call_ptr wp_call_void

text \<open>The same rules with the environment's answer written out.\<close>

lemma wp_ext_eq:
  "wp (ext env c) Q s =
     Q (Ret (env (calls s) c)) (s\<lparr>calls := calls s @ [(c, env (calls s) c)]\<rparr>)"
  by (simp add: wp_def ext_def Let_def)

lemma wp_call_int_eq:
  "wp (call_int env c) Q s =
     Q (Ret (r_int (env (calls s) c))) (s\<lparr>calls := calls s @ [(c, env (calls s) c)]\<rparr>)"
  by (simp add: call_int_def wp_bind wp_ext_eq)

lemma wp_call_ptr_eq:
  "wp (call_ptr env c) Q s =
     Q (Ret (r_ptr (env (calls s) c))) (s\<lparr>calls := calls s @ [(c, env (calls s) c)]\<rparr>)"
  by (simp add: call_ptr_def wp_bind wp_ext_eq)

lemma wp_call_void_eq:
  "wp (call_void env c) Q s = Q (Ret ()) (s\<lparr>calls := calls s @ [(c, env (calls s) c)]\<rparr>)"
  by (simp add: call_void_def wp_bind wp_ext_eq)

lemmas wp_calls_eq = wp_ext_eq wp_call_int_eq wp_call_ptr_eq wp_call_void_eq

section \<open>Which calls a command makes\<close>

text \<open>From \<open>s\<close> to \<open>t\<close> exactly the calls \<open>xs\<close> were made, in this order; what came before, answers
  included, is still there.\<close>

definition made :: "('c, 'z) world_scheme \<Rightarrow> ('c, 'y) world_scheme \<Rightarrow> 'c list \<Rightarrow> bool" where
  "made s t xs \<longleftrightarrow> prefix (calls s) (calls t) \<and> map fst (calls t) = map fst (calls s) @ xs"

lemma made_refl [simp]: "made s s xs \<longleftrightarrow> xs = []"
  by (simp add: made_def)

lemma made_trans: "made s t xs \<Longrightarrow> made t u ys \<Longrightarrow> made s u (xs @ ys)"
  by (auto simp: made_def intro: prefix_order.trans)

lemma made_unique: "made s t xs \<Longrightarrow> made s t ys \<Longrightarrow> xs = ys"
  by (simp add: made_def)

text \<open>
  \<open>emits A m\<close>: whatever the environment answers, \<open>m\<close> only extends the history, by calls
  in \<open>A\<close>.  The property is closed under every command former, so the set of calls of a long
  handler is read off its text.
\<close>

definition grown :: "'c set \<Rightarrow> 'c trace \<Rightarrow> 'c trace \<Rightarrow> bool" where
  "grown A tr tr' \<longleftrightarrow> (\<exists>xs. tr' = tr @ xs \<and> fst ` set xs \<subseteq> A)"

definition emits :: "'c set \<Rightarrow> (('c, 'z) world_scheme, 'a) cmd \<Rightarrow> bool" where
  "emits A m \<longleftrightarrow> (\<forall>s. grown A (calls s) (calls (snd (m s))))"

named_theorems emits_intros \<open>closure of emits under the command formers\<close>

lemma grown_refl [simp]: "grown A tr tr"
  by (simp add: grown_def)

lemma grown_snoc [simp]: "c \<in> A \<Longrightarrow> grown A tr (tr @ [(c, r)])"
  by (simp add: grown_def)

lemma grown_trans: "grown A tr tr' \<Longrightarrow> grown A tr' tr'' \<Longrightarrow> grown A tr tr''"
  unfolding grown_def by (elim exE conjE) (force simp: image_Un)

lemma grown_mono: "grown A tr tr' \<Longrightarrow> A \<subseteq> B \<Longrightarrow> grown B tr tr'"
  unfolding grown_def by blast

lemma emitsI: "(\<And>s. wp m (\<lambda>_ t. grown A (calls s) (calls t)) s) \<Longrightarrow> emits A m"
  by (simp add: emits_def wp_def)

lemma emitsD: "emits A m \<Longrightarrow> m s = (r, t) \<Longrightarrow> grown A (calls s) (calls t)"
  unfolding emits_def by (metis snd_conv)

lemma emits_mono: "emits A m \<Longrightarrow> A \<subseteq> B \<Longrightarrow> emits B m"
  unfolding emits_def by (meson grown_mono)

lemma emits_ret [emits_intros]: "emits A (retM x)"
  by (simp add: emits_def retM_def)

lemma emits_stop [emits_intros]: "emits A (stopM e)"
  by (simp add: emits_def stopM_def)

lemma emits_get [emits_intros]: "emits A (getM f)"
  by (simp add: emits_def getM_def)

lemma emits_modify [emits_intros]: "(\<And>s. calls (f s) = calls s) \<Longrightarrow> emits A (modifyM f)"
  by (simp add: emits_def modifyM_def)

lemma emits_bind [emits_intros]:
  assumes m: "emits A m" and f: "\<And>x. emits A (f x)"
  shows "emits A (bindM m f)"
proof (rule emitsI)
  fix s
  obtain r t where rt: "m s = (r, t)" by fastforce
  have "grown A (calls s) (calls t)" using m rt by (rule emitsD)
  moreover have "grown A (calls t) (calls (snd (f x t)))" for x
    using f by (simp add: emits_def)
  ultimately show "wp (bindM m f) (\<lambda>_ t. grown A (calls s) (calls t)) s"
    by (cases r) (auto simp: wp_def bindM_def rt intro: grown_trans)
qed

lemma emits_then [emits_intros]: "emits A m \<Longrightarrow> emits A n \<Longrightarrow> emits A (thenM m n)"
  by (simp add: thenM_def emits_bind)

lemma emits_when [emits_intros]: "(b \<Longrightarrow> emits A m) \<Longrightarrow> emits A (whenM b m)"
  by (simp add: whenM_def emits_ret)

lemma emits_if [emits_intros]:
  "(b \<Longrightarrow> emits A m) \<Longrightarrow> (\<not> b \<Longrightarrow> emits A n) \<Longrightarrow> emits A (if b then m else n)"
  by simp

lemma emits_case_option [emits_intros]:
  "emits A m \<Longrightarrow> (\<And>x. emits A (f x)) \<Longrightarrow> emits A (case r of None \<Rightarrow> m | Some x \<Rightarrow> f x)"
  by (cases r) simp_all

lemma emits_case_sum [emits_intros]:
  "(\<And>x. emits A (f x)) \<Longrightarrow> (\<And>y. emits A (g y)) \<Longrightarrow>
     emits A (case r of Inl x \<Rightarrow> f x | Inr y \<Rightarrow> g y)"
  by (cases r) simp_all

lemma emits_cont [emits_intros]: "emits A m \<Longrightarrow> emits A n \<Longrightarrow> emits A (contM m n)"
  unfolding contM_def by (intro emits_intros)

lemma emits_ext [emits_intros]: "c \<in> A \<Longrightarrow> emits A (ext env c)"
  by (rule emitsI) (simp add: wp_ext_eq)

lemma emits_call_int [emits_intros]: "c \<in> A \<Longrightarrow> emits A (call_int env c)"
  by (simp add: call_int_def emits_bind emits_ext emits_ret)

lemma emits_call_ptr [emits_intros]: "c \<in> A \<Longrightarrow> emits A (call_ptr env c)"
  by (simp add: call_ptr_def emits_bind emits_ext emits_ret)

lemma emits_call_void [emits_intros]: "c \<in> A \<Longrightarrow> emits A (call_void env c)"
  by (simp add: call_void_def emits_bind emits_ext emits_ret)

lemma emits_c_mul [emits_intros]: "emits A (c_mul a b)"
  by (simp add: c_mul_def emits_ret emits_stop)

lemma emits_for_loop [emits_intros]:
  fixes body :: "int \<Rightarrow> (('c, 'z) world_scheme, 'r option) cmd"
  assumes body: "\<And>k. emits A (body k)"
  shows "emits A (for_loop i n body)"
proof (rule emitsI)
  fix s :: "('c, 'z) world_scheme"
  have step: "grown A (calls s) (calls u)"
    if "grown A (calls s) (calls t)" "body k t = (r, u)" for k r and t u :: "('c, 'z) world_scheme"
    using that(1) emitsD [OF body that(2)] by (rule grown_trans)
  show "wp (for_loop i n body) (\<lambda>_ t. grown A (calls s) (calls t)) s"
    by (rule wp_for_loop [where I = "\<lambda>_ t. grown A (calls s) (calls t)"])
      (auto intro!: wpI dest: step simp: loop_post_def split: outcome.splits option.splits)
qed

section \<open>How a command can stop\<close>

text \<open>\<open>only_faults m\<close>: where \<open>m\<close> does not return, it ran into undefined behaviour; it never
  ends the process, throws or runs out of fuel.\<close>

definition fault_or_ret :: "'a outcome \<Rightarrow> bool" where
  "fault_or_ret r \<longleftrightarrow> (case r of Ret _ \<Rightarrow> True | Stop x \<Rightarrow> (\<exists>f. x = Faulted f))"

lemma fault_or_ret_simps [simp]:
  "fault_or_ret (Ret x)" "fault_or_ret (Stop e) \<longleftrightarrow> (\<exists>f. e = Faulted f)"
  by (simp_all add: fault_or_ret_def)

definition only_faults :: "('s, 'a) cmd \<Rightarrow> bool" where
  "only_faults m \<longleftrightarrow> (\<forall>s. wp m (\<lambda>r _. fault_or_ret r) s)"

named_theorems only_faults_intros \<open>closure of only_faults under the command formers\<close>

lemma only_faultsD: "only_faults m \<Longrightarrow> m s = (r, t) \<Longrightarrow> fault_or_ret r"
  by (auto simp: only_faults_def wp_def dest: spec [of _ s])

lemma only_faults_basic [only_faults_intros]:
  "only_faults (retM x)" "only_faults (stopM (Faulted f))" "only_faults (getM g)"
  "only_faults (modifyM h)" "only_faults (c_mul a b)"
  by (simp_all add: only_faults_def wp_c_mul)

lemma only_faults_bind [only_faults_intros]:
  "only_faults m \<Longrightarrow> (\<And>x. only_faults (f x)) \<Longrightarrow> only_faults (bindM m f)"
  unfolding only_faults_def wp_bind
  by (intro allI, drule spec, erule wp_mono) (auto simp: after_def split: outcome.splits)

lemma only_faults_then [only_faults_intros]:
  "only_faults m \<Longrightarrow> only_faults n \<Longrightarrow> only_faults (thenM m n)"
  by (simp add: thenM_def only_faults_bind)

lemma only_faults_when [only_faults_intros]: "only_faults m \<Longrightarrow> only_faults (whenM b m)"
  by (simp add: whenM_def only_faults_basic)

lemma only_faults_if [only_faults_intros]:
  "(b \<Longrightarrow> only_faults m) \<Longrightarrow> (\<not> b \<Longrightarrow> only_faults n) \<Longrightarrow> only_faults (if b then m else n)"
  by simp

lemma only_faults_case_option [only_faults_intros]:
  "only_faults m \<Longrightarrow> (\<And>x. only_faults (f x)) \<Longrightarrow> only_faults (case r of None \<Rightarrow> m | Some x \<Rightarrow> f x)"
  by (cases r) simp_all

lemma only_faults_case_sum [only_faults_intros]:
  "(\<And>x. only_faults (f x)) \<Longrightarrow> (\<And>y. only_faults (g y)) \<Longrightarrow>
     only_faults (case r of Inl x \<Rightarrow> f x | Inr y \<Rightarrow> g y)"
  by (cases r) simp_all

lemma only_faults_cont [only_faults_intros]:
  "only_faults m \<Longrightarrow> only_faults n \<Longrightarrow> only_faults (contM m n)"
  unfolding contM_def by (intro only_faults_intros)

lemma only_faults_calls [only_faults_intros]:
  "only_faults (ext env c)" "only_faults (call_int env c)" "only_faults (call_ptr env c)"
  "only_faults (call_void env c)"
  by (simp_all add: only_faults_def wp_calls_eq)

lemma only_faults_for_loop [only_faults_intros]:
  assumes "\<And>k. only_faults (body k)"
  shows "only_faults (for_loop i n body)"
  unfolding only_faults_def
proof
  fix s
  have body: "wp (body k) (\<lambda>r _. fault_or_ret r) t" for k t
    using assms by (simp add: only_faults_def)
  show "wp (for_loop i n body) (\<lambda>r _. fault_or_ret r) s"
    by (rule wp_for_loop [where I = "\<lambda>_ _. True"])
      (auto simp: loop_post_def intro!: wp_mono [OF body] split: outcome.splits option.splits)
qed

section \<open>Counting calls\<close>

definition count_calls :: "('c \<Rightarrow> bool) \<Rightarrow> 'c trace \<Rightarrow> nat" where
  "count_calls P tr = length (filter (\<lambda>x. P (fst x)) tr)"

lemma count_calls_Nil [simp]: "count_calls P [] = 0"
  by (simp add: count_calls_def)

lemma count_calls_append [simp]: "count_calls P (xs @ ys) = count_calls P xs + count_calls P ys"
  by (simp add: count_calls_def)

lemma count_calls_Cons [simp]:
  "count_calls P (x # xs) = (if P (fst x) then Suc (count_calls P xs) else count_calls P xs)"
  by (simp add: count_calls_def)

lemma count_calls_none: "fst ` set xs \<subseteq> A \<Longrightarrow> (\<And>c. c \<in> A \<Longrightarrow> \<not> P c) \<Longrightarrow> count_calls P xs = 0"
  by (auto simp: count_calls_def filter_empty_conv)

text \<open>A command that never makes a call of kind \<open>P\<close> leaves their number unchanged.\<close>

lemma emits_count:
  assumes "emits A m" "\<And>c. c \<in> A \<Longrightarrow> \<not> P c" "m s = (r, t)"
  shows "count_calls P (calls t) = count_calls P (calls s)"
  using emitsD [OF assms(1,3)] count_calls_none [of _ A P] assms(2) by (auto simp: grown_def)

text \<open>What a history says when each call says a list of things.\<close>

definition noted :: "('c \<times> resp \<Rightarrow> 'a list) \<Rightarrow> 'c trace \<Rightarrow> 'a list" where
  "noted f tr = concat (map f tr)"

lemma noted_simps [simp]:
  "noted f [] = []" "noted f (x # xs) = f x @ noted f xs" "noted f (xs @ ys) = noted f xs @ noted f ys"
  by (simp_all add: noted_def)

lemma emits_noted:
  assumes "emits A m" "\<And>c r. c \<in> A \<Longrightarrow> f (c, r) = []" "m s = (r, t)"
  shows "noted f (calls t) = noted f (calls s)"
  using emitsD [OF assms(1,3)] assms(2) by (fastforce simp: grown_def noted_def)

end
