(* ===== verification/Verbs.thy ===== *)
theory Verbs
  imports Extern
begin

text \<open>
  The data of the C transport, \<open>src/src/c/transport.h\<close>: its enumerations and macros, the
  parameter block with its static initial value, the context structure, and the calls of
  libibverbs, librdmacm and libc that \<open>transport.c\<close>, \<open>device.c\<close> and \<open>Device.h\<close> make.

  \<open>transport.c\<close> uses three members that \<open>struct rdma_context\<close> does not declare: \<open>cq\<close>,
  \<open>content\<close> and \<open>cm_channel\<close>.  They are members of the record here, next to the declared
  ones; as nothing in the source assigns them, they keep what \<open>malloc\<close> left in them.
\<close>

section \<open>Enumerations\<close>

text \<open>A C enumeration object can hold a value that is no enumerator, and the code has a
  \<open>default\<close> branch for one, so the connection type has a fourth constructor.\<close>

datatype MachineType = UNCHOSEN | SERVER | CLIENT

datatype VerbType = SEND | WRITE | READ | ATOMIC

datatype ConnectionType = RC | UD | UC | ConnectionType_other int

text \<open>The integer each enumerator stands for; machine types are ordered by it.\<close>

fun MachineType_val :: "MachineType \<Rightarrow> int" where
  "MachineType_val UNCHOSEN = -1"
| "MachineType_val SERVER = 0"
| "MachineType_val CLIENT = 1"

instantiation MachineType :: linorder
begin

definition less_eq_MachineType :: "MachineType \<Rightarrow> MachineType \<Rightarrow> bool" where
  "less_eq_MachineType a b \<longleftrightarrow> MachineType_val a \<le> MachineType_val b"

definition less_MachineType :: "MachineType \<Rightarrow> MachineType \<Rightarrow> bool" where
  "less_MachineType a b \<longleftrightarrow> MachineType_val a < MachineType_val b"

instance
proof
  fix a b :: MachineType
  show "a \<le> b \<Longrightarrow> b \<le> a \<Longrightarrow> a = b"
    by (cases a; cases b) (simp_all add: less_eq_MachineType_def)
qed (auto simp: less_eq_MachineType_def less_MachineType_def)

end

section \<open>Macros\<close>

definition DEFAULT_BUF_DEPTH :: int where "DEFAULT_BUF_DEPTH = 4096"
definition MAX_SEND_SGE :: int where "MAX_SEND_SGE = 1"
definition MAX_RECV_SGE :: int where "MAX_RECV_SGE = 1"
definition TIMEOUT_IN_MS :: int where "TIMEOUT_IN_MS = 2000"
definition BUF_SIZE :: int where "BUF_SIZE = 4096 * 1024"

section \<open>The parameter block\<close>

record rdma_param =
  cf_qp_count :: int
  cf_port :: int
  cf_ib_devname :: "string option"
  cf_ip_addr :: "string option"
  cf_ib_port :: int
  cf_mtu :: int
  cf_gid_idx :: int
  cf_retry_count :: int
  cf_use_event :: int
  cf_use_srq :: int
  cf_machine :: MachineType
  cf_verb :: VerbType
  cf_connection_type :: ConnectionType

definition param :: rdma_param where
  "param = \<lparr>cf_qp_count = 1, cf_port = 19875, cf_ib_devname = None, cf_ip_addr = None, cf_ib_port = 1,
     cf_mtu = 4096, cf_gid_idx = -1, cf_retry_count = 0, cf_use_event = 0, cf_use_srq = 0,
     cf_machine = UNCHOSEN, cf_verb = SEND, cf_connection_type = RC\<rparr>"

section \<open>Arrays of pointers\<close>

text \<open>
  A pointer to an array of pointers: null, or the base address and the elements.  Reading or
  writing through null or outside the elements is undefined behaviour.
\<close>

datatype parr = Null_arr | Arr addr "addr list"

fun arr_base :: "parr \<Rightarrow> addr" where
  "arr_base Null_arr = NULL"
| "arr_base (Arr b xs) = b"

fun arr_set :: "parr \<Rightarrow> int \<Rightarrow> addr \<Rightarrow> ('s, parr) cmd" where
  "arr_set Null_arr i v = stopM (Faulted Null_Deref)"
| "arr_set (Arr b xs) i v =
     (if 0 \<le> i \<and> i < int (length xs) then retM (Arr b (xs[nat i := v]))
      else stopM (Faulted Out_Of_Bounds))"

text \<open>An uninitialised pointer to an array points to no memory the program owns.\<close>

definition wild :: "addr \<Rightarrow> parr" where
  "wild p = (if p = NULL then Null_arr else Arr p [])"

text \<open>A freshly allocated array holds what was in memory.\<close>

definition fresh_arr :: "addr \<Rightarrow> (nat \<Rightarrow> addr) \<Rightarrow> nat \<Rightarrow> parr" where
  "fresh_arr b cells n = (if b = NULL then Null_arr else Arr b (map cells [0..<n]))"

section \<open>The context structure\<close>

record rdma_context =
  rc_cm_event_channel :: addr
  rc_cm_id :: addr
  rc_context :: addr
  rc_channel :: addr
  rc_pd :: addr
  rc_mr :: parr
  rc_send_cq :: addr
  rc_recv_cq :: addr
  rc_buf :: parr
  rc_ah :: parr
  rc_qp :: parr
  rc_srq :: addr
  rc_sge_list :: addr
  rc_recv_sge_list :: addr
  rc_wr :: addr
  rc_rwr :: addr
  rc_port_attr :: addr          \<comment> \<open>opaque: filled in by \<open>ibv_query_port\<close>, never read\<close>
  rc_connected :: int
  rc_cq :: addr                 \<comment> \<open>not declared in the structure\<close>
  rc_content :: addr            \<comment> \<open>not declared in the structure\<close>
  rc_cm_channel :: addr         \<comment> \<open>not declared in the structure\<close>

text \<open>What \<open>malloc(sizeof (rdma_ctx_t))\<close> returns: every member is indeterminate.\<close>

definition malloc_ctx :: "(nat \<Rightarrow> addr) \<Rightarrow> rdma_context" where
  "malloc_ctx g = \<lparr>rc_cm_event_channel = g 0, rc_cm_id = g 1, rc_context = g 2, rc_channel = g 3,
     rc_pd = g 4, rc_mr = wild (g 5), rc_send_cq = g 6, rc_recv_cq = g 7, rc_buf = wild (g 8),
     rc_ah = wild (g 9), rc_qp = wild (g 10), rc_srq = g 11, rc_sge_list = g 12,
     rc_recv_sge_list = g 13, rc_wr = g 14, rc_rwr = g 15, rc_port_attr = g 16,
     rc_connected = int (g 17), rc_cq = g 18, rc_content = g 19, rc_cm_channel = g 20\<rparr>"

section \<open>Arguments of the verbs and connection manager calls\<close>

datatype rdma_port_space = RDMA_PS_TCP | RDMA_PS_UDP

datatype ibv_qp_type = IBV_QPT_RC | IBV_QPT_UC | IBV_QPT_UD

datatype access_flag = IBV_ACCESS_LOCAL_WRITE | IBV_ACCESS_REMOTE_READ | IBV_ACCESS_REMOTE_WRITE

record ibv_srq_attr =
  srq_max_wr :: int
  srq_max_sge :: int
  srq_limit :: int

record ibv_qp_init_attr =
  qa_send_cq :: addr
  qa_recv_cq :: addr
  qa_srq :: addr
  qa_max_send_wr :: int
  qa_max_recv_wr :: int
  qa_max_send_sge :: int
  qa_max_recv_sge :: int
  qa_qp_type :: ibv_qp_type

text \<open>The counts of \<open>struct rdma_conn_param\<close> are \<open>uint8_t\<close>, so an \<open>int\<close> stored there is
  reduced modulo 256.\<close>

record rdma_conn_param =
  responder_resources :: "8 word"
  initiator_depth :: "8 word"
  cp_retry_count :: "8 word"
  rnr_retry_count :: "8 word"
  cp_qp_num :: "32 word"

definition conn_param0 :: rdma_conn_param where
  "conn_param0 = \<lparr>responder_resources = 0, initiator_depth = 0, cp_retry_count = 0,
     rnr_retry_count = 0, cp_qp_num = 0\<rparr>"

record addrinfo_hints =
  ai_passive :: bool
  ai_inet :: bool
  ai_stream :: bool

datatype vcall =
    Malloc_rdma_ctx
  | Malloc "64 word"
  | Memalign int
  | Free addr
  | Strdup addr
  | Getaddrinfo "string option" int addrinfo_hints
  | Freeaddrinfo
  | Ibv_get_device_list
  | Ibv_free_device_list addr
  | Ibv_get_device_name addr
  | Ibv_get_device_guid addr
  | Ibv_open_device addr
  | Ibv_close_device addr
  | Ibv_query_device addr
  | Ibv_query_port addr int
  | Ibv_alloc_pd addr
  | Ibv_dealloc_pd addr
  | Ibv_create_comp_channel addr
  | Ibv_create_cq addr int addr
  | Ibv_destroy_cq addr
  | Ibv_create_srq addr ibv_srq_attr
  | Ibv_reg_mr addr addr int "access_flag set"
  | Ibv_dereg_mr addr
  | Rdma_create_event_channel
  | Rdma_destroy_event_channel addr
  | Rdma_create_id addr rdma_port_space
  | Rdma_destroy_id addr
  | Rdma_create_qp addr addr ibv_qp_init_attr
  | Rdma_destroy_qp addr
  | Rdma_get_cm_event addr
  | Rdma_ack_cm_event addr
  | Rdma_resolve_addr addr sockaddr_in int
  | Rdma_resolve_route addr int
  | Rdma_bind_addr addr sockaddr_in
  | Rdma_listen addr int
  | Rdma_connect addr rdma_conn_param
  | Rdma_accept addr rdma_conn_param
  | Rdma_disconnect addr

section \<open>The program state of the C transport\<close>

text \<open>The two file-scope variables; a null \<open>rdma_ctx\<close> is \<open>None\<close>.\<close>

record fs_state = "vcall world" +
  config :: rdma_param
  rdma_ctx :: "rdma_context option"

definition fs_init :: fs_state where
  "fs_init = \<lparr>calls = [], config = param, rdma_ctx = None\<rparr>"

lemma fs_init_simps [simp]:
  "calls fs_init = []" "rdma_ctx fs_init = None" "cf_qp_count (config fs_init) = 1"
  "cf_port (config fs_init) = 19875" "cf_connection_type (config fs_init) = RC"
  "cf_use_event (config fs_init) = 0" "cf_use_srq (config fs_init) = 0"
  by (simp_all add: fs_init_def param_def)

lemma malloc_ctx_simps [simp]:
  "rc_cm_event_channel (malloc_ctx g) = g 0" "rc_cm_id (malloc_ctx g) = g 1"
  "rc_context (malloc_ctx g) = g 2" "rc_channel (malloc_ctx g) = g 3" "rc_pd (malloc_ctx g) = g 4"
  "rc_mr (malloc_ctx g) = wild (g 5)" "rc_buf (malloc_ctx g) = wild (g 8)"
  "rc_qp (malloc_ctx g) = wild (g 10)" "rc_srq (malloc_ctx g) = g 11"
  "rc_connected (malloc_ctx g) = int (g 17)" "rc_cq (malloc_ctx g) = g 18"
  "rc_content (malloc_ctx g) = g 19" "rc_cm_channel (malloc_ctx g) = g 20"
  by (simp_all add: malloc_ctx_def)

text \<open>Reading and writing a member through \<open>rdma_ctx\<close>: a null pointer faults.\<close>

definition get_ctx :: "(rdma_context \<Rightarrow> 'a) \<Rightarrow> (fs_state, 'a) cmd" where
  "get_ctx f = bindM (getM rdma_ctx)
     (\<lambda>p. case p of None \<Rightarrow> stopM (Faulted Null_Deref) | Some c \<Rightarrow> retM (f c))"

definition put_ctx :: "(rdma_context \<Rightarrow> rdma_context) \<Rightarrow> (fs_state, unit) cmd" where
  "put_ctx f = bindM (getM rdma_ctx)
     (\<lambda>p. case p of None \<Rightarrow> stopM (Faulted Null_Deref)
       | Some c \<Rightarrow> modifyM (\<lambda>s. s\<lparr>rdma_ctx := Some (f c)\<rparr>))"

declare get_ctx_def [cmd_defs] put_ctx_def [cmd_defs]

lemma wp_get_ctx:
  "wp (get_ctx f) Q s = (case rdma_ctx s of None \<Rightarrow> Q (Stop (Faulted Null_Deref)) s
     | Some c \<Rightarrow> Q (Ret (f c)) s)"
  by (simp add: get_ctx_def wp_bind split: option.splits)

lemma wp_put_ctx:
  "wp (put_ctx f) Q s = (case rdma_ctx s of None \<Rightarrow> Q (Stop (Faulted Null_Deref)) s
     | Some c \<Rightarrow> Q (Ret ()) (s\<lparr>rdma_ctx := Some (f c)\<rparr>))"
  by (simp add: put_ctx_def wp_bind split: option.splits)

lemmas wp_ctx = wp_get_ctx wp_put_ctx

lemma emits_get_ctx [emits_intros]: "emits A (get_ctx f)"
  by (rule emitsI) (simp add: wp_get_ctx split: option.splits)

lemma emits_put_ctx [emits_intros]: "emits A (put_ctx f)"
  by (rule emitsI) (simp add: wp_put_ctx split: option.splits)

lemma emits_arr_set [emits_intros]: "emits A (arr_set a i v)"
  by (cases a) (auto intro: emits_intros)

lemma wp_arr_set:
  "wp (arr_set a i v) Q s = (case a of Null_arr \<Rightarrow> Q (Stop (Faulted Null_Deref)) s
     | Arr b xs \<Rightarrow> if 0 \<le> i \<and> i < int (length xs) then Q (Ret (Arr b (xs[nat i := v]))) s
         else Q (Stop (Faulted Out_Of_Bounds)) s)"
  by (cases a) auto

end
