(* ===== verification/Relocation.thy ===== *)
theory Relocation
  imports Extern
begin

text \<open>
  Answers depend on the whole history, so what a command does after a history \<open>h\<close> is what it does
  from the start in the environment that has already seen \<open>h\<close>.  A statement about the answers in a
  history then becomes one about the answers the command itself was given (\<open>since\<close>).
\<close>

section \<open>The calls of a command\<close>

text \<open>The calls made from \<open>s\<close> to \<open>t\<close>.\<close>

definition since :: "('c, 'y) world_scheme \<Rightarrow> ('c, 'z) world_scheme \<Rightarrow> 'c trace" where
  "since s t = drop (length (calls s)) (calls t)"

lemma since_append [simp]: "calls t = calls s @ xs \<Longrightarrow> since s t = xs"
  by (simp add: since_def)

lemma since_refl [simp]: "since s s = []"
  by (simp add: since_def)

lemma since_more: "prefix (calls s) (calls t) \<Longrightarrow> calls u = calls t @ xs \<Longrightarrow> since s u = since s t @ xs"
  by (auto simp: since_def prefix_def)

lemma since_trans:
  "prefix (calls s) (calls t) \<Longrightarrow> prefix (calls t) (calls u) \<Longrightarrow> since s u = since s t @ since t u"
  by (auto simp: since_def prefix_def)

lemma since_made: "made s t xs \<Longrightarrow> map fst (since s t) = xs"
  by (auto simp: since_def made_def prefix_def)

lemma since_prefix: "prefix (calls s @ xs @ [x]) (calls t) \<Longrightarrow> x \<in> set (since s t)"
  by (auto simp: since_def prefix_def)

section \<open>Moving a command to the start\<close>

definition seen :: "'c trace \<Rightarrow> 'c env \<Rightarrow> 'c env" where
  "seen h env = (\<lambda>tr. env (h @ tr))"

definition behind :: "'c trace \<Rightarrow> ('c, 'z) world_scheme \<Rightarrow> ('c, 'z) world_scheme" where
  "behind h s = s\<lparr>calls := h @ calls s\<rparr>"

definition relocates :: "('c env \<Rightarrow> (('c, 'z) world_scheme, 'a) cmd) \<Rightarrow> bool" where
  "relocates m \<longleftrightarrow> (\<forall>env h s. m env (behind h s) = apsnd (behind h) (m (seen h env) s))"

lemma behind_simps [simp]: "calls (behind h s) = h @ calls s" "world.more (behind h s) = world.more s"
  by (simp_all add: behind_def)

named_theorems relocates_intros \<open>closure of relocates under the command formers\<close>

lemma relocatesD: "relocates m \<Longrightarrow> m env (behind h s) = apsnd (behind h) (m (seen h env) s)"
  by (simp add: relocates_def)

lemma relocates_ret [relocates_intros]: "relocates (\<lambda>env. retM x)"
  by (simp add: relocates_def retM_def)

lemma relocates_stop [relocates_intros]: "relocates (\<lambda>env. stopM e)"
  by (simp add: relocates_def stopM_def)

lemma relocates_get [relocates_intros]:
  "(\<And>h s. f (s\<lparr>calls := h\<rparr>) = f s) \<Longrightarrow> relocates (\<lambda>env. getM f)"
  by (simp add: relocates_def getM_def behind_def)

lemma relocates_modify [relocates_intros]:
  assumes "\<And>h s. f (s\<lparr>calls := h\<rparr>) = (f s)\<lparr>calls := h\<rparr>" and "\<And>s. calls (f s) = calls s"
  shows "relocates (\<lambda>env. modifyM f)"
  using assms by (simp add: relocates_def modifyM_def behind_def)

lemma relocates_bind [relocates_intros]:
  assumes m: "relocates m" and f: "\<And>x. relocates (\<lambda>env. f env x)"
  shows "relocates (\<lambda>env. bindM (m env) (f env))"
  unfolding relocates_def
proof (intro allI)
  fix env :: "'a env" and h s
  obtain r t where rt: "m (seen h env) s = (r, t)" by fastforce
  have "f env x (behind h t) = apsnd (behind h) (f (seen h env) x t)" for x
    using relocatesD [OF f] .
  then show "bindM (m env) (f env) (behind h s) =
      apsnd (behind h) (bindM (m (seen h env)) (f (seen h env)) s)"
    by (cases r) (simp_all add: bindM_def relocatesD [OF m] rt)
qed

lemma relocates_then [relocates_intros]:
  "relocates m \<Longrightarrow> relocates n \<Longrightarrow> relocates (\<lambda>env. thenM (m env) (n env))"
  unfolding thenM_def by (rule relocates_bind)

lemma relocates_if [relocates_intros]:
  "relocates m \<Longrightarrow> relocates n \<Longrightarrow> relocates (\<lambda>env. if b then m env else n env)"
  by (cases b) simp_all

lemma relocates_when [relocates_intros]: "relocates m \<Longrightarrow> relocates (\<lambda>env. whenM b (m env))"
  unfolding whenM_def by (intro relocates_intros)

lemma relocates_case_option [relocates_intros]:
  "relocates m \<Longrightarrow> (\<And>x. relocates (\<lambda>env. f env x)) \<Longrightarrow>
     relocates (\<lambda>env. case r of None \<Rightarrow> m env | Some x \<Rightarrow> f env x)"
  by (cases r) simp_all

lemma relocates_case_sum [relocates_intros]:
  "(\<And>x. relocates (\<lambda>env. f env x)) \<Longrightarrow> (\<And>x. relocates (\<lambda>env. g env x)) \<Longrightarrow>
     relocates (\<lambda>env. case r of Inl x \<Rightarrow> f env x | Inr x \<Rightarrow> g env x)"
  by (cases r) simp_all

lemma relocates_case_prod [relocates_intros]:
  "(\<And>x y. relocates (\<lambda>env. f env x y)) \<Longrightarrow> relocates (\<lambda>env. case r of (x, y) \<Rightarrow> f env x y)"
  by (cases r) simp

lemma relocates_cont [relocates_intros]:
  "relocates m \<Longrightarrow> relocates n \<Longrightarrow> relocates (\<lambda>env. contM (m env) (n env))"
  unfolding contM_def by (intro relocates_intros)

lemma relocates_c_mul [relocates_intros]: "relocates (\<lambda>env. c_mul a b)"
  unfolding c_mul_def by (intro relocates_intros)

lemma relocates_ext [relocates_intros]: "relocates (\<lambda>env. ext env c)"
  by (simp add: relocates_def ext_def behind_def seen_def Let_def)

lemma relocates_calls [relocates_intros]:
  "relocates (\<lambda>env. call_int env c)" "relocates (\<lambda>env. call_ptr env c)" "relocates (\<lambda>env. call_void env c)"
  unfolding call_int_def call_ptr_def call_void_def by (intro relocates_intros)+

lemma relocates_for_loop [relocates_intros]:
  assumes body: "\<And>k. relocates (\<lambda>env. body env k)"
  shows "relocates (\<lambda>env. for_loop i n (body env))"
  unfolding relocates_def
proof (intro allI)
  fix env :: "'a env" and h s
  show "for_loop i n (body env) (behind h s) = apsnd (behind h) (for_loop i n (body (seen h env)) s)"
  proof (induction "nat (n - i)" arbitrary: i s)
    case (Suc k)
    obtain r t where rt: "body (seen h env) i s = (r, t)" by fastforce
    have "body env i (behind h s) = (r, behind h t)"
      using relocatesD [OF body, of env i h s] rt by simp
    with rt Suc show ?case
      by (auto simp: for_loop.simps [of i] split: outcome.split option.split)
  qed simp
qed

text \<open>A run of a command, moved to the start.\<close>

lemma relocated:
  assumes "relocates m" and "m env s = (r, t)"
  obtains u where "m (seen (calls s) env) (s\<lparr>calls := []\<rparr>) = (r, u)" "t = behind (calls s) u"
    "calls u = since s t"
proof -
  obtain x u where u: "m (seen (calls s) env) (s\<lparr>calls := []\<rparr>) = (x, u)" by fastforce
  have "behind (calls s) (s\<lparr>calls := []\<rparr>) = s" by (simp add: behind_def)
  with relocatesD [OF assms(1), of env "calls s" "s\<lparr>calls := []\<rparr>"] assms(2) u
  have "r = x" "t = behind (calls s) u" by simp_all
  with u show ?thesis by (intro that [of u]) (simp_all add: behind_def)
qed

end
