(* ===== verification/Rdma_Context.thy ===== *)
theory Rdma_Context
  imports Verbs Relocation
begin

text \<open>
  Creating and destroying the context of \<open>src/src/c/transport.c\<close>, and the two ways to start
  a connection: \<open>fs_rdma_connect\<close> (client) and \<open>fs_rdma_listen\<close> (server).

  Readings of names the source leaves undeclared: \<open>ctx\<close> is \<open>rdma_ctx\<close>, the only context of
  the file.  \<open>getaddrinfo\<close> is called with an \<open>int\<close> where C wants a service string and with
  the hints by value; the call keeps the values the source passes, and \<open>fs_rdma_listen\<close>, which
  passes \<open>res\<close> where the address of \<open>res\<close> is needed, is read as passing the address.  \<open>rdma_create_id\<close> writes
  its result when it returns 0, \<open>getaddrinfo\<close> likewise; on failure the pointer the source
  then reads was never written.
\<close>

section \<open>Operations\<close>

definition cfg :: "(rdma_param \<Rightarrow> 'a) \<Rightarrow> (fs_state, 'a) cmd" where
  "cfg f = getM (\<lambda>s. f (config s))"

declare cfg_def [cmd_defs]

lemma wp_cfg [simp]: "wp (cfg f) Q s = Q (Ret (f (config s))) s"
  by (simp add: cfg_def)

lemma emits_cfg [emits_intros]: "emits A (cfg f)"
  by (simp add: cfg_def emits_get)

text \<open>
  The macro \<open>ALLOCATE(var, T*, n)\<close> for an array of pointers: \<open>malloc(sizeof(T*) * n)\<close>, with
  the \<open>int\<close> count converted to a 64-bit \<open>size_t\<close>, stored in the member \<open>upd\<close> writes, and
  \<open>exit(1)\<close> when it is null.
\<close>

definition ptr_bytes :: "int \<Rightarrow> 64 word" where
  "ptr_bytes n = 8 * word_of_int n"

definition ALLOCATE ::
    "vcall env \<Rightarrow> (parr \<Rightarrow> rdma_context \<Rightarrow> rdma_context) \<Rightarrow> int \<Rightarrow> (fs_state, unit) cmd" where
  "ALLOCATE env upd n =
     bindM (ext env (Malloc (ptr_bytes n))) (\<lambda>r.
     thenM (put_ctx (upd (fresh_arr (r_ptr r) (r_cells r) (unat (ptr_bytes n) div 8))))
       (if r_ptr r = NULL then stopM (Exited 1) else retM ()))"

definition fs_rdma_create_ctx :: "vcall env \<Rightarrow> (fs_state, int) cmd" where
  "fs_rdma_create_ctx env =
     bindM (ext env Malloc_rdma_ctx) (\<lambda>m.
     thenM (modifyM (\<lambda>s. s\<lparr>rdma_ctx :=
       (if r_ptr m = NULL then None else Some (malloc_ctx (r_cells m)))\<rparr>))
     (if r_ptr m = NULL then retM (- 1)
      else bindM (call_ptr env Rdma_create_event_channel) (\<lambda>ch.
        thenM (put_ctx (\<lambda>c. c\<lparr>rc_cm_event_channel := ch\<rparr>))
        (if ch = NULL then retM (- 1)
         else bindM (cfg cf_connection_type) (\<lambda>ct.
           bindM (ext env (Rdma_create_id ch (if ct = UD then RDMA_PS_UDP else RDMA_PS_TCP))) (\<lambda>r.
           if r_int r \<noteq> 0 then retM (- 1)
           else thenM (put_ctx (\<lambda>c. c\<lparr>rc_cm_id := r_ptr r\<rparr>))
             (bindM (cfg cf_qp_count) (\<lambda>n.
              thenM (ALLOCATE env (\<lambda>a c. c\<lparr>rc_qp := a\<rparr>) n)
              (thenM (ALLOCATE env (\<lambda>a c. c\<lparr>rc_mr := a\<rparr>) n)
              (thenM (ALLOCATE env (\<lambda>a c. c\<lparr>rc_buf := a\<rparr>) n)
                (retM 0)))))))))))"

definition fs_rdma_destroy_ctx :: "vcall env \<Rightarrow> (fs_state, int) cmd" where
  "fs_rdma_destroy_ctx env =
     bindM (get_ctx rc_cm_id) (\<lambda>id. thenM (call_void env (Rdma_destroy_id id))
     (bindM (get_ctx rc_cm_channel) (\<lambda>ch. thenM (call_void env (Rdma_destroy_event_channel ch))
     (retM 0))))"

text \<open>The socket address both openers build: the resolved one, with the configured port.\<close>

definition with_config_port :: "sockaddr_in \<Rightarrow> int \<Rightarrow> sockaddr_in" where
  "with_config_port sa p = sa\<lparr>sin_port := htons (word_of_int p)\<rparr>"

definition client_hints :: addrinfo_hints where
  "client_hints = \<lparr>ai_passive = False, ai_inet = True, ai_stream = True\<rparr>"

definition server_hints :: addrinfo_hints where
  "server_hints = \<lparr>ai_passive = True, ai_inet = True, ai_stream = True\<rparr>"

definition fs_rdma_connect :: "vcall env \<Rightarrow> string option \<Rightarrow> int \<Rightarrow> (fs_state, int) cmd" where
  "fs_rdma_connect env ip_addr port =
     bindM (fs_rdma_create_ctx env) (\<lambda>_.
     bindM (ext env (Getaddrinfo ip_addr port client_hints)) (\<lambda>res.
     if r_int res \<noteq> 0 then stopM (Faulted Uninit_Read)
     else bindM (cfg cf_port) (\<lambda>p.
       thenM (call_void env Freeaddrinfo)
       (bindM (get_ctx rc_cm_id) (\<lambda>id.
        call_int env (Rdma_resolve_addr id (with_config_port (r_sock res) p) TIMEOUT_IN_MS))))))"

definition fs_rdma_listen :: "vcall env \<Rightarrow> string option \<Rightarrow> int \<Rightarrow> (fs_state, int) cmd" where
  "fs_rdma_listen env ip_addr port =
     bindM (ext env (Getaddrinfo ip_addr port server_hints)) (\<lambda>res.
     if r_int res < 0 then retM (r_int res)
     else if r_int res \<noteq> 0 then stopM (Faulted Uninit_Read)
     else bindM (cfg cf_port) (\<lambda>p.
       thenM (call_void env Freeaddrinfo)
       (bindM (get_ctx rc_cm_id) (\<lambda>id.
        bindM (call_int env (Rdma_bind_addr id (with_config_port (r_sock res) p))) (\<lambda>b.
        if b \<noteq> 0 then retM (- 1)
        else bindM (get_ctx rc_cm_id) (\<lambda>id.
          bindM (call_int env (Rdma_listen id 0)) (\<lambda>l.
          if l \<noteq> 0 then retM (- 1) else retM l)))))))"

section \<open>The context create_ctx promises\<close>

text \<open>A freshly created context: a channel, three arrays of \<open>qp_count\<close> elements.\<close>

definition arr_ok :: "int \<Rightarrow> parr \<Rightarrow> bool" where
  "arr_ok n a \<longleftrightarrow> (\<exists>b xs. a = Arr b xs \<and> b \<noteq> NULL \<and> int (length xs) = n)"

definition arrays_ready :: "int \<Rightarrow> rdma_context \<Rightarrow> bool" where
  "arrays_ready n c \<longleftrightarrow> arr_ok n (rc_qp c) \<and> arr_ok n (rc_mr c) \<and> arr_ok n (rc_buf c)"

definition ctx_ready :: "int \<Rightarrow> rdma_context \<Rightarrow> bool" where
  "ctx_ready n c \<longleftrightarrow> rc_cm_event_channel c \<noteq> NULL \<and> arrays_ready n c"

lemma ptr_bytes_cells: "0 \<le> n \<Longrightarrow> c_int n \<Longrightarrow> int (unat (ptr_bytes n) div 8) = n"
proof -
  assume n: "0 \<le> n" "c_int n"
  then have "uint (ptr_bytes n) = 8 * n"
    by (simp add: ptr_bytes_def c_int_def uint_word_ariths uint_word_of_int)
  then show ?thesis by (simp add: unat_eq_nat_uint nat_mult_distrib nat_div_distrib zdiv_int n)
qed

lemma arr_ok_fresh: "b \<noteq> NULL \<Longrightarrow> 0 \<le> n \<Longrightarrow> c_int n \<Longrightarrow>
    arr_ok n (fresh_arr b g (unat (ptr_bytes n) div 8))"
  using ptr_bytes_cells [of n] by (auto simp: arr_ok_def fresh_arr_def)

lemma wp_ALLOCATE:
  assumes "rdma_ctx s \<noteq> None"
    and "\<And>r. r_ptr r \<noteq> NULL \<Longrightarrow> Q (Ret ()) (s\<lparr>calls := calls s @ [(Malloc (ptr_bytes n), r)],
      rdma_ctx := Some (upd (fresh_arr (r_ptr r) (r_cells r) (unat (ptr_bytes n) div 8))
        (the (rdma_ctx s)))\<rparr>)"
    and "\<And>r. r_ptr r = NULL \<Longrightarrow> Q (Stop (Exited 1)) (s\<lparr>calls := calls s @ [(Malloc (ptr_bytes n), r)],
      rdma_ctx := Some (upd Null_arr (the (rdma_ctx s)))\<rparr>)"
  shows "wp (ALLOCATE env upd n) Q s"
  unfolding ALLOCATE_def
  using assms by (auto simp: wp_simps wp_ctx fresh_arr_def intro!: wp_calls)

lemma emits_ALLOCATE [emits_intros]: "Malloc (ptr_bytes n) \<in> A \<Longrightarrow> emits A (ALLOCATE env upd n)"
  unfolding ALLOCATE_def by (intro emits_intros)

section \<open>Properties\<close>

text \<open>C27: when \<open>fs_rdma_create_ctx\<close> returns 0 the context exists, has an event channel and
  holds queue pair, memory region and buffer arrays of exactly \<open>qp_count\<close> entries.\<close>

theorem create_ctx_ready:
  assumes "fs_rdma_create_ctx env s = (Ret 0, t)"
    and "0 \<le> cf_qp_count (config s)" and "c_int (cf_qp_count (config s))"
  shows "\<exists>c. rdma_ctx t = Some c \<and> ctx_ready (cf_qp_count (config s)) c \<and> config t = config s"
proof -
  have "wp (fs_rdma_create_ctx env) (\<lambda>r t. r = Ret 0 \<longrightarrow> (\<exists>c. rdma_ctx t = Some c \<and>
      ctx_ready (cf_qp_count (config s)) c \<and> config t = config s)) s"
    unfolding fs_rdma_create_ctx_def
    by (auto simp: wp_simps wp_ctx ctx_ready_def arrays_ready_def assms(2,3) arr_ok_fresh
        intro!: wp_calls wp_ALLOCATE)
  then show ?thesis using assms(1) by (simp add: wp_def)
qed

text \<open>The acquisitions of a successful creation, in order.\<close>

definition create_ctx_calls :: "rdma_param \<Rightarrow> addr \<Rightarrow> vcall list" where
  "create_ctx_calls p ch =
     [Malloc_rdma_ctx, Rdma_create_event_channel,
      Rdma_create_id ch (if cf_connection_type p = UD then RDMA_PS_UDP else RDMA_PS_TCP),
      Malloc (ptr_bytes (cf_qp_count p)), Malloc (ptr_bytes (cf_qp_count p)),
      Malloc (ptr_bytes (cf_qp_count p))]"

text \<open>Whether an acquisition was given what it asked for: \<open>rdma_create_id\<close> says so with 0, the
  others with a pointer.\<close>

fun acquired :: "vcall \<times> resp \<Rightarrow> bool" where
  "acquired (Rdma_create_id _ _, r) = (r_int r = 0)"
| "acquired (_, r) = (r_ptr r \<noteq> NULL)"

text \<open>C26: the calls of \<open>fs_rdma_create_ctx\<close> on every path, tied to what they were answered.  It
  goes through the same six acquisitions in the same order, each after the ones before it
  succeeded; it returns 0 exactly when the sixth succeeded, \<open>-1\<close> when the context, the channel or
  the identifier was refused, and ends the process when an array was.  The identifier is created
  on the channel that was just answered.  An error return makes no further call: it releases
  nothing it acquired.\<close>

theorem create_ctx_sequence:
  "let (r, t) = fs_rdma_create_ctx env s; tr = since s t; k = length tr
   in prefix (calls s) (calls t) \<and>
      map fst tr = take k (create_ctx_calls (config s) (r_ptr (snd (tr ! 1)))) \<and>
      list_all acquired (butlast tr) \<and>
      (acquired (last tr), k, r) \<in>
        {(False, 1, Ret (- 1)), (False, 2, Ret (- 1)), (False, 3, Ret (- 1)),
         (False, 4, Stop (Exited 1)), (False, 5, Stop (Exited 1)), (False, 6, Stop (Exited 1)),
         (True, 6, Ret 0)}"
proof -
  let ?P = "\<lambda>tr k r. map fst tr = take k (create_ctx_calls (config s) (r_ptr (snd (tr ! 1)))) \<and>
      list_all acquired (butlast tr) \<and> (acquired (last tr), k, r) \<in>
        {(False, 1, Ret (- 1)), (False, 2, Ret (- 1)), (False, 3, Ret (- 1)),
         (False, 4, Stop (Exited 1)), (False, 5, Stop (Exited 1)), (False, 6, Stop (Exited 1)),
         (True, 6, Ret 0)}"
  have "wp (fs_rdma_create_ctx env)
      (\<lambda>r t. \<exists>tr. calls t = calls s @ tr \<and> ?P tr (length tr) r) s"
    unfolding fs_rdma_create_ctx_def
    by (auto simp: wp_simps wp_ctx create_ctx_calls_def intro!: wp_calls wp_ALLOCATE)
  then obtain tr where "calls (snd (fs_rdma_create_ctx env s)) = calls s @ tr"
      "?P tr (length tr) (fst (fs_rdma_create_ctx env s))"
    unfolding wp_def by blast
  then show ?thesis by (simp add: Let_def split_beta)
qed

text \<open>A context is destroyed with the wrong channel.  \<open>fs_rdma_destroy_ctx\<close> destroys the
  identifier that was created and then passes \<open>rdma_destroy_event_channel\<close> the undeclared
  member \<open>cm_channel\<close>, which holds what \<open>malloc\<close> left there, not the channel that
  \<open>fs_rdma_create_ctx\<close> created; the context itself is not freed.\<close>

theorem destroy_ctx_calls:
  assumes "fs_rdma_create_ctx env s = (Ret 0, t)"
  shows "\<exists>g id. fst (fs_rdma_destroy_ctx env t) = Ret 0 \<and>
    g = r_cells (env (calls s) Malloc_rdma_ctx) \<and>
    rdma_ctx t \<noteq> None \<and> id = rc_cm_id (the (rdma_ctx t)) \<and>
    made t (snd (fs_rdma_destroy_ctx env t)) [Rdma_destroy_id id, Rdma_destroy_event_channel (g 20)]"
proof -
  let ?g = "r_cells (env (calls s) Malloc_rdma_ctx)"
  have "wp (fs_rdma_create_ctx env)
      (\<lambda>r t. r = Ret 0 \<longrightarrow> (\<exists>c. rdma_ctx t = Some c \<and> rc_cm_channel c = ?g 20)) s"
    unfolding fs_rdma_create_ctx_def
    by (simp add: wp_simps wp_ext_eq)
      (auto simp: wp_simps wp_ctx malloc_ctx_def intro!: wp_calls wp_ALLOCATE)
  with assms obtain c where c: "rdma_ctx t = Some c" "rc_cm_channel c = ?g 20"
    by (auto simp: wp_def)
  have "wp (fs_rdma_destroy_ctx env) (\<lambda>r u. r = Ret 0 \<and>
      made t u [Rdma_destroy_id (rc_cm_id c), Rdma_destroy_event_channel (?g 20)]) t"
    unfolding fs_rdma_destroy_ctx_def
    by (auto simp: wp_simps wp_ctx c made_def intro!: wp_calls)
  with c show ?thesis by (auto simp: wp_def)
qed

text \<open>\<open>fs_rdma_listen\<close> on every path.  It resolves, frees the resolved list, binds and
  listens, in this order, stopping at the first failure; it returns 0 exactly when all
  succeeded, and it binds the resolved address with the configured port, whatever its \<open>port\<close>
  argument was.\<close>

theorem listen_sequence:
  assumes "rdma_ctx s = Some c"
    and "r_int (env (calls s) (Getaddrinfo ip p server_hints)) \<le> 0"
  shows "let a = env (calls s) (Getaddrinfo ip p server_hints);
      sa = with_config_port (r_sock a) (cf_port (config s));
      full = [Getaddrinfo ip p server_hints, Freeaddrinfo, Rdma_bind_addr (rc_cm_id c) sa,
        Rdma_listen (rc_cm_id c) 0];
      r = fst (fs_rdma_listen env ip p s); t = snd (fs_rdma_listen env ip p s);
      answer = r_int (snd (last (calls t)))
    in made s t (take 1 full) \<and> r = Ret answer \<and> answer < 0 \<or>
       made s t (take 3 full) \<and> r = Ret (- 1) \<and> answer \<noteq> 0 \<or>
       made s t full \<and> r = Ret (if answer = 0 then 0 else - 1)"
proof -
  have "wp (fs_rdma_listen env ip p) (\<lambda>r t.
      let a = env (calls s) (Getaddrinfo ip p server_hints);
        sa = with_config_port (r_sock a) (cf_port (config s));
        full = [Getaddrinfo ip p server_hints, Freeaddrinfo, Rdma_bind_addr (rc_cm_id c) sa,
          Rdma_listen (rc_cm_id c) 0];
        answer = r_int (snd (last (calls t)))
      in made s t (take 1 full) \<and> r = Ret answer \<and> answer < 0 \<or>
         made s t (take 3 full) \<and> r = Ret (- 1) \<and> answer \<noteq> 0 \<or>
         made s t full \<and> r = Ret (if answer = 0 then 0 else - 1)) s"
    unfolding fs_rdma_listen_def
    using assms by (auto simp: wp_simps wp_ctx wp_ext_eq made_def Let_def intro!: wp_calls)
  then show ?thesis by (simp add: wp_def Let_def)
qed

text \<open>\<open>fs_rdma_connect\<close> after a context with an identifier was created: it resolves the
  address with the configured port and the 2000 ms timeout, frees the resolved list first, and
  returns what \<open>rdma_resolve_addr\<close> answered.  The result of \<open>fs_rdma_create_ctx\<close> is ignored,
  so this holds also where that returned an error but left a context behind.\<close>

theorem connect_sequence:
  assumes "fs_rdma_create_ctx env s = (Ret i, u)" and "rdma_ctx u = Some c"
    and "r_int (env (calls u) (Getaddrinfo ip p client_hints)) = 0"
  shows "let sa = with_config_port (r_sock (env (calls u) (Getaddrinfo ip p client_hints)))
        (cf_port (config u));
      t = snd (fs_rdma_connect env ip p s)
    in made u t [Getaddrinfo ip p client_hints, Freeaddrinfo,
         Rdma_resolve_addr (rc_cm_id c) sa TIMEOUT_IN_MS] \<and>
       fst (fs_rdma_connect env ip p s) = Ret (r_int (snd (last (calls t))))"
proof -
  have "wp (fs_rdma_connect env ip p) (\<lambda>r t. let sa = with_config_port (r_sock (env (calls u)
      (Getaddrinfo ip p client_hints))) (cf_port (config u))
    in made u t [Getaddrinfo ip p client_hints, Freeaddrinfo,
         Rdma_resolve_addr (rc_cm_id c) sa TIMEOUT_IN_MS] \<and>
       r = Ret (r_int (snd (last (calls t))))) s"
    unfolding fs_rdma_connect_def wp_bind [of "fs_rdma_create_ctx env"]
    unfolding wp_def [of "fs_rdma_create_ctx env"]
    using assms by (auto simp: wp_simps wp_ctx wp_ext_eq made_def Let_def intro!: wp_calls)
  then show ?thesis by (simp add: wp_def Let_def)
qed

text \<open>Because \<open>fs_rdma_connect\<close> ignores the result of \<open>fs_rdma_create_ctx\<close>, running out of
  memory there is not reported but dereferences a null context.\<close>

theorem connect_ignores_failed_create:
  assumes "r_ptr (env (calls s) Malloc_rdma_ctx) = NULL"
    and "\<And>tr. r_int (env tr (Getaddrinfo ip p client_hints)) = 0"
  shows "fst (fs_rdma_create_ctx env s) = Ret (- 1) \<and>
    fst (fs_rdma_connect env ip p s) = Stop (Faulted Null_Deref)"
proof -
  have "wp (fs_rdma_create_ctx env) (\<lambda>r t. r = Ret (- 1) \<and> rdma_ctx t = None) s"
    unfolding fs_rdma_create_ctx_def using assms(1) by (simp add: wp_simps wp_ext_eq)
  moreover from this have "wp (fs_rdma_connect env ip p) (\<lambda>r t. r = Stop (Faulted Null_Deref)) s"
    unfolding fs_rdma_connect_def wp_bind [of "fs_rdma_create_ctx env"]
    by (elim wp_mono) (auto simp: wp_simps wp_ctx wp_ext_eq assms(2) intro!: wp_calls)
  ultimately show ?thesis by (simp add: wp_def)
qed

section \<open>A host where everything succeeds\<close>

definition good_host :: "vcall env" where
  "good_host tr c = (case c of
       Malloc n \<Rightarrow> resp0\<lparr>r_ptr := 1000 + length tr\<rparr>
     | Rdma_create_id ch ps \<Rightarrow> resp0\<lparr>r_ptr := 7\<rparr>
     | Malloc_rdma_ctx \<Rightarrow> resp0\<lparr>r_ptr := 900, r_cells := (\<lambda>i. 50 + i)\<rparr>
     | Rdma_create_event_channel \<Rightarrow> resp0\<lparr>r_ptr := 5\<rparr>
     | _ \<Rightarrow> resp0)"

lemma htons_example: "htons 19875 = 41805"
  by (simp add: htons_def)

lemma good_host_create:
  "fst (fs_rdma_create_ctx good_host fs_init) = Ret 0"
  "rdma_ctx (snd (fs_rdma_create_ctx good_host fs_init)) \<noteq> None"
  by (simp_all add: fs_rdma_create_ctx_def ALLOCATE_def cmd_defs good_host_def resp0_def fs_init_def
      Let_def)

lemma good_host_created:
  obtains t c where "fs_rdma_create_ctx good_host fs_init = (Ret 0, t)" and "rdma_ctx t = Some c"
  using good_host_create by (metis prod.collapse not_None_eq)

theorem create_ctx_ready_witness:
  "\<exists>c. rdma_ctx (snd (fs_rdma_create_ctx good_host fs_init)) = Some c \<and> ctx_ready 1 c"
proof -
  obtain t where t: "fs_rdma_create_ctx good_host fs_init = (Ret 0, t)"
    by (rule good_host_created)
  show ?thesis
    using create_ctx_ready [OF t] by (auto simp: t c_int_def)
qed

theorem destroy_ctx_calls_witness:
  "\<exists>t id. fs_rdma_create_ctx good_host fs_init = (Ret 0, t) \<and>
    made t (snd (fs_rdma_destroy_ctx good_host t)) [Rdma_destroy_id id, Rdma_destroy_event_channel 70]"
proof -
  obtain t where t: "fs_rdma_create_ctx good_host fs_init = (Ret 0, t)"
    by (rule good_host_created)
  show ?thesis
    using destroy_ctx_calls [OF t] by (auto simp: t good_host_def)
qed

theorem listen_sequence_witness:
  "let s = fs_init\<lparr>rdma_ctx := Some (malloc_ctx (\<lambda>_. 3))\<rparr>;
     t = snd (fs_rdma_listen good_host None 1 s)
   in fst (fs_rdma_listen good_host None 1 s) = Ret 0 \<and>
     made s t [Getaddrinfo None 1 server_hints, Freeaddrinfo,
       Rdma_bind_addr 3 \<lparr>sin_family = 2, sin_addr = 0, sin_port = 41805\<rparr>, Rdma_listen 3 0]"
proof -
  let ?s = "fs_init\<lparr>rdma_ctx := Some (malloc_ctx (\<lambda>_. 3))\<rparr>"
  have "fst (fs_rdma_listen good_host None 1 ?s) = Ret 0"
    by (simp add: fs_rdma_listen_def cmd_defs good_host_def resp0_def Let_def)
  then show ?thesis
    using listen_sequence [of ?s "malloc_ctx (\<lambda>_. 3)" good_host None 1]
    by (auto simp: Let_def good_host_def resp0_def with_config_port_def htons_example
        split: if_splits)
qed

theorem connect_sequence_witness:
  "\<exists>u c sa. fs_rdma_create_ctx good_host fs_init = (Ret 0, u) \<and> rdma_ctx u = Some c \<and>
     made u (snd (fs_rdma_connect good_host None 1 fs_init))
       [Getaddrinfo None 1 client_hints, Freeaddrinfo, Rdma_resolve_addr (rc_cm_id c) sa 2000]"
proof -
  obtain u c where u: "fs_rdma_create_ctx good_host fs_init = (Ret 0, u)" and c: "rdma_ctx u = Some c"
    by (rule good_host_created)
  show ?thesis
    using connect_sequence [OF u c, of None 1] u c
    by (auto simp: Let_def good_host_def resp0_def TIMEOUT_IN_MS_def)
qed

theorem connect_ignores_failed_create_witness:
  "fst (fs_rdma_create_ctx (\<lambda>_ _. resp0) fs_init) = Ret (- 1) \<and>
   fst (fs_rdma_connect (\<lambda>_ _. resp0) None 1 fs_init) = Stop (Faulted Null_Deref)"
  using connect_ignores_failed_create [of "\<lambda>_ _. resp0" fs_init None 1] by (simp add: resp0_def)

end
