(* ===== verification/Endpoints.thy ===== *)
theory Endpoints
  imports Rdma_Context Relocation
begin

text \<open>
  The two ends of a connection of \<open>src/src/c/transport.c\<close> meet: what \<open>fs_rdma_listen\<close> binds and what
  \<open>fs_rdma_connect\<close> resolves, when both processes have the same configured port.
\<close>

section \<open>Byte order\<close>

lemma htons_htons [simp]: "htons (htons p) = p"
proof (rule bit_word_eqI)
  fix n
  assume "n < LENGTH(16)"
  then show "bit (htons (htons p)) n = bit p n"
    by (auto simp: htons_def bit_simps)
qed

lemma port_roundtrip:
  "0 \<le> p \<Longrightarrow> p < 2 ^ 16 \<Longrightarrow> uint (htons (sin_port (with_config_port sa p))) = p"
  by (simp add: with_config_port_def uint_word_of_int)

lemma with_config_port_addr [simp]:
  "sin_family (with_config_port sa p) = sin_family sa" "sin_addr (with_config_port sa p) = sin_addr sa"
  by (simp_all add: with_config_port_def)

section \<open>The two openers\<close>

text \<open>A successful \<open>fs_rdma_listen\<close>: its calls, for the answer \<open>a\<close> of the resolver.\<close>

lemma listen_calls:
  assumes "fs_rdma_listen env ip p s = (Ret 0, t)"
  shows "\<exists>i a. map_option rc_cm_id (rdma_ctx t) = Some i \<and>
    a = env (calls s) (Getaddrinfo ip p server_hints) \<and> r_int a = 0 \<and>
    (Getaddrinfo ip p server_hints, a) \<in> set (since s t) \<and>
    made s t [Getaddrinfo ip p server_hints, Freeaddrinfo,
      Rdma_bind_addr i (with_config_port (r_sock a) (cf_port (config s))), Rdma_listen i 0]"
proof -
  have "wp (fs_rdma_listen env ip p) (\<lambda>r t. r = Ret 0 \<longrightarrow> (\<exists>i a.
      map_option rc_cm_id (rdma_ctx t) = Some i \<and> a = env (calls s) (Getaddrinfo ip p server_hints) \<and> r_int a = 0 \<and>
      (Getaddrinfo ip p server_hints, a) \<in> set (since s t) \<and>
      made s t [Getaddrinfo ip p server_hints, Freeaddrinfo,
        Rdma_bind_addr i (with_config_port (r_sock a) (cf_port (config s))), Rdma_listen i 0])) s"
    unfolding fs_rdma_listen_def
    by (auto simp: wp_simps wp_ctx wp_ext_eq made_def since_def split: option.split intro!: wp_calls)
  then show ?thesis using assms by (simp add: wp_def)
qed

text \<open>A successful \<open>fs_rdma_connect\<close>, from the state in which its context was created.\<close>

lemma connect_calls:
  assumes "fs_rdma_connect env ip p s = (Ret 0, t)"
  shows "\<exists>u i a. u = snd (fs_rdma_create_ctx env s) \<and> config u = config s \<and>
    map_option rc_cm_id (rdma_ctx t) = Some i \<and>
    a = env (calls u) (Getaddrinfo ip p client_hints) \<and> r_int a = 0 \<and>
    (Getaddrinfo ip p client_hints, a) \<in> set (since u t) \<and>
    made u t [Getaddrinfo ip p client_hints, Freeaddrinfo,
      Rdma_resolve_addr i (with_config_port (r_sock a) (cf_port (config s))) TIMEOUT_IN_MS]"
proof -
  have keeps: "wp (fs_rdma_create_ctx env) (\<lambda>_ u. config u = config s) s"
    unfolding fs_rdma_create_ctx_def ALLOCATE_def
    by (auto simp: wp_simps wp_ctx intro!: wp_calls)
  obtain r u where run: "fs_rdma_create_ctx env s = (r, u)" by fastforce
  with wpD [OF keeps] have config: "config u = config s" by blast
  have "wp (fs_rdma_connect env ip p) (\<lambda>r t. r = Ret 0 \<longrightarrow> (\<exists>i a.
      map_option rc_cm_id (rdma_ctx t) = Some i \<and> a = env (calls u) (Getaddrinfo ip p client_hints) \<and> r_int a = 0 \<and>
      (Getaddrinfo ip p client_hints, a) \<in> set (since u t) \<and>
      made u t [Getaddrinfo ip p client_hints, Freeaddrinfo,
        Rdma_resolve_addr i (with_config_port (r_sock a) (cf_port (config s))) TIMEOUT_IN_MS])) s"
    unfolding fs_rdma_connect_def wp_bind [of "fs_rdma_create_ctx env"]
    unfolding wp_def [of "fs_rdma_create_ctx env"] run prod.case
    by (cases r) (auto simp: wp_simps wp_ctx wp_ext_eq made_def since_def config split: option.split intro!: wp_calls)
  then show ?thesis using assms run config by (simp add: wp_def)
qed

text \<open>C28: the two ends meet.  When \<open>fs_rdma_listen\<close> and \<open>fs_rdma_connect\<close> both succeed under the same
  configured port, the server binds its identifier to an address and then listens on it, and the
  client resolves one for its identifier, with the same port in network order, whatever \<open>port\<close> arguments they were called with; read back
  in host order it is the configured port, and if the resolvers answer the same host address, the
  client resolves exactly the address the server has bound.\<close>

theorem endpoints_agree:
  assumes "fs_rdma_listen env ip p s = (Ret 0, t)" and "fs_rdma_connect env' ip' p' s' = (Ret 0, t')"
    and "cf_port (config s') = cf_port (config s)" and "0 \<le> cf_port (config s)" "cf_port (config s) < 2 ^ 16"
  shows "\<exists>i i' a a' sa sa'.
    map_option rc_cm_id (rdma_ctx t) = Some i \<and> map_option rc_cm_id (rdma_ctx t') = Some i' \<and>
    made s t [Getaddrinfo ip p server_hints, Freeaddrinfo, Rdma_bind_addr i sa, Rdma_listen i 0] \<and>
    made (snd (fs_rdma_create_ctx env' s')) t'
      [Getaddrinfo ip' p' client_hints, Freeaddrinfo, Rdma_resolve_addr i' sa' TIMEOUT_IN_MS] \<and>
    r_int a = 0 \<and> (Getaddrinfo ip p server_hints, a) \<in> set (since s t) \<and> sin_addr sa = sin_addr (r_sock a) \<and>
    r_int a' = 0 \<and> (Getaddrinfo ip' p' client_hints, a') \<in> set (since (snd (fs_rdma_create_ctx env' s')) t') \<and>
    sin_addr sa' = sin_addr (r_sock a') \<and>
    sin_port sa = sin_port sa' \<and> uint (htons (sin_port sa)) = cf_port (config s) \<and>
    (r_sock a = r_sock a' \<longrightarrow> sa = sa')"
proof -
  obtain i a where l: "map_option rc_cm_id (rdma_ctx t) = Some i" "r_int a = 0" "(Getaddrinfo ip p server_hints, a) \<in> set (since s t)"
    "made s t [Getaddrinfo ip p server_hints, Freeaddrinfo,
      Rdma_bind_addr i (with_config_port (r_sock a) (cf_port (config s))), Rdma_listen i 0]"
    using listen_calls [OF assms(1)] by blast
  obtain i' a' where c: "map_option rc_cm_id (rdma_ctx t') = Some i'" "r_int a' = 0" "(Getaddrinfo ip' p' client_hints, a') \<in> set (since (snd (fs_rdma_create_ctx env' s')) t')"
    "made (snd (fs_rdma_create_ctx env' s')) t' [Getaddrinfo ip' p' client_hints, Freeaddrinfo,
      Rdma_resolve_addr i' (with_config_port (r_sock a') (cf_port (config s))) TIMEOUT_IN_MS]"
    using connect_calls [OF assms(2)] assms(3) by auto
  have port: "sin_port (with_config_port x (cf_port (config s))) = sin_port (with_config_port y (cf_port (config s)))"
    for x y by (simp add: with_config_port_def)
  show ?thesis
    by (intro exI conjI) (rule l(1), rule c(1), rule l(4), rule c(4), rule l(2), rule l(3), simp, rule c(2), rule c(3), simp,
      rule port, rule port_roundtrip [OF assms(4,5)], simp)
qed

lemma made_in: "made s t xs \<Longrightarrow> x \<in> set xs \<Longrightarrow> x \<in> fst ` set (calls t)"
  by (metis made_def Un_iff set_append set_map)

theorem endpoints_agree_witness:
  "\<exists>t t'. fs_rdma_listen good_host None 1 (fs_init\<lparr>rdma_ctx := Some (malloc_ctx (\<lambda>_. 3))\<rparr>) = (Ret 0, t) \<and>
     fs_rdma_connect good_host (Some ''10.0.0.1'') 2 fs_init = (Ret 0, t') \<and>
     (\<exists>sa sa' i i'. Rdma_bind_addr i sa \<in> fst ` set (calls t) \<and>
        Rdma_resolve_addr i' sa' TIMEOUT_IN_MS \<in> fst ` set (calls t') \<and>
        sin_port sa = sin_port sa' \<and> uint (htons (sin_port sa)) = 19875)"
proof -
  let ?s = "fs_init\<lparr>rdma_ctx := Some (malloc_ctx (\<lambda>_. 3))\<rparr>"
  have "fst (fs_rdma_listen good_host None 1 ?s) = Ret 0"
    by (simp add: fs_rdma_listen_def cmd_defs good_host_def resp0_def Let_def)
  then obtain t where t: "fs_rdma_listen good_host None 1 ?s = (Ret 0, t)" by (metis prod.collapse)
  have "fst (fs_rdma_connect good_host (Some ''10.0.0.1'') 2 fs_init) = Ret 0"
    by (simp add: fs_rdma_connect_def fs_rdma_create_ctx_def ALLOCATE_def cmd_defs good_host_def resp0_def
        fs_init_def Let_def)
  then obtain t' where t': "fs_rdma_connect good_host (Some ''10.0.0.1'') 2 fs_init = (Ret 0, t')"
    by (metis prod.collapse)
  have port: "cf_port (config fs_init) = 19875" "cf_port (config ?s) = 19875"
    by (simp_all add: fs_init_def param_def)
  have ends: "\<exists>i i' sa sa'.
      made ?s t [Getaddrinfo None 1 server_hints, Freeaddrinfo, Rdma_bind_addr i sa, Rdma_listen i 0] \<and>
      made (snd (fs_rdma_create_ctx good_host fs_init)) t'
        [Getaddrinfo (Some ''10.0.0.1'') 2 client_hints, Freeaddrinfo, Rdma_resolve_addr i' sa' TIMEOUT_IN_MS] \<and>
      sin_port sa = sin_port sa' \<and> uint (htons (sin_port sa)) = 19875"
    using endpoints_agree [OF t t', unfolded port] by simp blast
  then obtain i i' sa sa' where
    "made ?s t [Getaddrinfo None 1 server_hints, Freeaddrinfo, Rdma_bind_addr i sa, Rdma_listen i 0]"
    "made (snd (fs_rdma_create_ctx good_host fs_init)) t'
      [Getaddrinfo (Some ''10.0.0.1'') 2 client_hints, Freeaddrinfo, Rdma_resolve_addr i' sa' TIMEOUT_IN_MS]"
    "sin_port sa = sin_port sa'" "uint (htons (sin_port sa)) = 19875"
    by blast
  then have "Rdma_bind_addr i sa \<in> fst ` set (calls t)" "Rdma_resolve_addr i' sa' TIMEOUT_IN_MS \<in> fst ` set (calls t')"
    by (auto intro!: made_in)
  with t t' \<open>sin_port sa = sin_port sa'\<close> \<open>uint (htons (sin_port sa)) = 19875\<close> show ?thesis by blast
qed

end
