(* ===== verification/Event_Loop.thy ===== *)
theory Event_Loop
  imports Extern
begin

text \<open>
  The shape both event loops of the repository have (\<open>fs_rdma_cm_event_handler\<close> of
  \<open>src/src/c/transport.c\<close>, \<open>gf_rdma_cm_event_handler\<close> of \<open>src/src/Transport.cc\<close>): a
  \<open>while (1)\<close> over a turn that gets an event, handles and acknowledges it.  The loop is given
  fuel; the relation \<open>turns\<close> counts completed turns, and the locale \<open>ack_loop\<close> states the
  contract of one turn from which the accounting of events over the whole loop follows.
\<close>

section \<open>Loops without end\<close>

text \<open>A turn answers \<open>Some e\<close> to go on with the loop variable \<open>e\<close> and \<open>None\<close> to \<open>break\<close>.\<close>

fun forever :: "nat \<Rightarrow> ('e \<Rightarrow> ('s, 'e option) cmd) \<Rightarrow> 'e \<Rightarrow> ('s, unit) cmd" where
  "forever 0 turn e s = (Stop Out_Of_Fuel, s)"
| "forever (Suc n) turn e s =
     (case turn e s of
        (Ret (Some e'), t) \<Rightarrow> forever n turn e' t
      | (Ret None, t) \<Rightarrow> (Ret (), t)
      | (Stop x, t) \<Rightarrow> (Stop x, t))"

inductive turns :: "('e \<Rightarrow> ('s, 'e option) cmd) \<Rightarrow> nat \<Rightarrow> 'e \<Rightarrow> 's \<Rightarrow> 'e \<Rightarrow> 's \<Rightarrow> bool"
  for turn where
  turns_start: "turns turn 0 e s e s"
| turns_next: "turn e s = (Ret (Some e'), t) \<Longrightarrow> turns turn n e' t e'' u \<Longrightarrow>
    turns turn (Suc n) e s e'' u"

inductive_cases turns_0E: "turns turn 0 e s e' t"
inductive_cases turns_SucE: "turns turn (Suc n) e s e'' u"
inductive_simps turns_0_iff [simp]: "turns turn 0 e s e' t"

text \<open>How a loop with fuel \<open>n\<close> ends: after \<open>k\<close> full turns it is out of fuel, breaks, or stops
  with what stopped the next turn.\<close>

inductive loop_end :: "('e \<Rightarrow> ('s, 'e option) cmd) \<Rightarrow> nat \<Rightarrow> 'e \<Rightarrow> 's \<Rightarrow> unit outcome \<Rightarrow> 's \<Rightarrow> bool"
  for turn where
  no_fuel: "loop_end turn 0 e s (Stop Out_Of_Fuel) s"
| broken: "turn e s = (Ret None, t) \<Longrightarrow> loop_end turn (Suc n) e s (Ret ()) t"
| stopped: "turn e s = (Stop x, t) \<Longrightarrow> loop_end turn (Suc n) e s (Stop x) t"

lemma forever_end:
  "forever n turn e s = (r, t) \<Longrightarrow>
     \<exists>k e' u. k \<le> n \<and> turns turn k e s e' u \<and> loop_end turn (n - k) e' u r t"
proof (induction n turn e s rule: forever.induct)
  case (1 turn e s)
  then show ?case by (auto intro: no_fuel)
next
  case (2 n turn e s)
  obtain a v where av: "turn e s = (a, v)" by fastforce
  consider e' where "a = Ret (Some e')" | "a = Ret None" | x where "a = Stop x"
    by (metis outcome.exhaust option.exhaust)
  then show ?case
  proof cases
    case 1
    with "2.prems" av have "forever n turn e' v = (r, t)" by simp
    with "2.IH" [OF av [symmetric] 1 refl] obtain k e'' u where k: "k \<le> n"
      "turns turn k e' v e'' u" "loop_end turn (n - k) e'' u r t"
      by blast
    have "turns turn (Suc k) e s e'' u"
      using av 1 k(2) by (auto intro: turns_next)
    with k show ?thesis by (intro exI [of _ "Suc k"] exI [of _ e''] exI [of _ u]) simp
  next
    case 2
    with "2.prems" av have "loop_end turn (Suc n - 0) e s r t" by (auto intro: broken)
    then show ?thesis by (intro exI [of _ 0] exI [of _ e] exI [of _ s]) simp
  next
    case 3
    with "2.prems" av have "loop_end turn (Suc n - 0) e s r t" by (auto intro: stopped)
    then show ?thesis by (intro exI [of _ 0] exI [of _ e] exI [of _ s]) simp
  qed
qed

text \<open>Completed turns can be split off the front of a run.\<close>

lemma forever_after_turns:
  "turns turn n e s e' u \<Longrightarrow> forever (n + m) turn e s = forever m turn e' u"
  by (induction rule: turns.induct) simp_all

text \<open>Invariants of a loop: kept by every turn, so true after any number of them.\<close>

lemma turns_invariant:
  assumes "turns turn n e s e' t" and "I s"
    and "\<And>e s e' t. I s \<Longrightarrow> turn e s = (Ret (Some e'), t) \<Longrightarrow> I t"
  shows "I t"
  using assms by (induction rule: turns.induct) auto

section \<open>The contract of a turn\<close>

text \<open>\<open>got s\<close> and \<open>acked s\<close> are the events delivered and acknowledged so far, in order.  Every turn
  asks for one event; when it completes it has acknowledged that one and no other.\<close>

locale ack_loop =
  fixes turn :: "'e \<Rightarrow> ('s, 'e option) cmd" and got acked :: "'s \<Rightarrow> 'a list"
  assumes turn_acks: "turn e s = (Ret (Some e'), t) \<Longrightarrow>
      \<exists>a. got t = got s @ [a] \<and> acked t = acked s @ [a]"
    and turn_asks: "turn e s = (r, t) \<Longrightarrow>
      \<exists>a. got t = got s @ [a] \<and> acked t \<in> {acked s, acked s @ [a]}"
begin

lemma turns_acks:
  "turns turn n e s e' t \<Longrightarrow> \<exists>as. length as = n \<and> got t = got s @ as \<and> acked t = acked s @ as"
proof (induction rule: turns.induct)
  case (turns_next e s e' t n e'' u)
  obtain a where "got t = got s @ [a]" "acked t = acked s @ [a]" using turn_acks [OF turns_next.hyps(1)] by blast
  with turns_next.IH show ?case by (metis append.assoc append_Cons append_Nil length_Cons)
qed simp

lemma turns_counts:
  "turns turn n e s e' t \<Longrightarrow>
     length (got t) = length (got s) + n \<and> length (acked t) = length (acked s) + n"
  using turns_acks by fastforce

text \<open>However the loop ends, the events were acknowledged in the order of their delivery, each once,
  and at most the last one is open.\<close>

lemma forever_accounts:
  assumes "forever n turn e s = (r, t)"
  shows "\<exists>as bs. got t = got s @ as @ bs \<and> acked t = acked s @ as \<and> length bs \<le> 1"
proof -
  obtain k e' u where k: "turns turn k e s e' u" "loop_end turn (n - k) e' u r t"
    using forever_end [OF assms] by blast
  obtain as where as: "got u = got s @ as" "acked u = acked s @ as" using turns_acks [OF k(1)] by blast
  have one: ?thesis if last: "turn e' u = (r', t)" for r'
  proof -
    obtain a where a: "got t = got u @ [a]" and "acked t = acked u \<or> acked t = acked u @ [a]"
      using turn_asks [OF last] by blast
    then show ?thesis
    proof (elim disjE)
      assume "acked t = acked u"
      with a as show ?thesis by (intro exI [of _ as] exI [of _ "[a]"]) simp
    next
      assume "acked t = acked u @ [a]"
      with a as show ?thesis by (intro exI [of _ "as @ [a]"] exI [of _ "[]"]) simp
    qed
  qed
  from k(2) show ?thesis
  proof cases
    case no_fuel
    with as show ?thesis by (intro exI [of _ as] exI [of _ "[]"]) simp
  qed (use one in blast)+
qed

text \<open>Out of fuel means that many turns were completed and every event acknowledged.\<close>

lemma forever_balanced:
  assumes "forever n turn e s = (Stop Out_Of_Fuel, t)"
    and no_inner: "\<And>e s t. turn e s \<noteq> (Stop Out_Of_Fuel, t)"
  shows "\<exists>as. length as = n \<and> got t = got s @ as \<and> acked t = acked s @ as"
proof -
  obtain k e' u where k: "k \<le> n" "turns turn k e s e' u" "loop_end turn (n - k) e' u (Stop Out_Of_Fuel) t"
    using forever_end [OF assms(1)] by blast
  from k(3) show ?thesis
    by cases (use turns_acks [OF k(2)] k(1) no_inner in auto)
qed

end

end
