(* ===== verification/Device_Lookup.thy ===== *)
theory Device_Lookup
  imports Verbs
begin

text \<open>
  Device discovery: \<open>fs_rdma_find_dev\<close> of \<open>src/src/c/transport.c\<close>, the member function
  \<open>Find\<close> of \<open>src/src/Device.h\<close>, and the device listing program \<open>src/src/c/device.c\<close>.
  The two lookups share one contract, the locale \<open>device_finder\<close>, and both are interpreted.

  \<open>Device.h\<close> spells its members with and without the trailing underscore (\<open>dev_list\<close>,
  \<open>ib_dev\<close>); both spellings are read as the member.  What is only printed (\<open>fprintf\<close>) is
  not modelled; the calls made to obtain it are.
\<close>

section \<open>Reading a device list\<close>

text \<open>\<open>ibv_get_device_list\<close> returns a NULL-terminated array (\<open>r_ptr\<close> its base, \<open>r_list\<close> its
  elements) and writes the number of devices through its argument (\<open>r_out\<close>).\<close>

definition dev_at :: "addr list \<Rightarrow> int \<Rightarrow> ('s, addr) cmd" where
  "dev_at devs i =
     (if 0 \<le> i \<and> i < int (length devs) then retM (devs ! nat i)
      else if i = int (length devs) then retM NULL
      else stopM (Faulted Out_Of_Bounds))"

text \<open>\<open>ibv_get_device_name\<close> used as a string: a null result cannot be compared or copied.\<close>

definition device_name :: "vcall env \<Rightarrow> addr \<Rightarrow> ((vcall, 'z) world_scheme, string) cmd" where
  "device_name env d = bindM (ext env (Ibv_get_device_name d))
     (\<lambda>r. case r_str r of None \<Rightarrow> stopM (Faulted Null_Deref) | Some n \<Rightarrow> retM n)"

declare dev_at_def [cmd_defs] device_name_def [cmd_defs]

section \<open>The lookup of transport.c\<close>

text \<open>The loop \<open>for (; (ib_dev = *dev_list); ++dev_list) if (!strcmp(...)) break;\<close>.\<close>

fun scan_devices :: "vcall env \<Rightarrow> string \<Rightarrow> addr list \<Rightarrow> ((vcall, 'z) world_scheme, addr) cmd" where
  "scan_devices env n [] = retM NULL"
| "scan_devices env n (d # ds) =
     (if d = NULL then retM NULL
      else bindM (device_name env d) (\<lambda>m. if m = n then retM d else scan_devices env n ds))"

definition fs_rdma_find_dev ::
    "vcall env \<Rightarrow> string option \<Rightarrow> ((vcall, 'z) world_scheme, addr) cmd" where
  "fs_rdma_find_dev env ib_devname =
     bindM (ext env Ibv_get_device_list) (\<lambda>r.
       if r_ptr r = NULL then retM NULL
       else if r_out r \<le> 0 then retM NULL
       else case ib_devname of
         None \<Rightarrow>
           bindM (dev_at (r_list r) 0) (\<lambda>ib_dev.
             if ib_dev = NULL then retM NULL
             else bindM (device_name env ib_dev) (\<lambda>_.
               thenM (call_void env (Strdup ib_dev)) (retM ib_dev)))
       | Some n \<Rightarrow> scan_devices env n (r_list r))"

section \<open>The lookup of Device.h\<close>

record device_state = "vcall world" +
  dv_num_of_device :: int
  dv_dev_list :: "addr list option"     \<comment> \<open>what \<open>dv_dev_list\<close> points to; \<open>None\<close> is a null pointer\<close>
  dv_ib_dev :: addr

text \<open>The same loop over the members: it leaves \<open>dv_dev_list\<close> at the element it stopped at.\<close>

fun Find_scan :: "vcall env \<Rightarrow> string \<Rightarrow> addr list \<Rightarrow> (device_state, unit) cmd" where
  "Find_scan env n [] = modifyM (\<lambda>s. s\<lparr>dv_dev_list := Some [], dv_ib_dev := NULL\<rparr>)"
| "Find_scan env n (d # ds) =
     thenM (modifyM (\<lambda>s. s\<lparr>dv_dev_list := Some (d # ds), dv_ib_dev := d\<rparr>))
       (if d = NULL then retM ()
        else bindM (device_name env d) (\<lambda>m. if m = n then retM () else Find_scan env n ds))"

definition Find :: "vcall env \<Rightarrow> string option \<Rightarrow> (device_state, addr) cmd" where
  "Find env ib_dev_name =
     bindM (ext env Ibv_get_device_list) (\<lambda>r.
     thenM (modifyM (\<lambda>s. s\<lparr>dv_num_of_device := r_out r,
       dv_dev_list := (if r_ptr r = NULL then None else Some (r_list r))\<rparr>))
     (if r_out r \<le> 0 then retM NULL
      else if r_ptr r = NULL then stopM (Faulted Null_Deref)
      else case ib_dev_name of
        None \<Rightarrow>
          bindM (dev_at (r_list r) 0) (\<lambda>d.
          thenM (modifyM (\<lambda>s. s\<lparr>dv_ib_dev := d\<rparr>))
            (if d = NULL then stopM (Exited 1) else getM dv_ib_dev))
      | Some n \<Rightarrow> thenM (Find_scan env n (r_list r)) (getM dv_ib_dev)))"

section \<open>The contract of a device lookup\<close>

text \<open>
  Documented behaviour of libibverbs: the list call answers the machine's devices, none of
  them null, and every listed device has a name, the same at every call.
\<close>

definition device_env :: "vcall env \<Rightarrow> addr list \<Rightarrow> (addr \<Rightarrow> string) \<Rightarrow> bool" where
  "device_env env devs name \<longleftrightarrow> NULL \<notin> set devs \<and>
     (\<forall>tr. r_ptr (env tr Ibv_get_device_list) \<noteq> NULL \<and>
        r_list (env tr Ibv_get_device_list) = devs \<and>
        r_out (env tr Ibv_get_device_list) = int (length devs)) \<and>
     (\<forall>tr. \<forall>d \<in> set devs. r_str (env tr (Ibv_get_device_name d)) = Some (name d))"

text \<open>The specification: the first device, or the first with the requested name.\<close>

definition lookup_spec :: "addr list \<Rightarrow> (addr \<Rightarrow> string) \<Rightarrow> string option \<Rightarrow> addr" where
  "lookup_spec devs name q =
     (case find (\<lambda>d. case q of None \<Rightarrow> True | Some n \<Rightarrow> name d = n) devs of
        None \<Rightarrow> NULL | Some d \<Rightarrow> d)"

locale device_finder =
  fixes find_dev :: "vcall env \<Rightarrow> string option \<Rightarrow> ('s, addr) cmd"
  assumes find_dev_spec:
    "device_env env devs name \<Longrightarrow> fst (find_dev env q s) = Ret (lookup_spec devs name q)"
begin

lemma found_is_listed:
  assumes "device_env env devs name" and "fst (find_dev env q s) = Ret d" and "d \<noteq> NULL"
  shows "d \<in> set devs"
  using assms find_dev_spec [OF assms(1)]
  by (auto simp: lookup_spec_def find_Some_iff split: option.splits)

lemma found_has_name:
  assumes "device_env env devs name" and "fst (find_dev env (Some n) s) = Ret d" and "d \<noteq> NULL"
  shows "name d = n"
  using assms find_dev_spec [OF assms(1)]
  by (auto simp: lookup_spec_def find_Some_iff split: option.splits)

lemma missing_iff:
  assumes "device_env env devs name"
  shows "fst (find_dev env (Some n) s) = Ret NULL \<longleftrightarrow> n \<notin> name ` set devs"
  using assms find_dev_spec [OF assms]
  by (auto simp: lookup_spec_def device_env_def find_None_iff find_Some_iff dest: nth_mem
      split: option.splits)

lemma named_is_first:
  assumes "device_env env devs name" and "n \<in> name ` set devs"
  shows "\<exists>i<length devs. fst (find_dev env (Some n) s) = Ret (devs ! i) \<and> name (devs ! i) = n \<and>
    (\<forall>j<i. name (devs ! j) \<noteq> n)"
  using assms(2) find_dev_spec [OF assms(1)]
  by (auto simp: lookup_spec_def find_None_iff find_Some_iff split: option.splits)

lemma default_is_first:
  assumes "device_env env (d # ds) name"
  shows "fst (find_dev env None s) = Ret d"
  using find_dev_spec [OF assms] by (simp add: lookup_spec_def)

end

section \<open>Both lookups satisfy it\<close>

lemma device_envD:
  assumes "device_env env devs name"
  shows "NULL \<notin> set devs" and "r_ptr (env tr Ibv_get_device_list) \<noteq> NULL"
    and "r_list (env tr Ibv_get_device_list) = devs"
    and "r_out (env tr Ibv_get_device_list) = int (length devs)"
    and "d \<in> set devs \<Longrightarrow> r_str (env tr (Ibv_get_device_name d)) = Some (name d)"
  using assms by (auto simp: device_env_def)

lemma wp_device_name:
  "wp (device_name env d) Q s =
     (case r_str (env (calls s) (Ibv_get_device_name d)) of
        None \<Rightarrow> Q (Stop (Faulted Null_Deref))
          (s\<lparr>calls := calls s @ [(Ibv_get_device_name d, env (calls s) (Ibv_get_device_name d))]\<rparr>)
      | Some n \<Rightarrow> Q (Ret n)
          (s\<lparr>calls := calls s @ [(Ibv_get_device_name d, env (calls s) (Ibv_get_device_name d))]\<rparr>))"
  by (simp add: device_name_def wp_bind wp_ext_eq split: option.splits)

lemma scan_devices_spec:
  assumes "\<And>tr d. d \<in> set ds \<Longrightarrow> r_str (env tr (Ibv_get_device_name d)) = Some (name d)"
    and "NULL \<notin> set ds"
  shows "wp (scan_devices env n ds) (\<lambda>r _. r = Ret (lookup_spec ds name (Some n))) s"
  using assms
  by (induction ds arbitrary: s) (auto simp: lookup_spec_def wp_simps wp_device_name)

lemma Find_scan_spec:
  assumes "\<And>tr d. d \<in> set ds \<Longrightarrow> r_str (env tr (Ibv_get_device_name d)) = Some (name d)"
    and "NULL \<notin> set ds"
  shows "wp (Find_scan env n ds)
    (\<lambda>r t. r = Ret () \<and> dv_ib_dev t = lookup_spec ds name (Some n) \<and>
       (\<exists>k. dv_dev_list t = Some (drop k ds) \<and> (drop k ds = [] \<or> hd (drop k ds) = dv_ib_dev t))) s"
  using assms
proof (induction ds arbitrary: s)
  case Nil
  then show ?case by (simp add: lookup_spec_def)
next
  case (Cons d ds)
  show ?case
  proof (cases "name d = n")
    case True
    with Cons.prems show ?thesis
      by (auto simp: wp_simps wp_device_name lookup_spec_def intro!: exI [of _ 0])
  next
    case False
    have "lookup_spec (d # ds) name (Some n) = lookup_spec ds name (Some n)"
      using False by (simp add: lookup_spec_def)
    moreover have "\<exists>j. drop k ds = drop j (d # ds)" for k
      by (rule exI [of _ "Suc k"]) simp
    ultimately show ?thesis
      using False Cons.prems
      by (auto simp: wp_simps wp_device_name intro!: wp_mono [OF Cons.IH])
        (metis drop_Suc_Cons)+
  qed
qed

lemma fs_rdma_find_dev_lookup:
  assumes "device_env env devs name"
  shows "fst (fs_rdma_find_dev env q s) = Ret (lookup_spec devs name q)"
proof -
  note e = device_envD [OF assms]
  have "wp (fs_rdma_find_dev env q) (\<lambda>r _. r = Ret (lookup_spec devs name q)) s"
  proof (cases q)
    case None
    with e show ?thesis
      by (cases devs)
        (auto simp: fs_rdma_find_dev_def wp_simps wp_calls_eq dev_at_def wp_device_name
          lookup_spec_def)
  next
    case (Some n)
    show ?thesis
      using e(1) Some
      by (cases "devs = []")
        (auto simp: fs_rdma_find_dev_def wp_simps wp_calls_eq lookup_spec_def e(2-5)
          intro!: wp_mono [OF scan_devices_spec [where name = name]])
  qed
  then show ?thesis by (simp add: wp_def)
qed

lemma Find_lookup:
  assumes "device_env env devs name"
  shows "fst (Find env q s) = Ret (lookup_spec devs name q)"
proof -
  note e = device_envD [OF assms]
  have "wp (Find env q) (\<lambda>r _. r = Ret (lookup_spec devs name q)) s"
  proof (cases q)
    case None
    with e show ?thesis
      by (cases devs) (auto simp: Find_def wp_simps wp_calls_eq dev_at_def lookup_spec_def)
  next
    case (Some n)
    show ?thesis
      using e(1) Some
      by (cases "devs = []")
        (auto simp: Find_def wp_simps wp_calls_eq lookup_spec_def e(2-5)
          intro!: wp_mono [OF Find_scan_spec [where name = name]])
  qed
  then show ?thesis by (simp add: wp_def)
qed

interpretation fs_finder: device_finder fs_rdma_find_dev
  by unfold_locales (rule fs_rdma_find_dev_lookup)

interpretation class_finder: device_finder Find
  by unfold_locales (rule Find_lookup)

section \<open>The device listing program\<close>

text \<open>One turn of the loop of \<open>hrd_ibv_devinfo\<close>; the macro \<open>CPE\<close> exits with its third
  argument, which is 0 at both uses.\<close>

definition devinfo_body ::
    "vcall env \<Rightarrow> addr list \<Rightarrow> int \<Rightarrow> ((vcall, 'z) world_scheme, unit option) cmd" where
  "devinfo_body env devs dev_i =
     bindM (dev_at devs dev_i) (\<lambda>d.
     bindM (call_ptr env (Ibv_open_device d)) (\<lambda>ctx.
     if ctx = NULL then stopM (Exited 0)
     else bindM (call_int env (Ibv_query_device ctx)) (\<lambda>q.
     if q \<noteq> 0 then stopM (Exited (- 1))
     else if d = NULL then stopM (Faulted Null_Deref)
     else thenM (call_void env (Ibv_get_device_guid d))
         (thenM (call_void env (Ibv_close_device ctx)) (retM None)))))"

definition hrd_ibv_devinfo :: "vcall env \<Rightarrow> ((vcall, 'z) world_scheme, unit) cmd" where
  "hrd_ibv_devinfo env =
     bindM (ext env Ibv_get_device_list) (\<lambda>r.
     if r_ptr r = NULL then stopM (Exited 0)
     else thenM (for_loop 0 (r_out r) (devinfo_body env (r_list r)))
       (call_void env (Ibv_free_device_list (r_ptr r))))"

definition devinfo_main :: "vcall env \<Rightarrow> ((vcall, 'z) world_scheme, int) cmd" where
  "devinfo_main env = thenM (hrd_ibv_devinfo env) (retM 0)"

text \<open>The specification: for each device and the context opened on it, the four calls of one
  turn, the context closed before the next is opened.\<close>

definition session_calls :: "(addr \<times> addr) list \<Rightarrow> vcall list" where
  "session_calls ps = concat (map (\<lambda>(d, c).
     [Ibv_open_device d, Ibv_query_device c, Ibv_get_device_guid d, Ibv_close_device c]) ps)"

lemma session_calls_snoc:
  "session_calls (ps @ [(d, c)]) = session_calls ps @
     [Ibv_open_device d, Ibv_query_device c, Ibv_get_device_guid d, Ibv_close_device c]"
  by (simp add: session_calls_def)

definition devinfo_inv :: "addr list \<Rightarrow> vcall list \<Rightarrow> int \<Rightarrow> (vcall, 'z) world_scheme \<Rightarrow> bool" where
  "devinfo_inv devs h k t \<longleftrightarrow> (\<exists>ps. map fst (calls t) = h @ session_calls ps \<and>
     map fst ps = take (nat k) devs \<and> length ps = nat k \<and> NULL \<notin> snd ` set ps)"

lemma devinfo_body_inv:
  assumes "0 \<le> k" and inv: "devinfo_inv devs h k t"
  shows "wp (devinfo_body env devs k)
    (loop_post (devinfo_inv devs h (k + 1)) (\<lambda>r _. \<exists>e. r = Stop e)) t"
proof -
  obtain ps where ps: "map fst (calls t) = h @ session_calls ps" "map fst ps = take (nat k) devs"
    "length ps = nat k" "NULL \<notin> snd ` set ps"
    using inv by (auto simp: devinfo_inv_def)
  have turn: "devinfo_inv devs h (k + 1) (t\<lparr>calls := calls t @
      [(Ibv_open_device (devs ! nat k), r), (Ibv_query_device (r_ptr r), r2),
       (Ibv_get_device_guid (devs ! nat k), r3), (Ibv_close_device (r_ptr r), r4)]\<rparr>)"
    if "k < int (length devs)" "0 < r_ptr r" for r r2 r3 r4
    using that ps assms(1) unfolding devinfo_inv_def
    by (intro exI [of _ "ps @ [(devs ! nat k, r_ptr r)]"])
      (simp add: session_calls_snoc nat_add_distrib take_Suc_conv_app_nth nat_less_iff)
  show ?thesis
    unfolding devinfo_body_def dev_at_def
    by (auto simp: wp_simps assms(1) intro!: wp_calls turn)
qed

lemma devinfo_loop_inv:
  assumes "devinfo_inv devs h 0 t"
  shows "wp (for_loop 0 n (devinfo_body env devs))
    (\<lambda>r u. r = Ret None \<and> devinfo_inv devs h (max 0 n) u \<or> (\<exists>e. r = Stop e)) t"
proof (rule wp_for_loop [where I = "devinfo_inv devs h"])
  fix k u
  assume "0 \<le> k" "devinfo_inv devs h k u"
  then show "wp (devinfo_body env devs k) (loop_post (devinfo_inv devs h (k + 1))
      (\<lambda>r u. r = Ret None \<and> devinfo_inv devs h (max 0 n) u \<or> (\<exists>e. r = Stop e))) u"
    by (rule devinfo_body_inv [THEN wp_mono]) (erule loop_post_mono; simp)
qed (use assms in auto)

section \<open>Properties\<close>

text \<open>C18: the two device lookups of the repository are equivalent.  On any machine whose device
  list behaves as libibverbs documents, \<open>fs_rdma_find_dev\<close> and \<open>Find\<close> return the same device
  for the same request, by name or for the default one, and neither stops the process.\<close>

theorem lookups_agree:
  assumes "device_env env devs name"
  shows "\<exists>x. fst (fs_rdma_find_dev env q s) = Ret x \<and> fst (Find env q d) = Ret x"
  by (simp add: fs_finder.find_dev_spec [OF assms] class_finder.find_dev_spec [OF assms])

text \<open>C19: a lookup by name in \<open>transport.c\<close> returns the first listed device of that name: the
  device at some index of the list that has the name while no device in front of it does; and it
  returns null exactly when no listed device has the name.\<close>

theorem named_lookup_correct:
  assumes "device_env env devs name"
  shows "(fst (fs_rdma_find_dev env (Some n) s) = Ret NULL \<longleftrightarrow> n \<notin> name ` set devs) \<and>
    (n \<in> name ` set devs \<longrightarrow> (\<exists>i<length devs.
       fst (fs_rdma_find_dev env (Some n) s) = Ret (devs ! i) \<and> name (devs ! i) = n \<and>
       (\<forall>j<i. name (devs ! j) \<noteq> n)))"
  by (intro conjI impI fs_finder.missing_iff [OF assms] fs_finder.named_is_first [OF assms])

text \<open>C20: whenever the device listing returns, it has opened, queried and closed a context for
  each device in turn, never holding two at once, and freed the list once, at the end.\<close>

theorem devinfo_releases_everything:
  assumes run: "hrd_ibv_devinfo env s = (Ret x, t)"
  shows "\<exists>r ps. r = env (calls s) Ibv_get_device_list \<and>
    map fst (calls t) = map fst (calls s) @ Ibv_get_device_list # session_calls ps
      @ [Ibv_free_device_list (r_ptr r)] \<and>
    map fst ps = take (nat (r_out r)) (r_list r) \<and> length ps = nat (r_out r) \<and>
    NULL \<notin> snd ` set ps"
proof -
  let ?h = "map fst (calls s) @ [Ibv_get_device_list]"
  obtain r where r: "env (calls s) Ibv_get_device_list = r" by blast
  have start: "devinfo_inv (r_list r) ?h 0 (s\<lparr>calls := calls s @ [(Ibv_get_device_list, r)]\<rparr>)"
    by (simp add: devinfo_inv_def session_calls_def)
  have "wp (hrd_ibv_devinfo env) (\<lambda>out t. \<forall>x. out = Ret x \<longrightarrow> (\<exists>ps. map fst (calls t) =
      ?h @ session_calls ps @ [Ibv_free_device_list (r_ptr r)] \<and>
      map fst ps = take (nat (r_out r)) (r_list r) \<and> length ps = nat (r_out r) \<and>
      NULL \<notin> snd ` set ps)) s"
    unfolding hrd_ibv_devinfo_def
    by (auto simp: wp_simps wp_calls_eq r intro!: wp_mono [OF devinfo_loop_inv [OF start]])
      (auto simp: wp_calls_eq devinfo_inv_def max_def split: if_splits)
  then show ?thesis using run by (auto simp: wp_def r)
qed

section \<open>A concrete machine\<close>

definition two_devices :: "vcall env" where
  "two_devices tr c = (case c of
       Ibv_get_device_list \<Rightarrow> resp0\<lparr>r_ptr := 100, r_list := [1, 2], r_out := 2\<rparr>
     | Ibv_get_device_name d \<Rightarrow> resp0\<lparr>r_str := Some (if d = 1 then ''mlx4_0'' else ''mlx5_0'')\<rparr>
     | Ibv_open_device d \<Rightarrow> resp0\<lparr>r_ptr := d + 10\<rparr>
     | _ \<Rightarrow> resp0)"

lemma two_devices_env:
  "device_env two_devices [1, 2] (\<lambda>d. if d = 1 then ''mlx4_0'' else ''mlx5_0'')"
  by (simp add: device_env_def two_devices_def)

theorem lookups_agree_witness:
  "device_env two_devices [1, 2] (\<lambda>d. if d = 1 then ''mlx4_0'' else ''mlx5_0'') \<and>
   (\<exists>x. fst (fs_rdma_find_dev two_devices (Some ''mlx5_0'') \<lparr>calls = []\<rparr>) = Ret x \<and>
   fst (Find two_devices (Some ''mlx5_0'')
     \<lparr>calls = [], dv_num_of_device = 0, dv_dev_list = None, dv_ib_dev = 0\<rparr>) = Ret x)"
  using lookups_agree [OF two_devices_env] two_devices_env by blast

theorem named_lookup_correct_witness:
  "device_env two_devices [1, 2] (\<lambda>d. if d = 1 then ''mlx4_0'' else ''mlx5_0'') \<and>
   fst (fs_rdma_find_dev two_devices (Some ''hfi1'') \<lparr>calls = []\<rparr>) = Ret NULL"
  using named_lookup_correct [OF two_devices_env, of "''hfi1''" "\<lparr>calls = []\<rparr>"] two_devices_env
  by simp

lemma two_devices_listing: "fst (hrd_ibv_devinfo two_devices \<lparr>calls = []\<rparr>) = Ret ()"
  by (simp add: hrd_ibv_devinfo_def devinfo_body_def dev_at_def cmd_defs two_devices_def resp0_def
      for_loop.simps Let_def)

theorem devinfo_releases_everything_witness:
  "\<exists>ps. map fst (calls (snd (hrd_ibv_devinfo two_devices \<lparr>calls = []\<rparr>))) =
     Ibv_get_device_list # session_calls ps @ [Ibv_free_device_list 100] \<and> length ps = 2"
proof -
  obtain t where "hrd_ibv_devinfo two_devices \<lparr>calls = []\<rparr> = (Ret (), t)"
    using two_devices_listing by (metis prod.collapse)
  from devinfo_releases_everything [OF this] this show ?thesis
    by (auto simp: two_devices_def)
qed

end
