(* ===== verification/Resources.thy ===== *)
theory Resources
  imports Device_Lookup Rdma_Context
begin

text \<open>
  The resources of one connection in \<open>src/src/c/transport.c\<close>: \<open>fs_rdma_create_resources\<close> with
  its \<open>out:\<close> clean-up and \<open>fs_rdma_teardown\<close>.

  Readings: \<open>ctx\<close> is \<open>rdma_ctx\<close> and \<open>ibvib_dev\<close> is \<open>ib_dev\<close>; \<open>config.ib_port\<close> is read through the pointer;
  \<open>priv->device->context\<close> is the context just opened; \<open>attr.qp_type\<close> is the queue
  pair's \<open>init_attr.qp_type\<close> (the \<open>attr\<close> in scope is the shared receive queue's and has no such
  member); \<open>return NULL\<close> in the function of type \<open>int32_t\<close> returns 0; \<open>i\<close> in the tear-down
  is a local counter.  \<open>cq\<close> and \<open>content\<close> are the undeclared members of \<open>Verbs\<close>.  A part
  of the body answers \<open>Some (Inl v)\<close> for \<open>return v\<close> and \<open>Some (Inr ret)\<close> for \<open>goto out\<close> with
  the value of \<open>ret\<close> there.  Diagnostic output is not modelled.
\<close>

section \<open>Creating the resources\<close>

text \<open>Device, port, protection domain.\<close>

definition open_part :: "vcall env \<Rightarrow> (fs_state, (int + int) option) cmd" where
  "open_part env =
     bindM (fs_rdma_find_dev env None) (\<lambda>ib_dev.
     bindM (call_ptr env (Ibv_open_device ib_dev)) (\<lambda>cx.
     thenM (put_ctx (\<lambda>c. c\<lparr>rc_context := cx\<rparr>))
     (if cx = NULL
      then thenM (call_void env (Ibv_get_device_name ib_dev)) (retM (Some (Inr (- 1))))
      else bindM (cfg cf_ib_port) (\<lambda>p.
        bindM (ext env (Ibv_query_port cx p)) (\<lambda>q.
        thenM (put_ctx (\<lambda>c. c\<lparr>rc_port_attr := r_ptr q\<rparr>))
        (if r_int q \<noteq> 0 then retM (Some (Inr (- 1)))
         else bindM (call_ptr env (Ibv_alloc_pd cx)) (\<lambda>pd.
           thenM (put_ctx (\<lambda>c. c\<lparr>rc_pd := pd\<rparr>))
           (if pd = NULL then retM (Some (Inr (- 1))) else retM None))))))))"

text \<open>The optional completion channel.\<close>

definition channel_part :: "vcall env \<Rightarrow> (fs_state, (int + int) option) cmd" where
  "channel_part env =
     bindM (cfg cf_use_event) (\<lambda>ue.
     if ue \<noteq> 0 then
       bindM (get_ctx rc_context) (\<lambda>cx.
       bindM (call_ptr env (Ibv_create_comp_channel cx)) (\<lambda>ch.
       thenM (put_ctx (\<lambda>c. c\<lparr>rc_channel := ch\<rparr>))
       (if ch = NULL then retM (Some (Inr (- 1))) else retM None)))
     else retM None)"

text \<open>The two completion queues.  After creating the second one the code tests the first.\<close>

definition cq_part :: "vcall env \<Rightarrow> (fs_state, (int + int) option) cmd" where
  "cq_part env =
     bindM (get_ctx rc_context) (\<lambda>cx.
     bindM (ext env (Ibv_query_device cx)) (\<lambda>da.
     if r_int da \<noteq> 0 then retM (Some (Inr (- 1)))
     else bindM (cfg cf_qp_count) (\<lambda>n.
       bindM (c_mul DEFAULT_BUF_DEPTH n) (\<lambda>depth.
       let cqe_count = (if r_out da < depth then r_out da else depth) in
       bindM (get_ctx rc_channel) (\<lambda>ch.
       bindM (call_ptr env (Ibv_create_cq cx cqe_count ch)) (\<lambda>scq.
       thenM (put_ctx (\<lambda>c. c\<lparr>rc_send_cq := scq\<rparr>))
       (if scq = NULL then retM (Some (Inr (- 1)))
        else bindM (call_ptr env (Ibv_create_cq cx cqe_count ch)) (\<lambda>rcq.
          thenM (put_ctx (\<lambda>c. c\<lparr>rc_recv_cq := rcq\<rparr>))
          (bindM (get_ctx rc_send_cq) (\<lambda>scq'.
           if scq' = NULL then retM (Some (Inr (- 1))) else retM None)))))))))) "

definition srq_attr :: ibv_srq_attr where
  "srq_attr = \<lparr>srq_max_wr = DEFAULT_BUF_DEPTH, srq_max_sge = 1, srq_limit = 10\<rparr>"

definition srq_part :: "vcall env \<Rightarrow> (fs_state, (int + int) option) cmd" where
  "srq_part env =
     bindM (cfg cf_use_srq) (\<lambda>us.
     if us \<noteq> 0 then
       bindM (get_ctx rc_pd) (\<lambda>pd.
       bindM (call_ptr env (Ibv_create_srq pd srq_attr)) (\<lambda>srq.
       thenM (put_ctx (\<lambda>c. c\<lparr>rc_srq := srq\<rparr>))
       (if srq = NULL then retM (Some (Inr (- 1))) else retM None)))
     else retM None)"

text \<open>The queue pairs: the \<open>switch\<close> on the connection type, then one queue pair per turn.\<close>

fun qp_type_of :: "ConnectionType \<Rightarrow> ibv_qp_type option" where
  "qp_type_of RC = Some IBV_QPT_RC"
| "qp_type_of UC = Some IBV_QPT_UC"
| "qp_type_of UD = Some IBV_QPT_UD"
| "qp_type_of (ConnectionType_other _) = None"

definition init_attr :: "rdma_context \<Rightarrow> ibv_qp_type \<Rightarrow> ibv_qp_init_attr" where
  "init_attr c ty = \<lparr>qa_send_cq = rc_send_cq c, qa_recv_cq = rc_recv_cq c, qa_srq = rc_srq c,
     qa_max_send_wr = DEFAULT_BUF_DEPTH, qa_max_recv_wr = DEFAULT_BUF_DEPTH,
     qa_max_send_sge = MAX_SEND_SGE, qa_max_recv_sge = MAX_RECV_SGE, qa_qp_type = ty\<rparr>"

definition qp_body :: "vcall env \<Rightarrow> int \<Rightarrow> (fs_state, (int + int) option) cmd" where
  "qp_body env i =
     bindM (get_ctx (\<lambda>c. c)) (\<lambda>c.
     bindM (cfg cf_connection_type) (\<lambda>ct.
     case qp_type_of ct of
       None \<Rightarrow> retM (Some (Inl 0))
     | Some ty \<Rightarrow>
         bindM (ext env (Rdma_create_qp (rc_cm_id c) (rc_pd c) (init_attr c ty))) (\<lambda>r.
         if r_int r \<noteq> 0 then retM (Some (Inr (- 1)))
         else if rc_cm_id c = NULL then stopM (Faulted Null_Deref)
         else bindM (arr_set (rc_qp c) i (r_ptr r)) (\<lambda>a.
           thenM (put_ctx (\<lambda>c. c\<lparr>rc_qp := a\<rparr>)) (retM None)))))"

text \<open>Buffers and memory regions.  A failed \<open>memalign\<close> sets \<open>ret\<close> but does not leave the loop,
  so the \<open>memset\<close> that follows writes through a null pointer.\<close>

definition mr_flags :: "access_flag set" where
  "mr_flags = {IBV_ACCESS_LOCAL_WRITE, IBV_ACCESS_REMOTE_READ, IBV_ACCESS_REMOTE_WRITE}"

definition mr_body :: "vcall env \<Rightarrow> int \<Rightarrow> (fs_state, (int + int) option) cmd" where
  "mr_body env i =
     bindM (call_ptr env (Memalign BUF_SIZE)) (\<lambda>b.
     bindM (get_ctx rc_buf) (\<lambda>bufs.
     bindM (arr_set bufs i b) (\<lambda>bufs'.
     thenM (put_ctx (\<lambda>c. c\<lparr>rc_buf := bufs'\<rparr>))
     (if b = NULL then stopM (Faulted Null_Deref)
      else bindM (get_ctx rc_pd) (\<lambda>pd.
        bindM (call_ptr env (Ibv_reg_mr pd b BUF_SIZE mr_flags)) (\<lambda>mr.
        bindM (get_ctx rc_mr) (\<lambda>mrs.
        bindM (arr_set mrs i mr) (\<lambda>mrs'.
        thenM (put_ctx (\<lambda>c. c\<lparr>rc_mr := mrs'\<rparr>))
        (if mr = NULL then retM (Some (Inr (- 1))) else retM None)))))))))"

definition create_body :: "vcall env \<Rightarrow> (fs_state, (int + int) option) cmd" where
  "create_body env =
     contM (open_part env)
     (contM (channel_part env)
     (contM (cq_part env)
     (contM (srq_part env)
     (bindM (cfg cf_qp_count) (\<lambda>n.
      contM (for_loop 0 n (qp_body env)) (for_loop 0 n (mr_body env)))))))"

section \<open>Releasing them\<close>

text \<open>\<open>if (p) { release (p); p = NULL; }\<close> for a member of the context.\<close>

definition release ::
    "vcall env \<Rightarrow> (rdma_context \<Rightarrow> bool) \<Rightarrow> (rdma_context \<Rightarrow> vcall)
       \<Rightarrow> (rdma_context \<Rightarrow> rdma_context) \<Rightarrow> (fs_state, unit) cmd" where
  "release env present rel clear =
     bindM (get_ctx present) (\<lambda>b. whenM b
       (bindM (get_ctx rel) (\<lambda>x. thenM (call_void env x) (put_ctx clear))))"

definition release_cq :: "vcall env \<Rightarrow> (fs_state, unit) cmd" where
  "release_cq env = release env (\<lambda>c. rc_cq c \<noteq> NULL) (\<lambda>c. Ibv_destroy_cq (rc_cq c))
     (\<lambda>c. c\<lparr>rc_cq := NULL\<rparr>)"

definition release_pd :: "vcall env \<Rightarrow> (fs_state, unit) cmd" where
  "release_pd env = release env (\<lambda>c. rc_pd c \<noteq> NULL) (\<lambda>c. Ibv_dealloc_pd (rc_pd c))
     (\<lambda>c. c\<lparr>rc_pd := NULL\<rparr>)"

text \<open>One turn of the release loop.  It releases the arrays as wholes: the memory region call
  gets the base of the region array, and after the first turn all three are null.\<close>

definition release_slot :: "vcall env \<Rightarrow> (fs_state, unit option) cmd" where
  "release_slot env =
     thenM (release env (\<lambda>c. rc_qp c \<noteq> Null_arr) (\<lambda>c. Rdma_destroy_qp (rc_cm_id c))
       (\<lambda>c. c\<lparr>rc_qp := Null_arr\<rparr>))
     (thenM (release env (\<lambda>c. rc_mr c \<noteq> Null_arr) (\<lambda>c. Ibv_dereg_mr (arr_base (rc_mr c)))
       (\<lambda>c. c\<lparr>rc_mr := Null_arr\<rparr>))
     (thenM (release env (\<lambda>c. rc_buf c \<noteq> Null_arr) (\<lambda>c. Free (arr_base (rc_buf c)))
       (\<lambda>c. c\<lparr>rc_buf := Null_arr\<rparr>))
     (retM None)))"

definition release_loop :: "vcall env \<Rightarrow> (fs_state, unit) cmd" where
  "release_loop env =
     bindM (cfg cf_qp_count) (\<lambda>n. thenM (for_loop 0 n (\<lambda>_. release_slot env)) (retM ()))"

text \<open>The clean-up at the label \<open>out:\<close>, and the tear-down of a connection.\<close>

definition out_cleanup :: "vcall env \<Rightarrow> (fs_state, unit) cmd" where
  "out_cleanup env =
     thenM (release_loop env) (thenM (release_cq env) (thenM (release_pd env)
     (release env (\<lambda>c. rc_content c \<noteq> NULL) (\<lambda>c. Ibv_close_device (rc_content c))
       (\<lambda>c. c\<lparr>rc_content := NULL\<rparr>))))"

definition fs_rdma_teardown :: "vcall env \<Rightarrow> (fs_state, int) cmd" where
  "fs_rdma_teardown env =
     thenM (release_loop env) (thenM (release_cq env) (thenM (release_pd env)
     (thenM (release env (\<lambda>c. rc_cm_id c \<noteq> NULL) (\<lambda>c. Rdma_destroy_id (rc_cm_id c))
       (\<lambda>c. c\<lparr>rc_cm_id := NULL\<rparr>))
     (retM 0))))"

definition fs_rdma_create_resources :: "vcall env \<Rightarrow> (fs_state, int) cmd" where
  "fs_rdma_create_resources env =
     bindM (create_body env) (\<lambda>j.
     case j of
       Some (Inl v) \<Rightarrow> retM v
     | Some (Inr ret) \<Rightarrow> if ret = - 1 then thenM (out_cleanup env) (retM ret) else retM ret
     | None \<Rightarrow> retM 0)"

section \<open>What releasing does\<close>

text \<open>From \<open>s\<close> to \<open>t\<close> the context became \<open>c\<close> and exactly the calls \<open>xs\<close> were made.\<close>

definition ctx_step :: "fs_state \<Rightarrow> rdma_context \<Rightarrow> vcall list \<Rightarrow> fs_state \<Rightarrow> bool" where
  "ctx_step s c xs t \<longleftrightarrow> rdma_ctx t = Some c \<and> config t = config s \<and> made s t xs"

lemma ctx_step_refl [simp]: "ctx_step s c xs s \<longleftrightarrow> rdma_ctx s = Some c \<and> xs = []"
  by (auto simp: ctx_step_def)

lemma ctx_step_trans: "ctx_step s c xs t \<Longrightarrow> ctx_step t d ys u \<Longrightarrow> ctx_step s d (xs @ ys) u"
  by (auto simp: ctx_step_def intro: made_trans)

lemma ctx_step_ctx: "ctx_step s c xs t \<Longrightarrow> rdma_ctx t = Some c"
  and ctx_step_config: "ctx_step s c xs t \<Longrightarrow> config t = config s"
  by (simp_all add: ctx_step_def)

text \<open>
  \<open>does p m c r d xs\<close>: under the parameters \<open>p\<close>, whatever the answers, \<open>m\<close> takes the context
  from \<open>c\<close> to \<open>d\<close> with outcome \<open>r\<close> and makes the calls \<open>xs\<close>.
\<close>

definition does :: "rdma_param \<Rightarrow> (fs_state, 'a) cmd \<Rightarrow> rdma_context \<Rightarrow> 'a outcome \<Rightarrow> rdma_context
    \<Rightarrow> vcall list \<Rightarrow> bool" where
  "does p m c r d xs \<longleftrightarrow> (\<forall>s. rdma_ctx s = Some c \<longrightarrow> config s = p \<longrightarrow>
     wp m (\<lambda>r' t. r' = r \<and> ctx_step s d xs t) s)"

lemma doesD: "does p m c r d xs \<Longrightarrow> rdma_ctx s = Some c \<Longrightarrow> config s = p \<Longrightarrow>
    fst (m s) = r \<and> ctx_step s d xs (snd (m s))"
  by (simp add: does_def wp_def)

lemma does_eq: "does p m c r d xs \<Longrightarrow> d = e \<Longrightarrow> xs = ys \<Longrightarrow> does p m c r e ys"
  by simp

lemma does_ret: "does p (retM x) c (Ret x) c []"
  by (simp add: does_def)

lemma does_then: "does p m c (Ret x) d xs \<Longrightarrow> does p n d r e ys \<Longrightarrow> does p (thenM m n) c r e (xs @ ys)"
  unfolding does_def wp_then
  by (intro allI impI, drule spec, drule (1) mp, drule (1) mp, erule wp_mono)
    (auto dest: ctx_step_ctx ctx_step_config elim!: wp_mono allE intro: ctx_step_trans)

lemma does_release:
  "(\<not> present c \<Longrightarrow> clear c = c) \<Longrightarrow>
     does p (release env present rel clear) c (Ret ()) (clear c) (if present c then [rel c] else [])"
  unfolding release_def does_def
  by (auto simp: wp_simps wp_ctx ctx_step_def made_def intro!: wp_calls)

definition slot_calls :: "rdma_context \<Rightarrow> vcall list" where
  "slot_calls c =
     (if rc_qp c \<noteq> Null_arr then [Rdma_destroy_qp (rc_cm_id c)] else []) @
     (if rc_mr c \<noteq> Null_arr then [Ibv_dereg_mr (arr_base (rc_mr c))] else []) @
     (if rc_buf c \<noteq> Null_arr then [Free (arr_base (rc_buf c))] else [])"

definition slot_clear :: "rdma_context \<Rightarrow> rdma_context" where
  "slot_clear c = c\<lparr>rc_qp := Null_arr, rc_mr := Null_arr, rc_buf := Null_arr\<rparr>"

lemma slot_clear_again [simp]: "slot_clear (slot_clear c) = slot_clear c"
  "slot_calls (slot_clear c) = []"
  by (simp_all add: slot_clear_def slot_calls_def)

lemma does_release_slot:
  "does p (release_slot env) c (Ret None) (slot_clear c) (slot_calls c)"
  unfolding release_slot_def
  by (rule does_eq, ((rule does_then does_release does_ret) | (simp; fail))+)
    (simp_all add: slot_clear_def slot_calls_def)

lemma does_release_loop:
  "does p (release_loop env) c (Ret ())
     (if 0 < cf_qp_count p then slot_clear c else c) (if 0 < cf_qp_count p then slot_calls c else [])"
proof -
  let ?n = "cf_qp_count p"
  let ?I = "\<lambda>s k t. if k = (0::int) then t = s else ctx_step s (slot_clear c) (slot_calls c) t"
  have all: "wp (for_loop 0 ?n (\<lambda>_. release_slot env)) (\<lambda>r t. r = Ret None \<and> ?I s (max 0 ?n) t) s"
    if s: "rdma_ctx s = Some c" "config s = p" for s
  proof (rule wp_for_loop [where I = "?I s"])
    fix k t
    assume k: "0 \<le> k" and I: "?I s k t"
    show "wp (release_slot env) (loop_post (?I s (k + 1)) (\<lambda>r t. r = Ret None \<and> ?I s (max 0 ?n) t)) t"
    proof (cases "k = 0")
      case True
      then show ?thesis
        using doesD [OF does_release_slot s] I by (simp add: wp_def)
    next
      case False
      with I have t: "ctx_step s (slot_clear c) (slot_calls c) t" by simp
      have "fst (release_slot env t) = Ret None \<and>
          ctx_step t (slot_clear c) [] (snd (release_slot env t))"
        using doesD [OF does_release_slot ctx_step_ctx [OF t] refl] by simp
      with ctx_step_trans [OF t, of "slot_clear c" "[]"] k show ?thesis
        by (simp add: wp_def)
    qed
  qed simp_all
  show ?thesis
    unfolding does_def release_loop_def wp_bind wp_cfg after_Ret wp_then
  proof (intro allI impI)
    fix s :: fs_state
    assume s: "rdma_ctx s = Some c" "config s = p"
    show "wp (for_loop 0 (cf_qp_count (config s)) (\<lambda>_. release_slot env)) (after (\<lambda>_. retM ())
      (\<lambda>r' t. r' = Ret () \<and> ctx_step s (if 0 < ?n then slot_clear c else c)
        (if 0 < ?n then slot_calls c else []) t)) s"
      unfolding s(2) by (rule wp_mono [OF all [OF s]]) (use s in auto)
  qed
qed

text \<open>The whole tear-down, as a list of calls and a context.\<close>

definition teardown_calls :: "int \<Rightarrow> rdma_context \<Rightarrow> vcall list" where
  "teardown_calls n c =
     (if 0 < n then slot_calls c else []) @
     (if rc_cq c \<noteq> NULL then [Ibv_destroy_cq (rc_cq c)] else []) @
     (if rc_pd c \<noteq> NULL then [Ibv_dealloc_pd (rc_pd c)] else []) @
     (if rc_cm_id c \<noteq> NULL then [Rdma_destroy_id (rc_cm_id c)] else [])"

definition torn_down :: "int \<Rightarrow> rdma_context \<Rightarrow> rdma_context" where
  "torn_down n c = (if 0 < n then slot_clear c else c)
     \<lparr>rc_cq := NULL, rc_pd := NULL, rc_cm_id := NULL\<rparr>"

lemma does_teardown:
  "does p (fs_rdma_teardown env) c (Ret 0) (torn_down (cf_qp_count p) c)
     (teardown_calls (cf_qp_count p) c)"
  unfolding fs_rdma_teardown_def release_cq_def release_pd_def
  by (rule does_eq, ((rule does_then does_release does_ret does_release_loop) | (simp; fail))+)
    (simp_all add: teardown_calls_def torn_down_def slot_clear_def)

definition cleanup_calls :: "int \<Rightarrow> rdma_context \<Rightarrow> vcall list" where
  "cleanup_calls n c =
     (if 0 < n then slot_calls c else []) @
     (if rc_cq c \<noteq> NULL then [Ibv_destroy_cq (rc_cq c)] else []) @
     (if rc_pd c \<noteq> NULL then [Ibv_dealloc_pd (rc_pd c)] else []) @
     (if rc_content c \<noteq> NULL then [Ibv_close_device (rc_content c)] else [])"

definition cleaned :: "int \<Rightarrow> rdma_context \<Rightarrow> rdma_context" where
  "cleaned n c = (if 0 < n then slot_clear c else c)
     \<lparr>rc_cq := NULL, rc_pd := NULL, rc_content := NULL\<rparr>"

lemma does_cleanup:
  "does p (out_cleanup env) c (Ret ()) (cleaned (cf_qp_count p) c) (cleanup_calls (cf_qp_count p) c)"
  unfolding out_cleanup_def release_cq_def release_pd_def
  by (rule does_eq, ((rule does_then does_release does_ret does_release_loop) | (simp; fail))+)
    (simp_all add: cleanup_calls_def cleaned_def slot_clear_def)

end
