(* ===== verification/Resource_Creation.thy ===== *)
theory Resource_Creation
  imports Resources
begin

text \<open>
  What \<open>fs_rdma_create_resources\<close> of \<open>src/src/c/transport.c\<close> does on every path, and its
  interplay with the tear-down: the exact calls of a success, the state after a failure, when
  it cannot fault, and what is never released.
\<close>

section \<open>Where a value comes from\<close>

text \<open>\<open>answered tr x f v\<close>: \<open>v\<close> is what \<open>f\<close> reads off an answer to the call \<open>x\<close> in the history.\<close>

definition answered :: "vcall trace \<Rightarrow> vcall \<Rightarrow> (resp \<Rightarrow> 'a) \<Rightarrow> 'a \<Rightarrow> bool" where
  "answered tr x f v \<longleftrightarrow> (\<exists>q. (x, q) \<in> set tr \<and> v = f q)"

lemma answered_simps [simp]:
  "\<not> answered [] x f v"
  "answered ((y, q) # tr) x f v \<longleftrightarrow> y = x \<and> v = f q \<or> answered tr x f v"
  "answered (tr @ tr') x f v \<longleftrightarrow> answered tr x f v \<or> answered tr' x f v"
  by (auto simp: answered_def)

lemma answered_mono: "answered tr x f v \<Longrightarrow> prefix tr tr' \<Longrightarrow> answered tr' x f v"
  by (auto simp: answered_def prefix_def)

text \<open>Two consecutive calls, and what they were answered.\<close>

definition answered_twice :: "vcall trace \<Rightarrow> vcall \<Rightarrow> addr \<Rightarrow> addr \<Rightarrow> bool" where
  "answered_twice tr x v w \<longleftrightarrow> (\<exists>before q q' after. tr = before @ (x, q) # (x, q') # after \<and> v = r_ptr q \<and> w = r_ptr q')"

lemma answered_twice_last: "answered_twice (tr @ [y, (x, q), (x, q')]) x (r_ptr q) (r_ptr q')"
  unfolding answered_twice_def by (intro exI [of _ "tr @ [y]"] exI [of _ q] exI [of _ q'] exI [of _ "[]"]) simp

lemma answered_twice_mono: "answered_twice tr x v w \<Longrightarrow> prefix tr tr' \<Longrightarrow> answered_twice tr' x v w"
  unfolding answered_twice_def prefix_def by (elim exE conjE) (simp, metis)

text \<open>The answers to all calls of a kind, in order.\<close>

definition answers :: "(vcall \<Rightarrow> bool) \<Rightarrow> vcall trace \<Rightarrow> addr list" where
  "answers P tr = map (\<lambda>x. r_ptr (snd x)) (filter (\<lambda>x. P (fst x)) tr)"

lemma answers_simps [simp]:
  "answers P [] = []"
  "answers P (x # tr) = (if P (fst x) then r_ptr (snd x) # answers P tr else answers P tr)"
  "answers P (tr @ tr') = answers P tr @ answers P tr'"
  by (simp_all add: answers_def)

lemma answers_none: "made s t xs \<Longrightarrow> list_all (\<lambda>x. \<not> P x) xs \<Longrightarrow> answers P (since s t) = []"
  by (drule since_made, drule sym) (simp add: answers_def list_all_iff filter_empty_conv)

fun is_create_qp :: "vcall \<Rightarrow> bool" where
  "is_create_qp (Rdma_create_qp _ _ _) = True"
| "is_create_qp _ = False"

fun is_memalign :: "vcall \<Rightarrow> bool" where
  "is_memalign (Memalign _) = True"
| "is_memalign _ = False"

fun is_reg_mr :: "vcall \<Rightarrow> bool" where
  "is_reg_mr (Ibv_reg_mr _ _ _ _) = True"
| "is_reg_mr _ = False"

text \<open>The default device of an answer of \<open>ibv_get_device_list\<close>.\<close>

definition first_device :: "resp \<Rightarrow> addr" where
  "first_device q = (if r_ptr q = NULL \<or> r_out q \<le> 0 \<or> r_list q = [] then NULL else hd (r_list q))"

section \<open>What creating does\<close>

text \<open>The calls of a lookup with no device name.\<close>

definition default_lookup_calls :: "addr \<Rightarrow> vcall list" where
  "default_lookup_calls d =
     Ibv_get_device_list # (if d = NULL then [] else [Ibv_get_device_name d, Strdup d])"

lemma default_lookup_result:
  "wp (fs_rdma_find_dev env None) (\<lambda>r t. rdma_ctx t = rdma_ctx s \<and> config t = config s \<and>
     (case r of Ret d \<Rightarrow> made s t (default_lookup_calls d) \<and>
          answered (calls t) Ibv_get_device_list first_device d
      | Stop e \<Rightarrow> \<exists>f. e = Faulted f)) s"
  unfolding fs_rdma_find_dev_def dev_at_def device_name_def
  by (auto simp: wp_simps made_def default_lookup_calls_def first_device_def hd_conv_nth
      intro!: wp_calls split: option.split)

lemma wp_default_lookup:
  assumes "\<And>d t. rdma_ctx t = rdma_ctx s \<Longrightarrow> config t = config s \<Longrightarrow>
      made s t (default_lookup_calls d) \<Longrightarrow> answered (calls t) Ibv_get_device_list first_device d \<Longrightarrow>
      Q (Ret d) t"
    and "\<And>f t. rdma_ctx t = rdma_ctx s \<Longrightarrow> config t = config s \<Longrightarrow> Q (Stop (Faulted f)) t"
  shows "wp (fs_rdma_find_dev env None) Q s"
  by (rule wp_mono [OF default_lookup_result]) (auto intro: assms split: outcome.splits)

text \<open>The members creating never changes: the identifier, the undeclared members, and where the
  three arrays are.\<close>

definition untouched :: "rdma_context \<Rightarrow> rdma_context \<Rightarrow> bool" where
  "untouched c d \<longleftrightarrow> rc_cm_id d = rc_cm_id c \<and> rc_cm_event_channel d = rc_cm_event_channel c \<and>
     rc_cq d = rc_cq c \<and> rc_content d = rc_content c \<and> rc_connected d = rc_connected c \<and>
     arr_base (rc_qp d) = arr_base (rc_qp c) \<and> arr_base (rc_mr d) = arr_base (rc_mr c) \<and>
     arr_base (rc_buf d) = arr_base (rc_buf c) \<and>
     (rc_qp d = Null_arr \<longleftrightarrow> rc_qp c = Null_arr) \<and> (rc_mr d = Null_arr \<longleftrightarrow> rc_mr c = Null_arr) \<and>
     (rc_buf d = Null_arr \<longleftrightarrow> rc_buf c = Null_arr)"

lemma untouched_refl [simp]: "untouched c c"
  by (simp add: untouched_def)

lemma untouched_trans: "untouched c d \<Longrightarrow> untouched d e \<Longrightarrow> untouched c e"
  by (simp add: untouched_def)

definition leaves :: "fs_state \<Rightarrow> rdma_context \<Rightarrow> fs_state \<Rightarrow> bool" where
  "leaves s c t \<longleftrightarrow> config t = config s \<and> (\<exists>d. rdma_ctx t = Some d \<and> untouched c d)"

text \<open>The outcomes of a part of the body: on to the next part, \<open>goto out\<close> with \<open>-1\<close>, \<open>return 0\<close>
  for an unknown connection type, or a fault.\<close>

definition part_result :: "rdma_param \<Rightarrow> (int + int) option outcome \<Rightarrow> bool" where
  "part_result p r \<longleftrightarrow> r = Ret None \<or> r = Ret (Some (Inr (- 1))) \<or>
     r = Ret (Some (Inl 0)) \<and> qp_type_of (cf_connection_type p) = None \<or> (\<exists>f. r = Stop (Faulted f))"

text \<open>What the answers of the parts put into the context: \<open>d\<close> is the device, \<open>m\<close> its completion
  queue limit.\<close>

definition open_from :: "addr \<Rightarrow> rdma_context \<Rightarrow> vcall trace \<Rightarrow> bool" where
  "open_from d c tr \<longleftrightarrow> answered tr Ibv_get_device_list first_device d \<and>
     answered tr (Ibv_open_device d) r_ptr (rc_context c) \<and>
     answered tr (Ibv_alloc_pd (rc_context c)) r_ptr (rc_pd c)"

definition channel_from :: "rdma_param \<Rightarrow> rdma_context \<Rightarrow> vcall trace \<Rightarrow> bool" where
  "channel_from p c tr \<longleftrightarrow> (cf_use_event p \<noteq> 0 \<longrightarrow>
     answered tr (Ibv_create_comp_channel (rc_context c)) r_ptr (rc_channel c))"

definition cq_from :: "rdma_param \<Rightarrow> int \<Rightarrow> rdma_context \<Rightarrow> vcall trace \<Rightarrow> bool" where
  "cq_from p m c tr \<longleftrightarrow> answered tr (Ibv_query_device (rc_context c)) r_out m \<and>
     answered_twice tr
       (Ibv_create_cq (rc_context c) (min (DEFAULT_BUF_DEPTH * cf_qp_count p) m) (rc_channel c))
       (rc_send_cq c) (rc_recv_cq c)"

definition srq_from :: "rdma_param \<Rightarrow> rdma_context \<Rightarrow> vcall trace \<Rightarrow> bool" where
  "srq_from p c tr \<longleftrightarrow> (cf_use_srq p \<noteq> 0 \<longrightarrow> answered tr (Ibv_create_srq (rc_pd c) srq_attr) r_ptr (rc_srq c))"

definition channel_stage_from :: "rdma_param \<Rightarrow> addr \<Rightarrow> rdma_context \<Rightarrow> vcall trace \<Rightarrow> bool" where
  "channel_stage_from p d c tr \<longleftrightarrow> open_from d c tr \<and> channel_from p c tr"

definition cq_stage_from :: "rdma_param \<Rightarrow> addr \<Rightarrow> int \<Rightarrow> rdma_context \<Rightarrow> vcall trace \<Rightarrow> bool" where
  "cq_stage_from p d m c tr \<longleftrightarrow> channel_stage_from p d c tr \<and> cq_from p m c tr"

definition setup_from :: "rdma_param \<Rightarrow> addr \<Rightarrow> int \<Rightarrow> rdma_context \<Rightarrow> vcall trace \<Rightarrow> bool" where
  "setup_from p d m c tr \<longleftrightarrow> cq_stage_from p d m c tr \<and> srq_from p c tr"

lemma open_from_stable: "open_from d c tr \<Longrightarrow> prefix tr tr' \<Longrightarrow> rc_context c' = rc_context c \<Longrightarrow>
    rc_pd c' = rc_pd c \<Longrightarrow> open_from d c' tr'"
  by (auto simp: open_from_def intro: answered_mono)

lemma channel_stage_from_stable: "channel_stage_from p d c tr \<Longrightarrow> prefix tr tr' \<Longrightarrow>
    rc_context c' = rc_context c \<Longrightarrow> rc_pd c' = rc_pd c \<Longrightarrow> rc_channel c' = rc_channel c \<Longrightarrow>
    channel_stage_from p d c' tr'"
  by (auto simp: channel_stage_from_def channel_from_def intro: answered_mono open_from_stable)

lemma cq_stage_from_stable: "cq_stage_from p d m c tr \<Longrightarrow> prefix tr tr' \<Longrightarrow>
    rc_context c' = rc_context c \<Longrightarrow> rc_pd c' = rc_pd c \<Longrightarrow> rc_channel c' = rc_channel c \<Longrightarrow>
    rc_send_cq c' = rc_send_cq c \<Longrightarrow> rc_recv_cq c' = rc_recv_cq c \<Longrightarrow> cq_stage_from p d m c' tr'"
  by (auto simp: cq_stage_from_def cq_from_def intro: answered_mono answered_twice_mono channel_stage_from_stable)

lemma setup_from_stable: "setup_from p d m c tr \<Longrightarrow> prefix tr tr' \<Longrightarrow>
    setup_from p d m (c\<lparr>rc_qp := q, rc_buf := b, rc_mr := r\<rparr>) tr'"
  by (auto simp: setup_from_def srq_from_def intro: answered_mono cq_stage_from_stable)

lemma wp_open_part:
  assumes c: "rdma_ctx s = Some c"
  shows "wp (open_part env) (\<lambda>r t. leaves s c t \<and> part_result p r \<and>
    (r = Ret None \<longrightarrow> (\<exists>d c'. ctx_step s c' (default_lookup_calls d @ [Ibv_open_device d,
        Ibv_query_port (rc_context c') (cf_ib_port (config s)), Ibv_alloc_pd (rc_context c')]) t \<and>
      c' = c\<lparr>rc_context := rc_context c', rc_port_attr := rc_port_attr c', rc_pd := rc_pd c'\<rparr> \<and>
      rc_context c' \<noteq> NULL \<and> rc_pd c' \<noteq> NULL \<and> open_from d c' (calls t)))) s"
  unfolding open_part_def
  by (auto simp: wp_simps wp_ctx c leaves_def untouched_def part_result_def ctx_step_def made_def open_from_def
      intro!: wp_calls wp_default_lookup)

lemma wp_channel_part:
  assumes c: "rdma_ctx s = Some c"
  shows "wp (channel_part env) (\<lambda>r t. leaves s c t \<and> part_result p r \<and>
    (r = Ret None \<longrightarrow> (\<exists>c'. ctx_step s c' (if cf_use_event (config s) \<noteq> 0
        then [Ibv_create_comp_channel (rc_context c)] else []) t \<and>
      c' = c\<lparr>rc_channel := rc_channel c'\<rparr> \<and> channel_from (config s) c' (calls t)))) s"
  unfolding channel_part_def
  by (auto simp: wp_simps wp_ctx c leaves_def untouched_def part_result_def ctx_step_def made_def channel_from_def
      intro!: wp_calls)

lemma if_less_min: "(if x < d then x else d) = min d (x :: int)"
  by (simp add: min_def)

text \<open>The limit is the answer to the first call of this part.\<close>

lemma wp_cq_part_limit:
  assumes c: "rdma_ctx s = Some c"
  shows "wp (cq_part env) (\<lambda>r t. leaves s c t \<and> part_result p r \<and>
    (r = Ret None \<longrightarrow> (\<exists>c'. let m = r_out (snd (calls t ! length (calls s))) in
      ctx_step s c' (Ibv_query_device (rc_context c) #
        replicate 2 (Ibv_create_cq (rc_context c)
          (min (DEFAULT_BUF_DEPTH * cf_qp_count (config s)) m) (rc_channel c))) t \<and>
      c' = c\<lparr>rc_send_cq := rc_send_cq c', rc_recv_cq := rc_recv_cq c'\<rparr> \<and>
      rc_send_cq c' \<noteq> NULL \<and> c_int (DEFAULT_BUF_DEPTH * cf_qp_count (config s)) \<and>
      cq_from (config s) m c' (calls t)))) s"
  unfolding cq_part_def Let_def if_less_min
  by (auto simp: wp_simps wp_ctx wp_c_mul c leaves_def untouched_def part_result_def ctx_step_def
      made_def cq_from_def numeral_2_eq_2 nth_append intro!: wp_calls answered_twice_last)

lemma wp_cq_part:
  assumes c: "rdma_ctx s = Some c"
  shows "wp (cq_part env) (\<lambda>r t. leaves s c t \<and> part_result p r \<and>
    (r = Ret None \<longrightarrow> (\<exists>m c'. ctx_step s c' (Ibv_query_device (rc_context c) #
        replicate 2 (Ibv_create_cq (rc_context c)
          (min (DEFAULT_BUF_DEPTH * cf_qp_count (config s)) m) (rc_channel c))) t \<and>
      c' = c\<lparr>rc_send_cq := rc_send_cq c', rc_recv_cq := rc_recv_cq c'\<rparr> \<and>
      rc_send_cq c' \<noteq> NULL \<and> c_int (DEFAULT_BUF_DEPTH * cf_qp_count (config s)) \<and>
      cq_from (config s) m c' (calls t)))) s"
  by (rule wp_mono [OF wp_cq_part_limit [OF c]]) (auto simp: Let_def)

lemma wp_srq_part:
  assumes c: "rdma_ctx s = Some c"
  shows "wp (srq_part env) (\<lambda>r t. leaves s c t \<and> part_result p r \<and>
    (r = Ret None \<longrightarrow> (\<exists>c'. ctx_step s c' (if cf_use_srq (config s) \<noteq> 0
        then [Ibv_create_srq (rc_pd c) srq_attr] else []) t \<and>
      c' = c\<lparr>rc_srq := rc_srq c'\<rparr> \<and> srq_from (config s) c' (calls t)))) s"
  unfolding srq_part_def
  by (auto simp: wp_simps wp_ctx c leaves_def untouched_def part_result_def ctx_step_def made_def srq_from_def
      intro!: wp_calls)

text \<open>The loops fill their arrays from the front.\<close>

definition filled :: "parr \<Rightarrow> addr list \<Rightarrow> parr \<Rightarrow> bool" where
  "filled a vs a' \<longleftrightarrow> (case a of Null_arr \<Rightarrow> a' = Null_arr
     | Arr b xs \<Rightarrow> length vs \<le> length xs \<and> a' = Arr b (vs @ drop (length vs) xs))"

lemma filled_Nil [simp]: "filled a [] a"
  by (simp add: filled_def split: parr.split)

lemma fill_update: "k < length xs \<Longrightarrow> length vs = k \<Longrightarrow>
    (vs @ drop k xs)[k := v] = vs @ v # drop (Suc k) xs"
  by (auto simp: list_update_append Cons_nth_drop_Suc [symmetric])

lemma filled_set:
  assumes "filled a vs (Arr b ys)" and "k < length ys" and "length vs = k"
  shows "filled a (vs @ [v]) (Arr b (ys[k := v]))"
  using assms by (auto simp: filled_def fill_update split: parr.splits)

lemma filled_base: "filled a vs a' \<Longrightarrow> arr_base a' = arr_base a \<and> (a' = Null_arr \<longleftrightarrow> a = Null_arr)"
  by (auto simp: filled_def split: parr.splits)

lemma filled_all: "filled a vs a' \<Longrightarrow> arr_ok n a \<Longrightarrow> int (length vs) = n \<Longrightarrow>
    a' = Arr (arr_base a) vs"
  by (auto simp: filled_def arr_ok_def split: parr.splits)

lemma filled_ok: "filled a vs a' \<Longrightarrow> arr_ok n a \<Longrightarrow> arr_ok n a'"
  by (auto simp: filled_def arr_ok_def split: parr.splits)

text \<open>The queue pair loop: one \<open>rdma_create_qp\<close> per turn, all on the same identifier.\<close>

definition qp_inv :: "fs_state \<Rightarrow> rdma_context \<Rightarrow> vcall \<Rightarrow> int \<Rightarrow> fs_state \<Rightarrow> bool" where
  "qp_inv s c x k t \<longleftrightarrow> (\<exists>qs q. ctx_step s (c\<lparr>rc_qp := q\<rparr>) (replicate (nat k) x) t \<and>
     filled (rc_qp c) qs q \<and> int (length qs) = k \<and> (\<forall>v\<in>set qs. answered (calls t) x r_ptr v) \<and>
     qs = answers is_create_qp (since s t))"

lemma qp_inv_leaves: "qp_inv s c x k t \<Longrightarrow> leaves s c t"
  by (auto simp: qp_inv_def leaves_def ctx_step_def untouched_def dest: filled_base)

lemma qp_invE:
  assumes "qp_inv s c x k t"
  obtains q where "ctx_step s (c\<lparr>rc_qp := q\<rparr>) (replicate (nat k) x) t"
    "untouched c (c\<lparr>rc_qp := q\<rparr>)" "\<And>n. arr_ok n (rc_qp c) \<Longrightarrow> arr_ok n q"
proof -
  obtain qs q where q: "ctx_step s (c\<lparr>rc_qp := q\<rparr>) (replicate (nat k) x) t" "filled (rc_qp c) qs q"
    using assms by (auto simp: qp_inv_def)
  then have "untouched c (c\<lparr>rc_qp := q\<rparr>)" by (simp add: untouched_def filled_base)
  with q show ?thesis by (intro that [of q]) (auto intro: filled_ok)
qed

lemma qp_body_step:
  assumes ct: "qp_type_of (cf_connection_type (config s)) = Some ty"
    and inv: "qp_inv s c (Rdma_create_qp (rc_cm_id c) (rc_pd c) (init_attr c ty)) k t"
  shows "wp (qp_body env k) (loop_post
      (qp_inv s c (Rdma_create_qp (rc_cm_id c) (rc_pd c) (init_attr c ty)) (k + 1))
      (\<lambda>r t. leaves s c t \<and> part_result p r)) t"
proof -
  let ?x = "Rdma_create_qp (rc_cm_id c) (rc_pd c) (init_attr c ty)"
  obtain qs q where st: "ctx_step s (c\<lparr>rc_qp := q\<rparr>) (replicate (nat k) ?x) t" and
    f: "filled (rc_qp c) qs q" and k: "int (length qs) = k" and
    an: "\<forall>v\<in>set qs. answered (calls t) ?x r_ptr v" and slot: "qs = answers is_create_qp (since s t)"
    using inv by (auto simp: qp_inv_def)
  have more: "answers is_create_qp (since s (t\<lparr>calls := calls t @ [(?x, r)], rdma_ctx := z\<rparr>)) = qs @ [r_ptr r]" for r z
    using st by (subst since_more [where t = t and xs = "[(?x, r)]"]) (simp_all add: slot ctx_step_def made_def)
  have ctx: "rdma_ctx t = Some (c\<lparr>rc_qp := q\<rparr>)" "config t = config s"
    using st by (simp_all add: ctx_step_def)
  have same: "init_attr (c\<lparr>rc_qp := q\<rparr>) ty = init_attr c ty"
    by (simp add: init_attr_def)
  have good: "qp_inv s c ?x (int (length qs) + 1) (t\<lparr>calls := calls t @ [(?x, r)],
      rdma_ctx := Some (c\<lparr>rc_qp := Arr b (xs[length qs := r_ptr r])\<rparr>)\<rparr>)"
    if "q = Arr b xs" "length qs < length xs" for b xs r
    unfolding qp_inv_def
    by (rule exI [of _ "qs @ [r_ptr r]"], intro exI)
      (use that st f k an in \<open>auto simp: ctx_step_def made_def nat_add_distrib replicate_append_same more
        intro: filled_set\<close>)
  show ?thesis
    using filled_base [OF f] ct k unfolding qp_body_def
    by (auto simp: wp_simps wp_ctx wp_arr_set ctx same part_result_def intro!: wp_calls good
        split: parr.split) (auto simp: leaves_def untouched_def ctx)
qed

lemma wp_qp_loop:
  assumes c: "rdma_ctx s = Some c" and ct: "qp_type_of (cf_connection_type (config s)) = Some ty"
  shows "wp (for_loop 0 n (qp_body env)) (\<lambda>r t. leaves s c t \<and> part_result p r \<and>
    (r = Ret None \<longrightarrow>
      qp_inv s c (Rdma_create_qp (rc_cm_id c) (rc_pd c) (init_attr c ty)) (max 0 n) t)) s"
  (is "wp _ ?Q s")
proof (rule wp_for_loop [where I =
      "qp_inv s c (Rdma_create_qp (rc_cm_id c) (rc_pd c) (init_attr c ty))"])
  show "qp_inv s c (Rdma_create_qp (rc_cm_id c) (rc_pd c) (init_attr c ty)) 0 s"
    using c unfolding qp_inv_def by (intro exI [of _ "[]"] exI [of _ "rc_qp c"]) simp
next
  fix k t
  assume "0 \<le> k" "qp_inv s c (Rdma_create_qp (rc_cm_id c) (rc_pd c) (init_attr c ty)) k t"
  then show "wp (qp_body env k) (loop_post (qp_inv s c
      (Rdma_create_qp (rc_cm_id c) (rc_pd c) (init_attr c ty)) (k + 1)) ?Q) t"
    by - (rule qp_body_step [OF ct, THEN wp_mono], assumption, erule loop_post_mono; simp)
next
  fix t
  assume "qp_inv s c (Rdma_create_qp (rc_cm_id c) (rc_pd c) (init_attr c ty)) (max 0 n) t"
  then show "?Q (Ret None) t"
    by (simp add: qp_inv_leaves part_result_def)
qed

text \<open>An unknown connection type leaves the function at the first turn, with \<open>return NULL\<close>.\<close>

lemma wp_qp_loop_unknown:
  assumes c: "rdma_ctx s = Some c" and ct: "qp_type_of (cf_connection_type (config s)) = None"
  shows "wp (for_loop 0 n (qp_body env)) (\<lambda>r t. t = s \<and> r = (if 0 < n then Ret (Some (Inl 0)) else Ret None)) s"
  by (rule wp_for_loop [where I = "\<lambda>k t. t = s \<and> k = 0"])
    (auto simp: qp_body_def wp_simps wp_ctx c ct)

text \<open>The memory region loop.\<close>

definition mr_calls :: "addr \<Rightarrow> addr list \<Rightarrow> vcall list" where
  "mr_calls pd bs = concat (map (\<lambda>b. [Memalign BUF_SIZE, Ibv_reg_mr pd b BUF_SIZE mr_flags]) bs)"

lemma mr_calls_snoc [simp]:
  "mr_calls pd (bs @ [b]) = mr_calls pd bs @ [Memalign BUF_SIZE, Ibv_reg_mr pd b BUF_SIZE mr_flags]"
  "mr_calls pd [] = []"
  by (simp_all add: mr_calls_def)

text \<open>Each buffer is an answer of \<open>memalign\<close>, each region the answer to registering the buffer at
  its index.\<close>

definition regions_from :: "addr \<Rightarrow> addr list \<Rightarrow> addr list \<Rightarrow> vcall trace \<Rightarrow> bool" where
  "regions_from pd bs rs tr \<longleftrightarrow> (\<forall>b\<in>set bs. answered tr (Memalign BUF_SIZE) r_ptr b) \<and>
     list_all2 (\<lambda>b r. answered tr (Ibv_reg_mr pd b BUF_SIZE mr_flags) r_ptr r) bs rs"

lemma regions_from_Nil [simp]: "regions_from pd [] [] tr"
  by (simp add: regions_from_def)

lemma regions_from_snoc:
  assumes "regions_from pd bs rs tr" and "length bs = length rs"
  shows "regions_from pd (bs @ [r_ptr a]) (rs @ [r_ptr q])
    (tr @ [(Memalign BUF_SIZE, a), (Ibv_reg_mr pd (r_ptr a) BUF_SIZE mr_flags, q)])"
  using assms by (auto simp: regions_from_def list_all2_conv_all_nth nth_append less_Suc_eq)

definition mr_inv :: "fs_state \<Rightarrow> rdma_context \<Rightarrow> int \<Rightarrow> fs_state \<Rightarrow> bool" where
  "mr_inv s c k t \<longleftrightarrow> (\<exists>bs rs bufs mrs. ctx_step s (c\<lparr>rc_buf := bufs, rc_mr := mrs\<rparr>) (mr_calls (rc_pd c) bs) t \<and>
     filled (rc_buf c) bs bufs \<and> filled (rc_mr c) rs mrs \<and>
     int (length bs) = k \<and> int (length rs) = k \<and> NULL \<notin> set bs \<and> NULL \<notin> set rs \<and>
     regions_from (rc_pd c) bs rs (calls t) \<and>
     bs = answers is_memalign (since s t) \<and> rs = answers is_reg_mr (since s t))"

lemma mr_inv_leaves: "mr_inv s c k t \<Longrightarrow> leaves s c t"
  by (auto simp: mr_inv_def leaves_def ctx_step_def untouched_def dest: filled_base)

lemma mr_body_step:
  assumes inv: "mr_inv s c k t"
  shows "wp (mr_body env k) (loop_post (mr_inv s c (k + 1)) (\<lambda>r t. leaves s c t \<and> part_result p r)) t"
proof -
  obtain bs rs bufs mrs where
    st: "ctx_step s (c\<lparr>rc_buf := bufs, rc_mr := mrs\<rparr>) (mr_calls (rc_pd c) bs) t" and
    f: "filled (rc_buf c) bs bufs" "filled (rc_mr c) rs mrs" and
    k: "int (length bs) = k" "int (length rs) = k" and nz: "NULL \<notin> set bs" "NULL \<notin> set rs" and
    rf: "regions_from (rc_pd c) bs rs (calls t)" and
    slot: "bs = answers is_memalign (since s t)" "rs = answers is_reg_mr (since s t)"
    using inv unfolding mr_inv_def by blast
  have more: "since s (t\<lparr>calls := calls t @ xs, rdma_ctx := z\<rparr>) = since s t @ xs" for xs z
    using st by (subst since_more [where t = t and xs = xs]) (simp_all add: ctx_step_def made_def)
  have lens: "nat k = length bs" "nat k = length rs" "0 \<le> k" using k by auto
  have ctx: "rdma_ctx t = Some (c\<lparr>rc_buf := bufs, rc_mr := mrs\<rparr>)" "config t = config s"
    using st by (simp_all add: ctx_step_def)
  have good: "mr_inv s c (k + 1) (t\<lparr>calls := calls t @ [(Memalign BUF_SIZE, r),
      (Ibv_reg_mr (rc_pd c) (r_ptr r) BUF_SIZE mr_flags, q)],
      rdma_ctx := Some (c\<lparr>rc_buf := Arr b (xs[nat k := r_ptr r]), rc_mr := Arr d (ys[nat k := r_ptr q])\<rparr>)\<rparr>)"
    if "bufs = Arr b xs" "mrs = Arr d ys" "k < int (length xs)" "k < int (length ys)"
      "0 < r_ptr r" "0 < r_ptr q" for b xs d ys r q
    unfolding mr_inv_def
    by (rule exI [of _ "bs @ [r_ptr r]"], rule exI [of _ "rs @ [r_ptr q]"], intro exI)
      (use that st f k nz lens rf in \<open>auto simp: ctx_step_def made_def more slot [symmetric]
        intro: filled_set intro!: regions_from_snoc\<close>)
  show ?thesis
    using filled_base [OF f(1)] filled_base [OF f(2)] unfolding mr_body_def
    by (auto simp: wp_simps wp_ctx wp_arr_set ctx part_result_def intro!: wp_calls good
        split: parr.split) (auto simp: leaves_def untouched_def ctx)
qed

lemma wp_mr_loop:
  assumes c: "rdma_ctx s = Some c"
  shows "wp (for_loop 0 n (mr_body env)) (\<lambda>r t. leaves s c t \<and> part_result p r \<and>
    (r = Ret None \<longrightarrow> mr_inv s c (max 0 n) t)) s"
  (is "wp _ ?Q s")
proof (rule wp_for_loop [where I = "mr_inv s c"])
  have "ctx_step s (c\<lparr>rc_buf := rc_buf c, rc_mr := rc_mr c\<rparr>) [] s"
    using c by simp
  then show "mr_inv s c 0 s"
    unfolding mr_inv_def
    by (intro exI [of _ "[]"] exI [of _ "rc_buf c"] exI [of _ "rc_mr c"]) simp
next
  fix k t
  assume "mr_inv s c k t"
  then show "wp (mr_body env k) (loop_post (mr_inv s c (k + 1)) ?Q) t"
    by (rule mr_body_step [THEN wp_mono]) (erule loop_post_mono; simp)
next
  fix t
  assume "mr_inv s c (max 0 n) t"
  then show "?Q (Ret None) t"
    by (simp add: mr_inv_leaves part_result_def)
qed

section \<open>The body as a whole\<close>

text \<open>A part followed by the rest: both leave the untouched members alone, and what the first
  established is available to the second.\<close>

lemma wp_cont_leaves:
  assumes first: "wp m (\<lambda>r t. leaves s c t \<and> part_result p r \<and> (r = Ret None \<longrightarrow> P t)) s"
    and rest: "\<And>t d. P t \<Longrightarrow> rdma_ctx t = Some d \<Longrightarrow> untouched c d \<Longrightarrow> config t = config s \<Longrightarrow>
      wp n (\<lambda>r u. leaves t d u \<and> part_result p r \<and> (r = Ret None \<longrightarrow> R u)) t"
  shows "wp (contM m n) (\<lambda>r u. leaves s c u \<and> part_result p r \<and> (r = Ret None \<longrightarrow> R u)) s"
  unfolding wp_cont
proof (rule wp_mono [OF first])
  fix r t
  assume rt: "leaves s c t \<and> part_result p r \<and> (r = Ret None \<longrightarrow> P t)"
  then obtain d where d: "rdma_ctx t = Some d" "untouched c d" "config t = config s"
    by (auto simp: leaves_def)
  have "leaves s c u" if "leaves t d u" for u
    using that d by (auto simp: leaves_def intro: untouched_trans)
  then have "r = Ret None \<Longrightarrow>
      wp n (\<lambda>r u. leaves s c u \<and> part_result p r \<and> (r = Ret None \<longrightarrow> R u)) t"
    using rt rest [OF _ d] by (auto elim!: wp_mono)
  then show "loop_post (wp n (\<lambda>r u. leaves s c u \<and> part_result p r \<and> (r = Ret None \<longrightarrow> R u)))
      (\<lambda>r u. leaves s c u \<and> part_result p r \<and> (r = Ret None \<longrightarrow> R u)) r t"
    using rt by (auto simp: loop_post_def part_result_def split: outcome.splits option.splits)
qed

text \<open>All calls of a successful creation, in terms of the parameters, the device found, its
  completion queue limit, the buffers allocated, and the context that results; first the calls
  up to the end of each part of the body.\<close>

definition open_calls :: "rdma_param \<Rightarrow> addr \<Rightarrow> rdma_context \<Rightarrow> vcall list" where
  "open_calls p d c = default_lookup_calls d @
     [Ibv_open_device d, Ibv_query_port (rc_context c) (cf_ib_port p), Ibv_alloc_pd (rc_context c)]"

definition channel_calls :: "rdma_param \<Rightarrow> addr \<Rightarrow> rdma_context \<Rightarrow> vcall list" where
  "channel_calls p d c = open_calls p d c @
     (if cf_use_event p \<noteq> 0 then [Ibv_create_comp_channel (rc_context c)] else [])"

definition cq_calls :: "rdma_param \<Rightarrow> addr \<Rightarrow> int \<Rightarrow> rdma_context \<Rightarrow> vcall list" where
  "cq_calls p d max_cqe c = channel_calls p d c @ Ibv_query_device (rc_context c) #
     replicate 2 (Ibv_create_cq (rc_context c) (min (DEFAULT_BUF_DEPTH * cf_qp_count p) max_cqe)
       (rc_channel c))"

definition setup_calls :: "rdma_param \<Rightarrow> addr \<Rightarrow> int \<Rightarrow> rdma_context \<Rightarrow> vcall list" where
  "setup_calls p d max_cqe c = cq_calls p d max_cqe c @
     (if cf_use_srq p \<noteq> 0 then [Ibv_create_srq (rc_pd c) srq_attr] else [])"

definition resource_calls ::
    "rdma_param \<Rightarrow> addr \<Rightarrow> int \<Rightarrow> ibv_qp_type \<Rightarrow> addr list \<Rightarrow> rdma_context \<Rightarrow> vcall list" where
  "resource_calls p d max_cqe ty bs c = setup_calls p d max_cqe c @
     replicate (nat (cf_qp_count p)) (Rdma_create_qp (rc_cm_id c) (rc_pd c) (init_attr c ty)) @
     mr_calls (rc_pd c) bs"

text \<open>What a successful creation leaves in the context.\<close>

definition resources_ready :: "int \<Rightarrow> addr list \<Rightarrow> rdma_context \<Rightarrow> bool" where
  "resources_ready n bs c \<longleftrightarrow> rc_context c \<noteq> NULL \<and> rc_pd c \<noteq> NULL \<and> rc_send_cq c \<noteq> NULL \<and>
     arr_ok n (rc_qp c) \<and> arr_ok n (rc_mr c) \<and> rc_buf c = Arr (arr_base (rc_buf c)) bs \<and>
     int (length bs) = n \<and> NULL \<notin> set bs \<and>
     (\<exists>b rs. rc_mr c = Arr b rs \<and> NULL \<notin> set rs)"

fun arr_elems :: "parr \<Rightarrow> addr list" where
  "arr_elems Null_arr = []"
| "arr_elems (Arr b xs) = xs"

text \<open>Everything in it is an answer to the call that should have produced it.\<close>

definition resources_from :: "rdma_param \<Rightarrow> addr \<Rightarrow> int \<Rightarrow> ibv_qp_type \<Rightarrow> rdma_context
    \<Rightarrow> vcall trace \<Rightarrow> bool" where
  "resources_from p d m ty c tr \<longleftrightarrow> setup_from p d m c tr \<and>
     (\<forall>q \<in> set (arr_elems (rc_qp c)). answered tr
        (Rdma_create_qp (rc_cm_id c) (rc_pd c) (init_attr c ty)) r_ptr q) \<and>
     regions_from (rc_pd c) (arr_elems (rc_buf c)) (arr_elems (rc_mr c)) tr"

text \<open>Entry \<open>i\<close> of each array is the answer to the \<open>i\<close>-th call that creates such an entry.\<close>

definition slots_from :: "rdma_context \<Rightarrow> vcall trace \<Rightarrow> bool" where
  "slots_from c tr \<longleftrightarrow> arr_elems (rc_qp c) = answers is_create_qp tr \<and>
     arr_elems (rc_buf c) = answers is_memalign tr \<and> arr_elems (rc_mr c) = answers is_reg_mr tr"

definition created :: "rdma_context \<Rightarrow> fs_state \<Rightarrow> fs_state \<Rightarrow> bool" where
  "created c s t \<longleftrightarrow> (\<forall>ty. qp_type_of (cf_connection_type (config s)) = Some ty \<longrightarrow>
     0 \<le> cf_qp_count (config s) \<longrightarrow> arrays_ready (cf_qp_count (config s)) c \<longrightarrow>
     (\<exists>d m bs c'. ctx_step s c' (resource_calls (config s) d m ty bs c') t \<and>
        resources_ready (cf_qp_count (config s)) bs c' \<and>
        resources_from (config s) d m ty c' (calls t) \<and> slots_from c' (since s t)))"

lemma frame_open:
  assumes "c' = c\<lparr>rc_context := rc_context c', rc_port_attr := rc_port_attr c', rc_pd := rc_pd c'\<rparr>"
  shows "rc_cm_id c' = rc_cm_id c" "rc_qp c' = rc_qp c" "rc_mr c' = rc_mr c" "rc_buf c' = rc_buf c"
  by (subst assms, simp)+

lemma frame_channel:
  assumes "c' = c\<lparr>rc_channel := rc_channel c'\<rparr>"
  shows "rc_context c' = rc_context c" "rc_pd c' = rc_pd c" "rc_cm_id c' = rc_cm_id c"
    "rc_qp c' = rc_qp c" "rc_mr c' = rc_mr c" "rc_buf c' = rc_buf c"
  by (subst assms, simp)+

lemma frame_cq:
  assumes "c' = c\<lparr>rc_send_cq := rc_send_cq c', rc_recv_cq := rc_recv_cq c'\<rparr>"
  shows "rc_context c' = rc_context c" "rc_pd c' = rc_pd c" "rc_channel c' = rc_channel c"
    "rc_cm_id c' = rc_cm_id c" "rc_qp c' = rc_qp c" "rc_mr c' = rc_mr c" "rc_buf c' = rc_buf c"
  by (subst assms, simp)+

lemma frame_srq:
  assumes "c' = c\<lparr>rc_srq := rc_srq c'\<rparr>"
  shows "rc_context c' = rc_context c" "rc_pd c' = rc_pd c" "rc_channel c' = rc_channel c"
    "rc_send_cq c' = rc_send_cq c" "rc_recv_cq c' = rc_recv_cq c"
    "rc_cm_id c' = rc_cm_id c" "rc_qp c' = rc_qp c" "rc_mr c' = rc_mr c" "rc_buf c' = rc_buf c"
  by (subst assms, simp)+

text \<open>The two loops together.\<close>

definition looped :: "int \<Rightarrow> ibv_qp_type \<Rightarrow> rdma_context \<Rightarrow> fs_state \<Rightarrow> fs_state \<Rightarrow> bool" where
  "looped n ty c s t \<longleftrightarrow> (\<exists>qs bs rs. ctx_step s
       (c\<lparr>rc_qp := Arr (arr_base (rc_qp c)) qs, rc_buf := Arr (arr_base (rc_buf c)) bs,
         rc_mr := Arr (arr_base (rc_mr c)) rs\<rparr>)
       (replicate (nat n) (Rdma_create_qp (rc_cm_id c) (rc_pd c) (init_attr c ty)) @
         mr_calls (rc_pd c) bs) t \<and>
     int (length qs) = n \<and> int (length bs) = n \<and> int (length rs) = n \<and> NULL \<notin> set bs \<and> NULL \<notin> set rs \<and>
     (\<forall>q\<in>set qs. answered (calls t) (Rdma_create_qp (rc_cm_id c) (rc_pd c) (init_attr c ty)) r_ptr q) \<and>
     regions_from (rc_pd c) bs rs (calls t) \<and> qs = answers is_create_qp (since s t) \<and>
     bs = answers is_memalign (since s t) \<and> rs = answers is_reg_mr (since s t))"

lemma mr_inv_filled:
  assumes "mr_inv s c n t" and "arr_ok n (rc_buf c)" and "arr_ok n (rc_mr c)"
  obtains bs rs where
    "ctx_step s (c\<lparr>rc_buf := Arr (arr_base (rc_buf c)) bs, rc_mr := Arr (arr_base (rc_mr c)) rs\<rparr>)
       (mr_calls (rc_pd c) bs) t"
    "int (length bs) = n" "int (length rs) = n" "NULL \<notin> set bs" "NULL \<notin> set rs"
    "regions_from (rc_pd c) bs rs (calls t)"
    "bs = answers is_memalign (since s t)" "rs = answers is_reg_mr (since s t)"
proof -
  obtain bs rs f m where
    st: "ctx_step s (c\<lparr>rc_buf := f, rc_mr := m\<rparr>) (mr_calls (rc_pd c) bs) t" and
    fl: "filled (rc_buf c) bs f" "filled (rc_mr c) rs m" and
    ln: "int (length bs) = n" "int (length rs) = n" "NULL \<notin> set bs" "NULL \<notin> set rs"
      "regions_from (rc_pd c) bs rs (calls t)"
      "bs = answers is_memalign (since s t)" "rs = answers is_reg_mr (since s t)"
    using assms(1) unfolding mr_inv_def by blast
  have "f = Arr (arr_base (rc_buf c)) bs" "m = Arr (arr_base (rc_mr c)) rs"
    using filled_all [OF fl(1) assms(2) ln(1)] filled_all [OF fl(2) assms(3) ln(2)] .
  with st ln show ?thesis by (intro that [of rs bs]) simp_all
qed

lemma loops_looped:
  assumes qp: "qp_inv s c (Rdma_create_qp (rc_cm_id c) (rc_pd c) (init_attr c ty)) (max 0 n) t"
    and d: "rdma_ctx t = Some d" and mr: "mr_inv t d (max 0 n) u" and n: "0 \<le> n"
    and ok: "arrays_ready n c"
  shows "looped n ty c s u"
proof -
  have max: "max 0 n = n" using n by simp
  let ?x = "Rdma_create_qp (rc_cm_id c) (rc_pd c) (init_attr c ty)"
  have oks: "arr_ok n (rc_qp c)" "arr_ok n (rc_buf c)" "arr_ok n (rc_mr c)"
    using ok by (simp_all add: arrays_ready_def)
  obtain qs q where q: "ctx_step s (c\<lparr>rc_qp := q\<rparr>) (replicate (nat n) ?x) t" and
    f: "filled (rc_qp c) qs q" and qs: "int (length qs) = n" "\<forall>v\<in>set qs. answered (calls t) ?x r_ptr v"
      "qs = answers is_create_qp (since s t)"
    using qp unfolding max qp_inv_def by blast
  have dq: "d = c\<lparr>rc_qp := Arr (arr_base (rc_qp c)) qs\<rparr>"
    using d q filled_all [OF f oks(1) qs(1)] by (simp add: ctx_step_def)
  have "arr_ok n (rc_buf d)" "arr_ok n (rc_mr d)"
    using oks by (simp_all add: dq)
  with mr [unfolded max] obtain bs rs where
    b: "ctx_step t (d\<lparr>rc_buf := Arr (arr_base (rc_buf d)) bs, rc_mr := Arr (arr_base (rc_mr d)) rs\<rparr>)
      (mr_calls (rc_pd d) bs) u"
    "int (length bs) = n" "int (length rs) = n" "NULL \<notin> set bs" "NULL \<notin> set rs"
    "regions_from (rc_pd d) bs rs (calls u)"
    "bs = answers is_memalign (since t u)" "rs = answers is_reg_mr (since t u)"
    by (rule mr_inv_filled)
  have made: "made s t (replicate (nat n) ?x)" "made t u (mr_calls (rc_pd d) bs)"
    using q b(1) by (simp_all add: ctx_step_def)
  then have "since s u = since s t @ since t u" by (intro since_trans) (simp_all add: made_def)
  moreover have "answers is_memalign (since s t) = []" "answers is_reg_mr (since s t) = []"
    "answers is_create_qp (since t u) = []"
    by (rule answers_none [OF made(1)] answers_none [OF made(2)], simp add: list_all_iff mr_calls_def)+
  ultimately have slots: "qs = answers is_create_qp (since s u)" "bs = answers is_memalign (since s u)"
    "rs = answers is_reg_mr (since s u)"
    using qs(3) b(7,8) by simp_all
  have "\<forall>v\<in>set qs. answered (calls u) ?x r_ptr v"
    using qs(2) b(1) by (auto simp: ctx_step_def made_def intro: answered_mono)
  then show ?thesis
    unfolding looped_def
    using ctx_step_trans [OF q b(1)] qs(1) b(2-6) slots
    by (intro exI [of _ qs] exI [of _ bs] exI [of _ rs] conjI) (simp_all add: dq)
qed

lemma wp_loops:
  assumes c: "rdma_ctx s = Some c"
  shows "wp (contM (for_loop 0 n (qp_body env)) (for_loop 0 n (mr_body env)))
    (\<lambda>r t. leaves s c t \<and> part_result (config s) r \<and> (r = Ret None \<longrightarrow>
      (\<forall>ty. qp_type_of (cf_connection_type (config s)) = Some ty \<longrightarrow> 0 \<le> n \<longrightarrow> arrays_ready n c \<longrightarrow>
        looped n ty c s t))) s"
proof (cases "qp_type_of (cf_connection_type (config s))")
  case None
  have "wp (for_loop 0 n (qp_body env))
      (\<lambda>r t. leaves s c t \<and> part_result (config s) r \<and> (r = Ret None \<longrightarrow> True)) s"
    by (rule wp_mono [OF wp_qp_loop_unknown [OF c None]])
      (auto simp: leaves_def c part_result_def None split: if_splits)
  then show ?thesis
    by (rule wp_cont_leaves) (rule wp_mono [OF wp_mr_loop [where p = "config s"]], assumption, simp add: None)
next
  case (Some ty)
  show ?thesis
  proof (rule wp_cont_leaves [OF wp_qp_loop [OF c Some]])
    fix t d
    assume q: "qp_inv s c (Rdma_create_qp (rc_cm_id c) (rc_pd c) (init_attr c ty)) (max 0 n) t"
      and d: "rdma_ctx t = Some d"
    show "wp (for_loop 0 n (mr_body env)) (\<lambda>r u. leaves t d u \<and> part_result (config s) r \<and>
      (r = Ret None \<longrightarrow> (\<forall>ty. qp_type_of (cf_connection_type (config s)) = Some ty \<longrightarrow>
       0 \<le> n \<longrightarrow> arrays_ready n c \<longrightarrow> looped n ty c s u))) t"
      by (rule wp_mono [OF wp_mr_loop [OF d]]) (auto simp: Some intro: loops_looped [OF q d])
  qed
qed

text \<open>The part of the body before the loops, stage by stage: the calls so far and where the members
  come from.\<close>

definition stage :: "(rdma_context \<Rightarrow> vcall list) \<Rightarrow> (rdma_context \<Rightarrow> vcall trace \<Rightarrow> bool) \<Rightarrow> rdma_context
    \<Rightarrow> fs_state \<Rightarrow> fs_state \<Rightarrow> bool" where
  "stage xs X c s t \<longleftrightarrow> (\<exists>c'. ctx_step s c' (xs c') t \<and> X c' (calls t) \<and> rc_cm_id c' = rc_cm_id c \<and>
     rc_qp c' = rc_qp c \<and> rc_mr c' = rc_mr c \<and> rc_buf c' = rc_buf c \<and>
     rc_context c' \<noteq> NULL \<and> rc_pd c' \<noteq> NULL)"

lemma stage_next:
  assumes t: "stage xs X c s t" "rdma_ctx t = Some d" and u: "ctx_step t d' zs u"
    and same: "rc_cm_id d' = rc_cm_id d" "rc_qp d' = rc_qp d" "rc_mr d' = rc_mr d"
      "rc_buf d' = rc_buf d" "rc_context d' = rc_context d" "rc_pd d' = rc_pd d"
    and calls: "ys d' = xs d @ zs"
    and prov: "X d (calls t) \<Longrightarrow> prefix (calls t) (calls u) \<Longrightarrow> Y d' (calls u)"
  shows "stage ys Y c s u"
proof -
  have "ctx_step s d (xs d) t" and X: "X d (calls t)" using t by (auto simp: stage_def ctx_step_def)
  then have "ctx_step s d' (ys d') u" unfolding calls using u by (blast intro: ctx_step_trans)
  moreover have "Y d' (calls u)" using X u by (intro prov) (simp_all add: ctx_step_def made_def)
  ultimately show ?thesis using t same by (auto simp: stage_def ctx_step_def)
qed

lemma stage_config: "stage xs X c s t \<Longrightarrow> config t = config s"
  by (auto simp: stage_def ctx_step_def)

lemma open_stage:
  assumes c: "rdma_ctx s = Some c"
  shows "wp (open_part env) (\<lambda>r t. leaves s c t \<and> part_result (config s) r \<and>
    (r = Ret None \<longrightarrow> (\<exists>d. stage (open_calls (config s) d) (open_from d) c s t))) s"
proof (rule wp_mono [OF wp_open_part [OF c]], elim conjE, intro conjI impI)
  fix r t
  assume "r = Ret None \<longrightarrow> (\<exists>d c'. ctx_step s c' (default_lookup_calls d @ [Ibv_open_device d,
        Ibv_query_port (rc_context c') (cf_ib_port (config s)), Ibv_alloc_pd (rc_context c')]) t \<and>
      c' = c\<lparr>rc_context := rc_context c', rc_port_attr := rc_port_attr c', rc_pd := rc_pd c'\<rparr> \<and>
      rc_context c' \<noteq> NULL \<and> rc_pd c' \<noteq> NULL \<and> open_from d c' (calls t))" and "r = Ret None"
  then obtain d c' where "ctx_step s c' (open_calls (config s) d c') t"
    and e: "c' = c\<lparr>rc_context := rc_context c', rc_port_attr := rc_port_attr c', rc_pd := rc_pd c'\<rparr>"
    and "rc_context c' \<noteq> NULL" "rc_pd c' \<noteq> NULL" "open_from d c' (calls t)"
    by (auto simp: open_calls_def)
  then show "\<exists>d. stage (open_calls (config s) d) (open_from d) c s t"
    using frame_open [OF e] by (auto simp: stage_def)
qed

lemma channel_stage:
  assumes t: "stage (open_calls (config s) d) (open_from d) c s t" and d: "rdma_ctx t = Some d'"
  shows "wp (channel_part env) (\<lambda>r u. leaves t d' u \<and> part_result (config s) r \<and>
    (r = Ret None \<longrightarrow> stage (channel_calls (config s) d) (channel_stage_from (config s) d) c s u)) t"
proof (rule wp_mono [OF wp_channel_part [OF d, where p = "config s"]], elim conjE, intro conjI impI)
  fix r u
  assume "r = Ret None \<longrightarrow> (\<exists>c'. ctx_step t c' (if cf_use_event (config t) \<noteq> 0
      then [Ibv_create_comp_channel (rc_context d')] else []) u \<and>
      c' = d'\<lparr>rc_channel := rc_channel c'\<rparr> \<and> channel_from (config t) c' (calls u))" and "r = Ret None"
  then obtain c' where u: "ctx_step t c' (if cf_use_event (config t) \<noteq> 0
      then [Ibv_create_comp_channel (rc_context d')] else []) u"
    and e: "c' = d'\<lparr>rc_channel := rc_channel c'\<rparr>" and ch: "channel_from (config t) c' (calls u)"
    by blast
  note same = frame_channel [OF e]
  show "stage (channel_calls (config s) d) (channel_stage_from (config s) d) c s u"
    by (rule stage_next [OF t d u]) (use ch in \<open>simp_all add: same channel_calls_def open_calls_def
        stage_config [OF t] channel_stage_from_def open_from_stable\<close>)
qed auto

lemma cq_stage:
  assumes t: "stage (channel_calls (config s) d) (channel_stage_from (config s) d) c s t"
    and d: "rdma_ctx t = Some d'"
  shows "wp (cq_part env) (\<lambda>r u. leaves t d' u \<and> part_result (config s) r \<and>
    (r = Ret None \<longrightarrow> (\<exists>m. stage (cq_calls (config s) d m) (cq_stage_from (config s) d m) c s u \<and>
      (\<forall>c. rdma_ctx u = Some c \<longrightarrow> rc_send_cq c \<noteq> NULL)))) t"
proof (rule wp_mono [OF wp_cq_part [OF d, where p = "config s"]], elim conjE, intro conjI impI)
  fix r u
  assume "r = Ret None \<longrightarrow> (\<exists>m c'. ctx_step t c' (Ibv_query_device (rc_context d') #
        replicate 2 (Ibv_create_cq (rc_context d')
          (min (DEFAULT_BUF_DEPTH * cf_qp_count (config t)) m) (rc_channel d'))) u \<and>
      c' = d'\<lparr>rc_send_cq := rc_send_cq c', rc_recv_cq := rc_recv_cq c'\<rparr> \<and>
      rc_send_cq c' \<noteq> NULL \<and> c_int (DEFAULT_BUF_DEPTH * cf_qp_count (config t)) \<and>
      cq_from (config t) m c' (calls u))" and "r = Ret None"
  then obtain m c' where u: "ctx_step t c' (Ibv_query_device (rc_context d') #
        replicate 2 (Ibv_create_cq (rc_context d')
          (min (DEFAULT_BUF_DEPTH * cf_qp_count (config t)) m) (rc_channel d'))) u"
    and e: "c' = d'\<lparr>rc_send_cq := rc_send_cq c', rc_recv_cq := rc_recv_cq c'\<rparr>"
    and cq: "rc_send_cq c' \<noteq> NULL" "cq_from (config t) m c' (calls u)"
    by blast
  note same = frame_cq [OF e]
  have "stage (cq_calls (config s) d m) (cq_stage_from (config s) d m) c s u"
    by (rule stage_next [OF t d u]) (use cq(2) in \<open>simp_all add: same cq_calls_def channel_calls_def
      open_calls_def stage_config [OF t] cq_stage_from_def channel_stage_from_stable\<close>)
  then show "\<exists>m. stage (cq_calls (config s) d m) (cq_stage_from (config s) d m) c s u \<and>
      (\<forall>c. rdma_ctx u = Some c \<longrightarrow> rc_send_cq c \<noteq> NULL)"
    using cq(1) ctx_step_ctx [OF u] by auto
qed auto

lemma srq_stage:
  assumes t: "stage (cq_calls (config s) d m) (cq_stage_from (config s) d m) c s t"
      "\<And>c. rdma_ctx t = Some c \<Longrightarrow> rc_send_cq c \<noteq> NULL"
    and d: "rdma_ctx t = Some d'"
  shows "wp (srq_part env) (\<lambda>r u. leaves t d' u \<and> part_result (config s) r \<and>
    (r = Ret None \<longrightarrow> stage (setup_calls (config s) d m) (setup_from (config s) d m) c s u \<and>
      (\<forall>c. rdma_ctx u = Some c \<longrightarrow> rc_send_cq c \<noteq> NULL))) t"
proof (rule wp_mono [OF wp_srq_part [OF d, where p = "config s"]], elim conjE, intro conjI impI)
  fix r u
  assume "r = Ret None \<longrightarrow> (\<exists>c'. ctx_step t c' (if cf_use_srq (config t) \<noteq> 0
      then [Ibv_create_srq (rc_pd d') srq_attr] else []) u \<and> c' = d'\<lparr>rc_srq := rc_srq c'\<rparr> \<and>
      srq_from (config t) c' (calls u))"
    and "r = Ret None"
  then obtain c' where u: "ctx_step t c' (if cf_use_srq (config t) \<noteq> 0
      then [Ibv_create_srq (rc_pd d') srq_attr] else []) u" and e: "c' = d'\<lparr>rc_srq := rc_srq c'\<rparr>"
    and srq: "srq_from (config t) c' (calls u)"
    by blast
  note same = frame_srq [OF e]
  show "stage (setup_calls (config s) d m) (setup_from (config s) d m) c s u"
    by (rule stage_next [OF t(1) d u]) (use srq in \<open>simp_all add: same setup_calls_def cq_calls_def
        channel_calls_def open_calls_def stage_config [OF t(1)] setup_from_def cq_stage_from_stable\<close>)
  show "\<forall>c. rdma_ctx u = Some c \<longrightarrow> rc_send_cq c \<noteq> NULL"
    using t(2) [OF d] same(4) ctx_step_ctx [OF u] by simp
qed auto

lemma loops_stage:
  assumes t: "stage (setup_calls (config s) d m) (setup_from (config s) d m) c s t" and d: "rdma_ctx t = Some d'"
    and scq: "rc_send_cq d' \<noteq> NULL"
  shows "wp (bindM (cfg cf_qp_count)
      (\<lambda>n. contM (for_loop 0 n (qp_body env)) (for_loop 0 n (mr_body env))))
    (\<lambda>r u. leaves t d' u \<and> part_result (config s) r \<and> (r = Ret None \<longrightarrow> created c s u)) t"
proof -
  let ?n = "cf_qp_count (config s)"
  have cf: "config t = config s" by (rule stage_config [OF t])
  have st: "ctx_step s d' (setup_calls (config s) d m d') t" "rc_cm_id d' = rc_cm_id c"
    "rc_qp d' = rc_qp c" "rc_mr d' = rc_mr c" "rc_buf d' = rc_buf c"
    "rc_context d' \<noteq> NULL" "rc_pd d' \<noteq> NULL" "setup_from (config s) d m d' (calls t)"
    using t d by (auto simp: stage_def ctx_step_def)
  have same: "setup_calls (config s) d m (d'\<lparr>rc_qp := q, rc_buf := b, rc_mr := r\<rparr>) =
      setup_calls (config s) d m d'" "init_attr (d'\<lparr>rc_qp := q, rc_buf := b, rc_mr := r\<rparr>) ty = init_attr d' ty"
    for q b r ty
    by (simp_all add: setup_calls_def cq_calls_def channel_calls_def open_calls_def init_attr_def)
  have fin: "created c s u" if lp: "\<And>ty. qp_type_of (cf_connection_type (config s)) = Some ty \<Longrightarrow>
      0 \<le> ?n \<Longrightarrow> arrays_ready ?n d' \<Longrightarrow> looped ?n ty d' t u" for u
    unfolding created_def
  proof (intro allI impI)
    fix ty
    assume ty: "qp_type_of (cf_connection_type (config s)) = Some ty" and n: "0 \<le> ?n"
      and ok: "arrays_ready ?n c"
    have ok': "arrays_ready ?n d'"
      using ok st by (simp add: arrays_ready_def)
    let ?x = "Rdma_create_qp (rc_cm_id d') (rc_pd d') (init_attr d' ty)"
    let ?c' = "\<lambda>qs bs rs. d'\<lparr>rc_qp := Arr (arr_base (rc_qp d')) qs, rc_buf := Arr (arr_base (rc_buf d')) bs,
          rc_mr := Arr (arr_base (rc_mr d')) rs\<rparr>"
    obtain qs bs rs where l: "ctx_step t (?c' qs bs rs) (replicate (nat ?n) ?x @ mr_calls (rc_pd d') bs) u"
      "int (length qs) = ?n" "int (length bs) = ?n" "int (length rs) = ?n" "NULL \<notin> set bs" "NULL \<notin> set rs"
      "\<forall>q\<in>set qs. answered (calls u) ?x r_ptr q" "regions_from (rc_pd d') bs rs (calls u)"
      "qs = answers is_create_qp (since t u)" "bs = answers is_memalign (since t u)" "rs = answers is_reg_mr (since t u)"
      using lp [OF ty n ok'] unfolding looped_def by blast
    have base: "arr_base (rc_mr d') \<noteq> NULL" "arr_base (rc_qp d') \<noteq> NULL"
      using ok' by (auto simp: arrays_ready_def arr_ok_def)
    have "ctx_step s (?c' qs bs rs) (resource_calls (config s) d m ty bs (?c' qs bs rs)) u"
      using ctx_step_trans [OF st(1) l(1)] by (simp add: resource_calls_def same)
    moreover have "resources_ready ?n bs (?c' qs bs rs)"
      using l(2-6) st(6,7) scq base by (simp add: resources_ready_def arr_ok_def)
    moreover have "resources_from (config s) d m ty (?c' qs bs rs) (calls u)"
      using setup_from_stable [OF st(8), of "calls u"] l(1,7,8) by (simp add: resources_from_def same
          ctx_step_def made_def)
    moreover have "slots_from (?c' qs bs rs) (since s u)"
    proof -
      have made: "made s t (setup_calls (config s) d m d')" using st(1) by (simp add: ctx_step_def)
      have "since s u = since s t @ since t u"
        using made l(1) by (intro since_trans) (simp_all add: made_def ctx_step_def)
      moreover have "answers is_memalign (since s t) = []" "answers is_reg_mr (since s t) = []"
        "answers is_create_qp (since s t) = []"
        by (rule answers_none [OF made], simp add: setup_calls_def cq_calls_def channel_calls_def
          open_calls_def default_lookup_calls_def numeral_2_eq_2)+
      ultimately show ?thesis using l(9-11) by (simp add: slots_from_def)
    qed
    ultimately show "\<exists>d m bs c'. ctx_step s c' (resource_calls (config s) d m ty bs c') u \<and>
        resources_ready ?n bs c' \<and> resources_from (config s) d m ty c' (calls u) \<and> slots_from c' (since s u)"
      by blast
  qed
  show ?thesis
    unfolding wp_bind wp_cfg after_Ret cf
    by (rule wp_mono [OF wp_loops [OF d]]) (auto simp: cf intro: fin)
qed

lemma wp_create_body:
  assumes c: "rdma_ctx s = Some c"
  shows "wp (create_body env) (\<lambda>r t. leaves s c t \<and> part_result (config s) r \<and>
    (r = Ret None \<longrightarrow> created c s t)) s"
  unfolding create_body_def
  by (rule wp_cont_leaves [OF open_stage [OF c]], erule exE,
      rule wp_cont_leaves [OF channel_stage], assumption+,
      rule wp_cont_leaves [OF cq_stage], assumption+, elim exE conjE,
      rule wp_cont_leaves [OF srq_stage], assumption+, blast, assumption, elim conjE,
      rule loops_stage, assumption+, blast)

section \<open>When creating cannot fault\<close>

text \<open>\<open>settles P m s\<close>: the outcome of \<open>m\<close> satisfies \<open>P\<close>.\<close>

definition settles :: "('a outcome \<Rightarrow> bool) \<Rightarrow> ('s, 'a) cmd \<Rightarrow> 's \<Rightarrow> bool" where
  "settles P m s \<longleftrightarrow> wp m (\<lambda>r _. P r) s"

abbreviation returns :: "('s, 'a) cmd \<Rightarrow> 's \<Rightarrow> bool" where
  "returns \<equiv> settles (\<lambda>r. \<exists>x. r = Ret x)"

lemma settles_cont:
  assumes first: "wp m (\<lambda>r t. leaves s c t \<and> part_result p r \<and> (r = Ret None \<longrightarrow> Q t)) s"
    and now: "settles P m s"
    and rest: "\<And>t d. Q t \<Longrightarrow> rdma_ctx t = Some d \<Longrightarrow> untouched c d \<Longrightarrow> config t = config s \<Longrightarrow>
      settles P n t"
  shows "settles P (contM m n) s"
proof -
  have "wp m (\<lambda>r t. (leaves s c t \<and> part_result p r \<and> (r = Ret None \<longrightarrow> Q t)) \<and> P r) s"
    using first now by (simp add: wp_conj settles_def)
  then show ?thesis
    unfolding settles_def wp_cont
    by (rule wp_mono)
      (auto simp: leaves_def loop_post_def split: option.splits outcome.splits intro: rest [unfolded settles_def])
qed

text \<open>So the outcome of the whole body is settled by what settles that of each part.\<close>

lemma create_body_settles:
  assumes c: "rdma_ctx s = Some c" and ok: "arrays_ready (cf_qp_count (config s)) c"
    and open_p: "settles P (open_part env) s"
    and channel_p: "\<And>t d. rdma_ctx t = Some d \<Longrightarrow> settles P (channel_part env) t"
    and cq_p: "\<And>t d. rdma_ctx t = Some d \<Longrightarrow> config t = config s \<Longrightarrow> settles P (cq_part env) t"
    and srq_p: "\<And>t d. rdma_ctx t = Some d \<Longrightarrow> settles P (srq_part env) t"
    and qp_p: "\<And>t d. rdma_ctx t = Some d \<Longrightarrow> config t = config s \<Longrightarrow> rc_cm_id d = rc_cm_id c \<Longrightarrow>
      arr_ok (cf_qp_count (config s)) (rc_qp d) \<Longrightarrow>
      settles P (for_loop 0 (cf_qp_count (config s)) (qp_body env)) t"
    and mr_p: "\<And>t d. rdma_ctx t = Some d \<Longrightarrow> arr_ok (cf_qp_count (config s)) (rc_buf d) \<Longrightarrow>
      arr_ok (cf_qp_count (config s)) (rc_mr d) \<Longrightarrow>
      settles P (for_loop 0 (cf_qp_count (config s)) (mr_body env)) t"
  shows "settles P (create_body env) s"
proof -
  let ?n = "cf_qp_count (config s)"
  have loops: "settles P (bindM (cfg cf_qp_count)
      (\<lambda>n. contM (for_loop 0 n (qp_body env)) (for_loop 0 n (mr_body env)))) t"
    if t: "stage (setup_calls (config s) d m) (setup_from (config s) d m) c s t" "rdma_ctx t = Some c'" for t c' d m
  proof -
    have c': "arrays_ready ?n c'" "rc_cm_id c' = rc_cm_id c"
      using t ok by (auto simp: stage_def ctx_step_def arrays_ready_def)
    have first: "wp (for_loop 0 ?n (qp_body env)) (\<lambda>r u. leaves t c' u \<and> part_result (config t) r \<and>
        (r = Ret None \<longrightarrow> (\<exists>q. rdma_ctx u = Some (c'\<lparr>rc_qp := q\<rparr>)))) t"
    proof (cases "qp_type_of (cf_connection_type (config t))")
      case None
      have "\<exists>q. c' = c'\<lparr>rc_qp := q\<rparr>" by (rule exI [of _ "rc_qp c'"]) simp
      then show ?thesis
        by (intro wp_mono [OF wp_qp_loop_unknown [OF t(2) None]])
          (auto simp: leaves_def t(2) part_result_def None split: if_splits)
    next
      case (Some ty)
      show ?thesis
        by (rule wp_mono [OF wp_qp_loop [OF t(2) Some]]) (auto elim!: qp_invE dest: ctx_step_ctx)
    qed
    have "settles P (contM (for_loop 0 ?n (qp_body env)) (for_loop 0 ?n (mr_body env))) t"
      by (rule settles_cont [OF first])
        (use c' t in \<open>auto simp: arrays_ready_def stage_config intro: qp_p mr_p\<close>)
    then show ?thesis
      using stage_config [OF t(1)] by (simp add: settles_def wp_bind)
  qed
  show ?thesis
    unfolding create_body_def
    by (rule settles_cont [OF open_stage [OF c] open_p], erule exE,
        rule settles_cont [OF channel_stage channel_p], assumption+,
        rule settles_cont [OF cq_stage cq_p], assumption+,
        simp add: stage_config, elim exE conjE,
        rule settles_cont [OF srq_stage srq_p], assumption+, blast, assumption+,
        elim conjE, rule loops, assumption+)
qed

text \<open>What is assumed of the libraries: a listed device has a name, and memory for the buffers
  is available.  Everything else may fail.\<close>

definition named_and_roomy :: "vcall env \<Rightarrow> bool" where
  "named_and_roomy env \<longleftrightarrow> (\<forall>tr d. r_str (env tr (Ibv_get_device_name d)) \<noteq> None) \<and>
     (\<forall>tr. r_ptr (env tr (Memalign BUF_SIZE)) \<noteq> NULL)"

lemma open_returns:
  assumes "named_and_roomy env" and c: "rdma_ctx s = Some c"
  shows "returns (open_part env) s"
proof -
  have named: "wp (device_name env d) (\<lambda>r t. \<exists>n. r = Ret n \<and> rdma_ctx t = rdma_ctx u) u"
    for d and u :: fs_state
  proof -
    obtain n where "r_str (env (calls u) (Ibv_get_device_name d)) = Some n"
      using assms(1) unfolding named_and_roomy_def by blast
    then show ?thesis by (simp add: device_name_def wp_simps wp_ext_eq)
  qed
  have "wp (fs_rdma_find_dev env None) (\<lambda>r t. (\<exists>x. r = Ret x) \<and> rdma_ctx t = Some c) s"
    unfolding fs_rdma_find_dev_def
    by (auto simp: wp_simps dev_at_def c intro!: wp_calls wp_mono [OF named])
  then show ?thesis
    unfolding settles_def open_part_def wp_bind
    by (rule wp_mono) (auto simp: wp_simps wp_ctx intro!: wp_calls)
qed

lemma channel_returns: "rdma_ctx s = Some c \<Longrightarrow> returns (channel_part env) s"
  unfolding settles_def channel_part_def by (auto simp: wp_simps wp_ctx intro!: wp_calls)

lemma cq_returns: "rdma_ctx s = Some c \<Longrightarrow> c_int (DEFAULT_BUF_DEPTH * cf_qp_count (config s)) \<Longrightarrow>
    returns (cq_part env) s"
  unfolding settles_def cq_part_def Let_def
  by (auto simp: wp_simps wp_ctx wp_c_mul intro!: wp_calls)

lemma srq_returns: "rdma_ctx s = Some c \<Longrightarrow> returns (srq_part env) s"
  unfolding settles_def srq_part_def by (auto simp: wp_simps wp_ctx intro!: wp_calls)

lemma qp_loop_returns:
  assumes c: "rdma_ctx s = Some c" and q: "arr_ok n (rc_qp c)" and id: "rc_cm_id c \<noteq> NULL"
  shows "returns (for_loop 0 n (qp_body env)) s"
proof (cases "qp_type_of (cf_connection_type (config s))")
  case None
  show ?thesis
    unfolding settles_def by (rule wp_mono [OF wp_qp_loop_unknown [OF c None]]) (auto split: if_splits)
next
  case (Some ty)
  let ?I = "\<lambda>t. \<exists>a. arr_ok n a \<and> rdma_ctx t = Some (c\<lparr>rc_qp := a\<rparr>) \<and> config t = config s"
  have start: "?I s" using c q by (intro exI [of _ "rc_qp c"]) simp
  have turn: "wp (qp_body env k) (loop_post ?I (\<lambda>r _. \<exists>x. r = Ret x)) t"
    if "0 \<le> k" "k < n" and t: "?I t" for k t
  proof -
    obtain b xs where a: "0 < b" "int (length xs) = n" "rdma_ctx t = Some (c\<lparr>rc_qp := Arr b xs\<rparr>)"
      "config t = config s"
      using t by (auto simp: arr_ok_def)
    have upd: "\<exists>a. arr_ok (int (length xs)) a \<and> c\<lparr>rc_qp := Arr b (xs[i := v])\<rparr> = c\<lparr>rc_qp := a\<rparr>" for i v
      using a by (intro exI [of _ "Arr b (xs[i := v])"]) (simp add: arr_ok_def)
    show ?thesis
      using that(1,2) a id unfolding qp_body_def
      by (auto simp: wp_simps wp_ctx wp_arr_set Some upd intro!: wp_calls)
  qed
  show ?thesis
    unfolding settles_def
    by (rule wp_for_loop [where I = "\<lambda>_. ?I"]) (use start turn in auto)
qed

lemma mr_loop_returns:
  assumes env: "named_and_roomy env" and c: "rdma_ctx s = Some c"
    and ok: "arr_ok n (rc_buf c)" "arr_ok n (rc_mr c)"
  shows "returns (for_loop 0 n (mr_body env)) s"
proof -
  have roomy: "r_ptr (env tr (Memalign BUF_SIZE)) \<noteq> 0" for tr
    using env by (simp add: named_and_roomy_def)
  let ?I = "\<lambda>t. \<exists>d. rdma_ctx t = Some d \<and> arr_ok n (rc_buf d) \<and> arr_ok n (rc_mr d)"
  have turn: "wp (mr_body env k) (loop_post ?I (\<lambda>r _. \<exists>x. r = Ret x)) t"
    if "0 \<le> k" "k < n" and t: "?I t" for k t
  proof -
    obtain d b xs e ys where d: "rdma_ctx t = Some d" "rc_buf d = Arr b xs" "rc_mr d = Arr e ys"
      "0 < b" "0 < e" "int (length xs) = n" "int (length ys) = n"
      using t by (auto simp: arr_ok_def)
    show ?thesis
      using that(1,2) d roomy unfolding mr_body_def
      by (auto simp: wp_simps wp_ctx wp_arr_set wp_call_ptr_eq arr_ok_def)
  qed
  show ?thesis
    unfolding settles_def
    by (rule wp_for_loop [where I = "\<lambda>_. ?I"]) (use c ok turn in auto)
qed

lemma create_body_returns:
  assumes env: "named_and_roomy env" and c: "rdma_ctx s = Some c"
    and ok: "arrays_ready (cf_qp_count (config s)) c" and id: "rc_cm_id c \<noteq> NULL"
    and n: "c_int (DEFAULT_BUF_DEPTH * cf_qp_count (config s))"
  shows "returns (create_body env) s"
proof (rule create_body_settles [OF c ok open_returns [OF env c]])
  fix t :: fs_state and d
  assume t: "rdma_ctx t = Some d"
  show "returns (channel_part env) t" and "returns (srq_part env) t"
    using t by (rule channel_returns srq_returns)+
  show "returns (cq_part env) t" if "config t = config s"
    using t by (rule cq_returns) (simp add: that n)
  show "returns (for_loop 0 (cf_qp_count (config s)) (qp_body env)) t"
    if "rc_cm_id d = rc_cm_id c" "arr_ok (cf_qp_count (config s)) (rc_qp d)"
    using t that(2) by (rule qp_loop_returns) (use that(1) id in simp)
  show "returns (for_loop 0 (cf_qp_count (config s)) (mr_body env)) t"
    if "arr_ok (cf_qp_count (config s)) (rc_buf d)" "arr_ok (cf_qp_count (config s)) (rc_mr d)"
    using t that by (rule mr_loop_returns [OF env])
qed

section \<open>From the body to the function\<close>

lemma create_resources_cases:
  assumes run: "fs_rdma_create_resources env s = (r, t)" and c: "rdma_ctx s = Some c"
  obtains (done_) "r = Ret 0" "create_body env s = (Ret None, t)" "created c s t"
  | (unknown) "r = Ret 0" "create_body env s = (Ret (Some (Inl 0)), t)"
      "qp_type_of (cf_connection_type (config s)) = None"
  | (failed) u d where "r = Ret (- 1)" "create_body env s = (Ret (Some (Inr (- 1))), u)"
      "rdma_ctx u = Some d" "untouched c d" "config u = config s"
      "ctx_step u (cleaned (cf_qp_count (config s)) d)
         (cleanup_calls (cf_qp_count (config s)) d) t"
  | (fault) f where "r = Stop (Faulted f)" "create_body env s = (Stop (Faulted f), t)"
proof -
  obtain j u where j: "create_body env s = (j, u)" by fastforce
  have b: "leaves s c u" "part_result (config s) j" "j = Ret None \<Longrightarrow> created c s u"
    using wpD [OF wp_create_body [OF c] j] by auto
  have run': "r = fst (fs_rdma_create_resources env s)" "t = snd (fs_rdma_create_resources env s)"
    using run by simp_all
  obtain d where d: "rdma_ctx u = Some d" "untouched c d" "config u = config s"
    using b(1) by (auto simp: leaves_def)
  consider "j = Ret None" | "j = Ret (Some (Inr (- 1)))"
    | "j = Ret (Some (Inl 0))" "qp_type_of (cf_connection_type (config s)) = None"
    | f where "j = Stop (Faulted f)"
    using b(2) by (auto simp: part_result_def)
  then show ?thesis
  proof cases
    case 1
    with j run show ?thesis
      by (intro done_) (use b(3) in \<open>auto simp: fs_rdma_create_resources_def bindM_def retM_def\<close>)
  next
    case 2
    have cl: "fst (out_cleanup env u) = Ret ()"
      "ctx_step u (cleaned (cf_qp_count (config s)) d) (cleanup_calls (cf_qp_count (config s)) d)
         (snd (out_cleanup env u))"
      using doesD [OF does_cleanup d(1) d(3)] by blast+
    then have "r = Ret (- 1)" "t = snd (out_cleanup env u)"
      using run 2 j by (auto simp: fs_rdma_create_resources_def bindM_def thenM_def retM_def
          split: prod.splits)
    with cl d j 2 show ?thesis by (intro failed [of u d]) simp_all
  next
    case 3
    with j run show ?thesis
      by (intro unknown) (auto simp: fs_rdma_create_resources_def bindM_def retM_def)
  next
    case 4
    with j run show ?thesis
      by (intro fault [of f]) (auto simp: fs_rdma_create_resources_def bindM_def)
  qed
qed

lemma teardown_run:
  assumes "rdma_ctx s = Some c"
  shows "fst (fs_rdma_teardown env s) = Ret 0 \<and>
    ctx_step s (torn_down (cf_qp_count (config s)) c)
      (teardown_calls (cf_qp_count (config s)) c) (snd (fs_rdma_teardown env s))"
  using doesD [OF does_teardown assms refl] .

end
