(* ===== verification/Cm_Events.thy ===== *)
theory Cm_Events
  imports Event_Loop Resource_Creation
begin

text \<open>
  The connection manager events of \<open>src/src/c/transport.c\<close>: the six handlers and the loop
  \<open>fs_rdma_cm_event_handler\<close> that dispatches to them, and the life of a connection as the
  loop drives it.

  Readings: \<open>fs_rdma_cm_handle_connect_init\<close> uses a \<open>ret\<close> it does not declare, a local of type
  \<open>int\<close> starting at 0; its \<open>cm_id\<close> is a local that is never read; \<open>conn_param\<close> of the
  connect request handler is a local of the type its neighbour declares, and \<open>event_copy\<close> a
  buffer for one event.  Diagnostic output is not modelled.
\<close>

section \<open>Handlers\<close>

definition fs_rdma_cm_handle_disconnect :: "vcall env \<Rightarrow> (fs_state, unit) cmd" where
  "fs_rdma_cm_handle_disconnect env = bindM (fs_rdma_teardown env) (\<lambda>_. retM ())"

definition fs_rdma_cm_handle_event_error :: "vcall env \<Rightarrow> (fs_state, int) cmd" where
  "fs_rdma_cm_handle_event_error env = thenM (fs_rdma_cm_handle_disconnect env) (retM 0)"

definition fs_rdma_cm_handle_addr_resolved :: "vcall env \<Rightarrow> cm_event \<Rightarrow> (fs_state, int) cmd" where
  "fs_rdma_cm_handle_addr_resolved env ev =
     bindM (call_int env (Rdma_resolve_route (ev_id ev) TIMEOUT_IN_MS)) (\<lambda>ret.
     if ret \<noteq> 0 then thenM (fs_rdma_cm_handle_disconnect env) (retM ret) else retM ret)"

text \<open>The connection parameters both sides use.  \<open>retry_count\<close> is stored in one byte.\<close>

definition conn_params :: "int \<Rightarrow> rdma_conn_param" where
  "conn_params retry = conn_param0\<lparr>responder_resources := 1, initiator_depth := 1,
     cp_retry_count := word_of_int retry, rnr_retry_count := 7\<rparr>"

text \<open>The handler's argument is a pointer it compares with null.\<close>

definition fs_rdma_cm_handle_route_resolved :: "vcall env \<Rightarrow> cm_event option \<Rightarrow> (fs_state, int) cmd" where
  "fs_rdma_cm_handle_route_resolved env event =
     (if event = None then retM 0
      else bindM (fs_rdma_create_resources env) (\<lambda>ret.
        if ret \<noteq> 0 then thenM (fs_rdma_cm_handle_disconnect env) (retM ret)
        else bindM (cfg cf_retry_count) (\<lambda>rc.
          bindM (get_ctx rc_cm_id) (\<lambda>id.
          bindM (call_int env (Rdma_connect id (conn_params rc))) (\<lambda>ret.
          if ret \<noteq> 0 then thenM (fs_rdma_cm_handle_disconnect env) (retM ret)
          else retM 0)))))"

definition fs_rdma_cm_handle_connect_init :: "vcall env \<Rightarrow> cm_event \<Rightarrow> (fs_state, int) cmd" where
  "fs_rdma_cm_handle_connect_init env ev =
     bindM (get_ctx rc_connected) (\<lambda>connected.
     let ret = (if connected = 1 then - 1 else 0) in
     bindM (get_ctx rc_cm_id) (\<lambda>id.
     let ret = (if ev_id ev \<noteq> id then - 1 else ret) in
     if ret < 0
     then bindM (get_ctx rc_cm_id) (\<lambda>id. thenM (call_void env (Rdma_disconnect id)) (retM ret))
     else thenM (put_ctx (\<lambda>c. c\<lparr>rc_connected := 1\<rparr>)) (retM ret)))"

definition fs_rdma_cm_handle_connect_request :: "vcall env \<Rightarrow> cm_event \<Rightarrow> (fs_state, int) cmd" where
  "fs_rdma_cm_handle_connect_request env ev =
     bindM (fs_rdma_create_resources env) (\<lambda>ret.
     if ret \<noteq> 0 then thenM (fs_rdma_cm_handle_disconnect env) (retM ret)
     else bindM (cfg cf_retry_count) (\<lambda>rc.
       bindM (get_ctx rc_cm_id) (\<lambda>id.
       bindM (call_int env (Rdma_accept id (conn_params rc))) (\<lambda>ret.
       if ret < 0 then thenM (fs_rdma_cm_handle_disconnect env) (retM ret)
       else thenM (fs_rdma_cm_handle_connect_init env ev) (retM 0)))))"

section \<open>The event loop\<close>

text \<open>
  One turn.  \<open>event\<close> is the loop's event pointer before the turn; a \<open>rdma_get_cm_event\<close> that
  succeeds overwrites it, one that fails leaves it alone.  The \<open>memcpy\<close> that comes before the test
  of \<open>ret\<close> reads through it: the memory of an event exists from its delivery to its
  acknowledgement, which frees it, so the read faults when the pointer is null or its event is not
  alive in the history.  Behind it come the \<open>break\<close> of a failed request and the \<open>switch\<close>.
\<close>

definition ack :: "vcall env \<Rightarrow> cm_event \<Rightarrow> (fs_state, unit) cmd" where
  "ack env ev = call_void env (Rdma_ack_cm_event (ev_addr ev))"

fun event_touched :: "addr \<Rightarrow> vcall \<times> resp \<Rightarrow> bool \<Rightarrow> bool" where
  "event_touched a (Rdma_get_cm_event _, r) alive = (if r_int r = 0 \<and> ev_addr (r_event r) = a then True else alive)"
| "event_touched a (Rdma_ack_cm_event b, _) alive = (if b = a then False else alive)"
| "event_touched a _ alive = alive"

definition event_alive :: "addr \<Rightarrow> vcall trace \<Rightarrow> bool" where
  "event_alive a tr = fold (event_touched a) tr False"

definition copy_event :: "addr \<Rightarrow> (fs_state, unit) cmd" where
  "copy_event event = bindM (getM calls) (\<lambda>tr.
     if event = NULL then stopM (Faulted Null_Deref)
     else if \<not> event_alive event tr then stopM (Faulted Dangling_Deref)
     else retM ())"

definition cm_turn :: "vcall env \<Rightarrow> addr \<Rightarrow> addr \<Rightarrow> (fs_state, addr option) cmd" where
  "cm_turn env event_channel event =
     bindM (ext env (Rdma_get_cm_event event_channel)) (\<lambda>r.
     let ev = r_event r in
     thenM (copy_event (if r_int r = 0 then ev_addr ev else event))
     (if r_int r \<noteq> 0 then retM None
     else (case ev_type ev of
         RDMA_CM_EVENT_ADDR_RESOLVED \<Rightarrow>
           thenM (thenM (fs_rdma_cm_handle_addr_resolved env ev) (ack env ev)) (retM (Some (ev_addr ev)))
       | RDMA_CM_EVENT_ROUTE_RESOLVED \<Rightarrow>
           thenM (thenM (fs_rdma_cm_handle_route_resolved env (Some ev)) (ack env ev)) (retM (Some (ev_addr ev)))
       | RDMA_CM_EVENT_CONNECT_REQUEST \<Rightarrow>
           thenM (thenM (fs_rdma_cm_handle_connect_request env ev) (ack env ev)) (retM (Some (ev_addr ev)))
       | RDMA_CM_EVENT_ESTABLISHED \<Rightarrow>
           thenM (thenM (fs_rdma_cm_handle_connect_init env ev) (ack env ev)) (retM (Some (ev_addr ev)))
       | RDMA_CM_EVENT_ADDR_ERROR \<Rightarrow>
           thenM (thenM (ack env ev) (fs_rdma_cm_handle_event_error env)) (retM (Some NULL))
       | RDMA_CM_EVENT_ROUTE_ERROR \<Rightarrow>
           thenM (thenM (ack env ev) (fs_rdma_cm_handle_event_error env)) (retM (Some NULL))
       | RDMA_CM_EVENT_CONNECT_ERROR \<Rightarrow>
           thenM (thenM (ack env ev) (fs_rdma_cm_handle_event_error env)) (retM (Some NULL))
       | RDMA_CM_EVENT_UNREACHABLE \<Rightarrow>
           thenM (thenM (ack env ev) (fs_rdma_cm_handle_event_error env)) (retM (Some NULL))
       | RDMA_CM_EVENT_REJECTED \<Rightarrow>
           thenM (thenM (ack env ev) (fs_rdma_cm_handle_event_error env)) (retM (Some NULL))
       | RDMA_CM_EVENT_DISCONNECTED \<Rightarrow>
           thenM (thenM (ack env ev) (fs_rdma_cm_handle_disconnect env)) (retM (Some NULL))
       | _ \<Rightarrow> thenM (ack env ev) (retM (Some (ev_addr ev))))))"

definition fs_rdma_cm_event_handler :: "vcall env \<Rightarrow> nat \<Rightarrow> addr \<Rightarrow> (fs_state, unit) cmd" where
  "fs_rdma_cm_event_handler env fuel event_channel = forever fuel (cm_turn env event_channel) NULL"

section \<open>The calls of the handlers\<close>

fun is_get :: "vcall \<Rightarrow> bool" where
  "is_get (Rdma_get_cm_event _) = True"
| "is_get _ = False"

fun is_ack :: "vcall \<Rightarrow> bool" where
  "is_ack (Rdma_ack_cm_event _) = True"
| "is_ack _ = False"

definition quiet :: "vcall set" where
  "quiet = {c. \<not> is_get c \<and> \<not> is_ack c}"

text \<open>No handler gets or acknowledges an event.\<close>

lemma emits_dev_at [emits_intros]: "emits A (dev_at xs i)"
  unfolding dev_at_def by (intro emits_intros)

lemma emits_device_name [emits_intros]: "Ibv_get_device_name d \<in> A \<Longrightarrow> emits A (device_name env d)"
  unfolding device_name_def by (intro emits_intros)

lemma emits_find_dev [emits_intros]: "emits quiet (fs_rdma_find_dev env None)"
  unfolding fs_rdma_find_dev_def option.case by (intro emits_intros) (simp_all add: quiet_def)

lemma emits_release [emits_intros]:
  "(\<And>c. rel c \<in> A) \<Longrightarrow> emits A (release env present rel clear)"
  unfolding release_def
  by (rule emitsI) (auto simp: wp_simps wp_ctx wp_call_void_eq split: option.split)

lemma emits_teardown [emits_intros]: "emits quiet (fs_rdma_teardown env)"
  unfolding fs_rdma_teardown_def release_loop_def release_slot_def release_cq_def release_pd_def
  by (intro emits_intros) (simp_all add: quiet_def)

lemma emits_create_resources [emits_intros]: "emits quiet (fs_rdma_create_resources env)"
  unfolding fs_rdma_create_resources_def create_body_def open_part_def channel_part_def cq_part_def
    srq_part_def qp_body_def mr_body_def out_cleanup_def release_loop_def release_slot_def
    release_cq_def release_pd_def Let_def
  by (intro emits_intros) (simp_all add: quiet_def)

lemma emits_disconnect [emits_intros]: "emits quiet (fs_rdma_cm_handle_disconnect env)"
  and emits_event_error [emits_intros]: "emits quiet (fs_rdma_cm_handle_event_error env)"
  unfolding fs_rdma_cm_handle_event_error_def fs_rdma_cm_handle_disconnect_def
  by (intro emits_intros)+

lemma emits_addr_resolved [emits_intros]: "emits quiet (fs_rdma_cm_handle_addr_resolved env ev)"
  unfolding fs_rdma_cm_handle_addr_resolved_def by (intro emits_intros) (simp add: quiet_def)

lemma emits_route_resolved [emits_intros]: "emits quiet (fs_rdma_cm_handle_route_resolved env e)"
  unfolding fs_rdma_cm_handle_route_resolved_def by (intro emits_intros) (simp add: quiet_def)

lemma emits_connect_init [emits_intros]: "emits quiet (fs_rdma_cm_handle_connect_init env ev)"
  unfolding fs_rdma_cm_handle_connect_init_def Let_def
  by (intro emits_intros) (simp_all add: quiet_def)

lemma emits_connect_request [emits_intros]: "emits quiet (fs_rdma_cm_handle_connect_request env ev)"
  unfolding fs_rdma_cm_handle_connect_request_def by (intro emits_intros) (simp add: quiet_def)

end
