(* ===== verification/Resource_Properties.thy ===== *)
theory Resource_Properties
  imports Resource_Creation Relocation
begin

text \<open>
  The properties of \<open>fs_rdma_create_resources\<close> and \<open>fs_rdma_teardown\<close> of
  \<open>src/src/c/transport.c\<close> over \<open>Resource_Creation\<close>: what each outcome means, when no fault can
  happen, and what the pair leaves unreleased; then concrete hosts that show the failures the
  code does not notice.
\<close>

section \<open>Calls of a tear-down\<close>

lemma calls_after_cleanup:
  "teardown_calls n (cleaned n d) =
     (if rc_cm_id d = NULL then [] else [Rdma_destroy_id (rc_cm_id d)])"
  by (simp add: teardown_calls_def cleaned_def slot_calls_def slot_clear_def)

lemma calls_of_complete:
  assumes "untouched c d" and "resources_ready n bs d" and "arrays_ready n c" and "0 < n"
  shows "teardown_calls n d =
    [Rdma_destroy_qp (rc_cm_id c), Ibv_dereg_mr (arr_base (rc_mr c)), Free (arr_base (rc_buf c))] @
     (if rc_cq c = NULL then [] else [Ibv_destroy_cq (rc_cq c)]) @
     Ibv_dealloc_pd (rc_pd d) # (if rc_cm_id c = NULL then [] else [Rdma_destroy_id (rc_cm_id c)])"
proof -
  have "rc_qp c \<noteq> Null_arr" "rc_mr c \<noteq> Null_arr" "rc_buf c \<noteq> Null_arr" "rc_pd d \<noteq> NULL"
    using assms(2,3) by (auto simp: arrays_ready_def arr_ok_def resources_ready_def)
  then show ?thesis
    using assms(1,4) by (simp add: teardown_calls_def slot_calls_def untouched_def)
qed

section \<open>Creating depends on the past only through the answers\<close>

lemma relocates_ctx [relocates_intros]:
  "relocates (\<lambda>env. get_ctx f)" "relocates (\<lambda>env. put_ctx g)" "relocates (\<lambda>env. cfg h)"
  unfolding get_ctx_def put_ctx_def cfg_def by (intro relocates_intros; simp)+

lemma relocates_arr_set [relocates_intros]: "relocates (\<lambda>env. arr_set a i v)"
  by (cases a) (auto intro!: relocates_intros)

lemma relocates_lookup [relocates_intros]:
  "relocates (\<lambda>env. dev_at xs k)" "relocates (\<lambda>env. device_name env d)"
  unfolding dev_at_def device_name_def by (intro relocates_intros)+

lemma relocates_find_dev [relocates_intros]: "relocates (\<lambda>env. fs_rdma_find_dev env None)"
  unfolding fs_rdma_find_dev_def option.case by (intro relocates_intros)

lemma relocates_create_resources: "relocates fs_rdma_create_resources"
  unfolding fs_rdma_create_resources_def [abs_def] create_body_def open_part_def channel_part_def
    cq_part_def srq_part_def qp_body_def mr_body_def out_cleanup_def release_loop_def release_slot_def
    release_cq_def release_pd_def release_def Let_def
  by (intro relocates_intros)

text \<open>A successful run, with the answers it was given itself.\<close>

lemma complete_since:
  assumes "fs_rdma_create_resources env s = (Ret 0, t)" and "rdma_ctx s = Some c"
    and "qp_type_of (cf_connection_type (config s)) = Some ty"
    and "0 \<le> cf_qp_count (config s)" and "arrays_ready (cf_qp_count (config s)) c"
  obtains d m bs c' where "ctx_step s c' (resource_calls (config s) d m ty bs c') t"
    "resources_ready (cf_qp_count (config s)) bs c'" "resources_from (config s) d m ty c' (since s t)"
    "slots_from c' (since s t)"
proof -
  obtain u where u: "fs_rdma_create_resources (seen (calls s) env) (s\<lparr>calls := []\<rparr>) = (Ret 0, u)"
    "t = behind (calls s) u" "calls u = since s t"
    by (rule relocated [OF relocates_create_resources assms(1)])
  have "\<exists>d m bs c'. ctx_step (s\<lparr>calls := []\<rparr>) c' (resource_calls (config s) d m ty bs c') u \<and>
    resources_ready (cf_qp_count (config s)) bs c' \<and> resources_from (config s) d m ty c' (calls u) \<and>
    slots_from c' (since (s\<lparr>calls := []\<rparr>) u)"
    by (rule create_resources_cases [OF u(1), of c]) (use assms in \<open>auto simp: created_def\<close>)
  then obtain d m bs c' where step: "ctx_step (s\<lparr>calls := []\<rparr>) c' (resource_calls (config s) d m ty bs c') u"
    "resources_ready (cf_qp_count (config s)) bs c'" "resources_from (config s) d m ty c' (since s t)"
    "slots_from c' (since s t)"
    unfolding since_def [of "s\<lparr>calls := []\<rparr>"] by (auto simp: u(3))
  have "ctx_step s c' (resource_calls (config s) d m ty bs c') t"
    using step(1) unfolding u(2) by (simp add: ctx_step_def made_def) (simp add: behind_def)
  then show ?thesis using step(2-4) by (rule that)
qed

section \<open>Properties of creating\<close>

text \<open>C4: a successful \<open>fs_rdma_create_resources\<close> on a context whose arrays hold \<open>qp_count\<close>
  entries made exactly these calls, in this order: device lookup, open, port query, protection
  domain, the optional channel, device query, both completion queues with
  \<open>min (4096 * qp_count) max_cqe\<close> entries, the optional shared receive queue, \<open>qp_count\<close> queue
  pairs of the configured type, and \<open>qp_count\<close> buffers each registered as a memory region; and
  the context then holds a device, a domain, a send queue and \<open>qp_count\<close> entries per array,
  with no null buffer or region.  Each of these is the answer to its own call of this run: the
  device is the first one listed, \<open>max_cqe\<close> the limit that device reported, send and receive queue
  the answers to the first and the second \<open>ibv_create_cq\<close>, and entry \<open>i\<close> of the three arrays the
  answer to the \<open>i\<close>-th \<open>rdma_create_qp\<close>, \<open>memalign\<close> and \<open>ibv_reg_mr\<close>, which registered buffer
  \<open>i\<close>.  Only the send queue is known not to be null: nothing is said of the receive queue but where
  it comes from (\<open>recv_cq_failure_unnoticed\<close> below).  The hypotheses are a connection type of the
  enumeration (\<open>unknown_type_succeeds\<close> below), a count that is not negative and arrays of that
  length, as \<open>fs_rdma_create_ctx\<close> leaves them.\<close>

theorem create_resources_complete:
  assumes "fs_rdma_create_resources env s = (Ret 0, t)" and "rdma_ctx s = Some c"
    and "qp_type_of (cf_connection_type (config s)) = Some ty"
    and "0 \<le> cf_qp_count (config s)" and "arrays_ready (cf_qp_count (config s)) c"
  shows "\<exists>d m bs c'. ctx_step s c' (resource_calls (config s) d m ty bs c') t \<and>
    resources_ready (cf_qp_count (config s)) bs c' \<and> resources_from (config s) d m ty c' (since s t) \<and>
    slots_from c' (since s t)"
  by (rule complete_since [OF assms]) blast

text \<open>C5: whenever \<open>fs_rdma_create_resources\<close> returns, it returns 0 or \<open>-1\<close>, and a \<open>-1\<close> comes
  out of the label \<open>out:\<close>: the clean-up ran on the context \<open>d\<close> the body left, its calls are the
  last ones made, and the three arrays (for a positive count), the domain and the two undeclared
  members it tests are null afterwards, while identifier and channel are those of before.\<close>

theorem create_resources_failure:
  assumes "fs_rdma_create_resources env s = (Ret r, t)" and "rdma_ctx s = Some c"
  shows "r = 0 \<or> r = - 1 \<and> (\<exists>d u. create_body env s = (Ret (Some (Inr (- 1))), u) \<and>
      rdma_ctx u = Some d \<and> untouched c d \<and>
      ctx_step u (cleaned (cf_qp_count (config s)) d) (cleanup_calls (cf_qp_count (config s)) d) t)"
  by (rule create_resources_cases [OF assms]) auto

text \<open>The product \<open>4096 * qp_count\<close> is computed in \<open>int\<close>: with \<open>524288\<close> queue pairs or more
  the function never returns 0 for a known or unknown connection type, as the run is either cut
  short by an earlier failure or overflows.\<close>

theorem create_resources_overflow:
  assumes "\<not> c_int (DEFAULT_BUF_DEPTH * cf_qp_count (config s))" and "rdma_ctx s = Some c"
  shows "fst (fs_rdma_create_resources env s) \<noteq> Ret 0"
proof -
  let ?Q = "\<lambda>r t. r \<noteq> Ret None \<and> r \<noteq> Ret (Some (Inl 0))"
  have cq: "wp (contM (cq_part env) n) ?Q t" if "rdma_ctx t = Some d" "config t = config s" for t d n
    unfolding wp_cont
    by (rule wp_mono [OF wp_cq_part [OF that(1), where p = "param"]])
      (use assms that(2) in \<open>auto simp: part_result_def param_def loop_post_def\<close>)
  have ch: "wp (contM (channel_part env) (contM (cq_part env) n)) ?Q t"
    if "rdma_ctx t = Some d" "config t = config s" for t d n
    unfolding wp_cont [of "channel_part env"]
    by (rule wp_mono [OF wp_channel_part [OF that(1), where p = "param"]])
      (use that(2) in \<open>auto simp: part_result_def param_def loop_post_def leaves_def intro: cq\<close>)
  have "wp (create_body env) ?Q s"
    unfolding create_body_def wp_cont [of "open_part env"]
    by (rule wp_mono [OF wp_open_part [OF assms(2), where p = "param"]])
      (auto simp: part_result_def param_def loop_post_def leaves_def intro: ch)
  moreover obtain r t where run: "fs_rdma_create_resources env s = (r, t)" by fastforce
  ultimately show ?thesis
    by - (rule create_resources_cases [OF run assms(2)], auto simp: wp_def)
qed

text \<open>C13: the only faults of \<open>fs_rdma_create_resources\<close> come from a device without a name, from
  exhausted buffer memory, from arrays shorter than \<open>qp_count\<close>, a null identifier, or
  \<open>4096 * qp_count\<close> leaving the range of \<open>int\<close>.  Without the first four, the count decides:
  while the product fits (at most 524287 queue pairs) the function always returns 0 or \<open>-1\<close>,
  whatever every other call answers; when it does not fit, the function never returns 0.\<close>

theorem create_resources_returns:
  assumes "named_and_roomy env" and "rdma_ctx s = Some c" and "rc_cm_id c \<noteq> NULL"
    and "arrays_ready (cf_qp_count (config s)) c"
  shows "if c_int (DEFAULT_BUF_DEPTH * cf_qp_count (config s))
    then \<exists>r\<in>{0, - 1}. fst (fs_rdma_create_resources env s) = Ret r
    else fst (fs_rdma_create_resources env s) \<noteq> Ret 0"
proof (cases "c_int (DEFAULT_BUF_DEPTH * cf_qp_count (config s))")
  case True
  obtain r t where run: "fs_rdma_create_resources env s = (r, t)" by fastforce
  have "returns (create_body env) s"
    using create_body_returns assms True by blast
  then have "\<exists>r\<in>{0, - 1}. fst (fs_rdma_create_resources env s) = Ret r"
    by - (rule create_resources_cases [OF run assms(2)], auto simp: run settles_def wp_def)
  with True show ?thesis by simp
next
  case False
  with create_resources_overflow [OF False assms(2)] show ?thesis by simp
qed

section \<open>Properties of tearing down\<close>

text \<open>C12: \<open>fs_rdma_teardown\<close> on every context: it always returns 0, makes exactly the calls of
  \<open>teardown_calls\<close> and leaves the context of \<open>torn_down\<close>; running it a second time makes no call
  at all and changes nothing.\<close>

theorem teardown_idempotent:
  assumes "rdma_ctx s = Some c"
  shows "let n = cf_qp_count (config s); t = snd (fs_rdma_teardown env s) in
    fst (fs_rdma_teardown env s) = Ret 0 \<and> ctx_step s (torn_down n c) (teardown_calls n c) t \<and>
    fst (fs_rdma_teardown env t) = Ret 0 \<and> ctx_step t (torn_down n c) [] (snd (fs_rdma_teardown env t))"
proof -
  let ?n = "cf_qp_count (config s)" and ?t = "snd (fs_rdma_teardown env s)"
  have one: "fst (fs_rdma_teardown env s) = Ret 0" "ctx_step s (torn_down ?n c) (teardown_calls ?n c) ?t"
    using teardown_run [OF assms] by blast+
  have "teardown_calls ?n (torn_down ?n c) = []" "torn_down ?n (torn_down ?n c) = torn_down ?n c"
    by (simp_all add: teardown_calls_def torn_down_def slot_calls_def slot_clear_def)
  then show ?thesis
    using one teardown_run [OF ctx_step_ctx [OF one(2)], of env]
    by (simp add: Let_def ctx_step_config [OF one(2)])
qed

text \<open>C14: after a failed \<open>fs_rdma_create_resources\<close> the tear-down releases nothing a second
  time: its only call destroys the identifier the context had before, when there is one.\<close>

theorem teardown_after_failure:
  assumes "fs_rdma_create_resources env s = (Ret (- 1), t)" and "rdma_ctx s = Some c"
  shows "made t (snd (fs_rdma_teardown env t))
    (if rc_cm_id c = NULL then [] else [Rdma_destroy_id (rc_cm_id c)])"
proof (rule create_resources_cases [OF assms])
  fix u d
  let ?n = "cf_qp_count (config s)"
  assume d: "untouched c d" and u: "config u = config s"
    and cl: "ctx_step u (cleaned ?n d) (cleanup_calls ?n d) t"
  have same: "config t = config s" "rc_cm_id d = rc_cm_id c"
    using cl u d by (simp_all add: ctx_step_def untouched_def)
  have "made t (snd (fs_rdma_teardown env t)) (teardown_calls ?n (cleaned ?n d))"
    using teardown_run [OF ctx_step_ctx [OF cl], of env] unfolding same(1) ctx_step_def by blast
  then show ?thesis unfolding calls_after_cleanup same(2) .
qed simp_all

text \<open>C15: what the tear-down of a complete connection releases.  One queue pair call for the
  identifier, whatever \<open>qp_count\<close> is, one deregistration and one \<open>free\<close>, both of the base of an
  array instead of its entries, the queue in the undeclared \<open>cq\<close> when not null, the domain that
  was allocated and the identifier.  So no completion queue that was created, no shared receive queue, channel,
  device context or buffer is ever among the released things.\<close>

theorem teardown_of_complete:
  assumes "fs_rdma_create_resources env s = (Ret 0, t)" and "rdma_ctx s = Some c"
    and "qp_type_of (cf_connection_type (config s)) = Some ty" and "0 < cf_qp_count (config s)"
    and "arrays_ready (cf_qp_count (config s)) c" and "rc_cm_id c \<noteq> NULL"
  shows "\<exists>cx pd. answered (since s t) (Ibv_alloc_pd cx) r_ptr pd \<and> pd \<noteq> NULL \<and>
    made t (snd (fs_rdma_teardown env t))
    ([Rdma_destroy_qp (rc_cm_id c), Ibv_dereg_mr (arr_base (rc_mr c)), Free (arr_base (rc_buf c))] @
     (if rc_cq c = NULL then [] else [Ibv_destroy_cq (rc_cq c)]) @
     [Ibv_dealloc_pd pd, Rdma_destroy_id (rc_cm_id c)])"
proof -
  have lv: "leaves s c t"
    by (rule create_resources_cases [OF assms(1,2)])
      (use assms(3) wpD [OF wp_create_body [OF assms(2)]] in auto)
  obtain d m bs c' where "ctx_step s c' (resource_calls (config s) d m ty bs c') t"
    "resources_ready (cf_qp_count (config s)) bs c'" "resources_from (config s) d m ty c' (since s t)"
    by (rule complete_since [OF assms(1,2,3) _ assms(5)]) (use assms(4) in auto)
  then have c': "rdma_ctx t = Some c'" "config t = config s"
    "resources_ready (cf_qp_count (config s)) bs c'"
    and pd_from: "answered (since s t) (Ibv_alloc_pd (rc_context c')) r_ptr (rc_pd c')"
    by (auto simp: ctx_step_def resources_from_def setup_from_def cq_stage_from_def
        channel_stage_from_def open_from_def)
  have same: "untouched c c'" and pd: "rc_pd c' \<noteq> NULL"
    using lv c' by (auto simp: leaves_def resources_ready_def)
  have "made t (snd (fs_rdma_teardown env t)) (teardown_calls (cf_qp_count (config s)) c')"
    using teardown_run [OF c'(1), of env] unfolding c'(2) ctx_step_def by blast
  then show ?thesis
    unfolding calls_of_complete [OF same c'(3) assms(5,4)] using pd pd_from assms(6)
    by (intro exI [of _ "rc_context c'"] exI [of _ "rc_pd c'"]) simp
qed

section \<open>Concrete hosts\<close>

text \<open>A host on which every call succeeds, and a context with one slot in each array.\<close>

definition full_host :: "vcall env" where
  "full_host tr c = resp0\<lparr>r_ptr := 100 + length tr, r_out := 1, r_list := [11],
     r_str := Some ''mlx5_0''\<rparr>"

definition one_slot :: fs_state where
  "one_slot = fs_init\<lparr>rdma_ctx := Some ((malloc_ctx (\<lambda>_. 0))\<lparr>rc_cm_id := 7, rc_qp := Arr 20 [0],
     rc_mr := Arr 21 [0], rc_buf := Arr 22 [0]\<rparr>)\<rparr>"

text \<open>The definitions that run the creation on a concrete state.\<close>

lemmas create_defs = fs_rdma_create_resources_def create_body_def open_part_def channel_part_def
  cq_part_def srq_part_def qp_body_def mr_body_def cmd_defs fs_rdma_find_dev_def Let_def
  c_mul_def c_int_def DEFAULT_BUF_DEPTH_def for_loop.simps

lemmas release_defs = out_cleanup_def fs_rdma_teardown_def release_loop_def release_slot_def
  release_cq_def release_pd_def release_def

lemma one_slot_simps [simp]:
  "rdma_ctx one_slot = Some ((malloc_ctx (\<lambda>_. 0))\<lparr>rc_cm_id := 7, rc_qp := Arr 20 [0],
     rc_mr := Arr 21 [0], rc_buf := Arr 22 [0]\<rparr>)"
  "config one_slot = param" "calls one_slot = []"
  by (simp_all add: one_slot_def fs_init_def)

lemma one_slot_ready: "arrays_ready 1 (the (rdma_ctx one_slot))"
  by (simp add: arrays_ready_def arr_ok_def)

lemma param_simps [simp]:
  "cf_qp_count param = 1" "cf_connection_type param = RC" "cf_use_event param = 0"
  "cf_use_srq param = 0" "cf_ib_port param = 1"
  by (simp_all add: param_def)

lemma full_host_creates: "fst (fs_rdma_create_resources full_host one_slot) = Ret 0"
  by (simp add: create_defs full_host_def resp0_def)

lemma full_host_created:
  obtains t where "fs_rdma_create_resources full_host one_slot = (Ret 0, t)"
  using full_host_creates by (metis prod.collapse)

theorem create_resources_complete_witness:
  "\<exists>t d m bs c'. fs_rdma_create_resources full_host one_slot = (Ret 0, t) \<and>
     ctx_step one_slot c' (resource_calls param d m IBV_QPT_RC bs c') t \<and> resources_ready 1 bs c' \<and>
     resources_from param d m IBV_QPT_RC c' (since one_slot t) \<and> slots_from c' (since one_slot t)"
proof -
  obtain t where t: "fs_rdma_create_resources full_host one_slot = (Ret 0, t)"
    by (rule full_host_created)
  show ?thesis
    using create_resources_complete [OF t, of _ IBV_QPT_RC] one_slot_ready t by simp
qed

text \<open>No protection domain: the function leaves through \<open>out:\<close>.\<close>

definition no_pd_host :: "vcall env" where
  "no_pd_host tr c = (case c of Ibv_alloc_pd _ \<Rightarrow> resp0 | _ \<Rightarrow> full_host tr c)"

lemma no_pd_host_fails:
  obtains t where "fs_rdma_create_resources no_pd_host one_slot = (Ret (- 1), t)"
proof -
  have "fst (fs_rdma_create_resources no_pd_host one_slot) = Ret (- 1)"
    by (simp add: create_defs release_defs no_pd_host_def full_host_def resp0_def)
  then show ?thesis using that by (metis prod.collapse)
qed

theorem create_resources_failure_witness:
  "\<exists>t d. fs_rdma_create_resources no_pd_host one_slot = (Ret (- 1), t) \<and>
     rdma_ctx t = Some (cleaned 1 d) \<and> untouched (the (rdma_ctx one_slot)) d"
proof -
  obtain t where t: "fs_rdma_create_resources no_pd_host one_slot = (Ret (- 1), t)"
    by (rule no_pd_host_fails)
  show ?thesis
    using create_resources_failure [OF t one_slot_simps(1)] t by (auto dest: ctx_step_ctx)
qed

text \<open>A configuration of \<open>n\<close> queue pairs, with room for them.\<close>

definition huge_slots :: "nat \<Rightarrow> fs_state" where
  "huge_slots n = fs_init\<lparr>config := param\<lparr>cf_qp_count := int n\<rparr>,
     rdma_ctx := Some ((malloc_ctx (\<lambda>_. 0))\<lparr>rc_cm_id := 7, rc_qp := Arr 20 (replicate n 0),
       rc_mr := Arr 21 (replicate n 0), rc_buf := Arr 22 (replicate n 0)\<rparr>)\<rparr>"

theorem create_resources_returns_witness:
  "(\<exists>r\<in>{0, - 1}. fst (fs_rdma_create_resources no_pd_host one_slot) = Ret r) \<and>
   fst (fs_rdma_create_resources no_pd_host (huge_slots 524288)) \<noteq> Ret 0"
proof -
  have env: "named_and_roomy no_pd_host"
    by (simp add: named_and_roomy_def no_pd_host_def full_host_def resp0_def)
  show ?thesis
    using create_resources_returns [OF env one_slot_simps(1)] one_slot_ready
      create_resources_returns [OF env, of "huge_slots 524288"]
    by (simp add: huge_slots_def c_int_def DEFAULT_BUF_DEPTH_def arrays_ready_def arr_ok_def)
qed

theorem create_resources_overflow_witness:
  "fst (fs_rdma_create_resources full_host (one_slot\<lparr>config := param\<lparr>cf_qp_count := 524288\<rparr>\<rparr>)) \<noteq> Ret 0"
  by (rule create_resources_overflow) (simp_all add: c_int_def DEFAULT_BUF_DEPTH_def)

theorem teardown_idempotent_witness:
  "fst (fs_rdma_teardown full_host one_slot) = Ret 0 \<and>
   made one_slot (snd (fs_rdma_teardown full_host one_slot))
     [Rdma_destroy_qp 7, Ibv_dereg_mr 21, Free 22, Rdma_destroy_id 7]"
  using teardown_idempotent [OF one_slot_simps(1), of full_host]
  by (simp add: Let_def ctx_step_def teardown_calls_def slot_calls_def)

theorem teardown_after_failure_witness:
  "\<exists>t. fs_rdma_create_resources no_pd_host one_slot = (Ret (- 1), t) \<and>
     made t (snd (fs_rdma_teardown full_host t)) [Rdma_destroy_id 7]"
proof -
  obtain t where t: "fs_rdma_create_resources no_pd_host one_slot = (Ret (- 1), t)"
    by (rule no_pd_host_fails)
  have "made t (snd (fs_rdma_teardown no_pd_host t)) [Rdma_destroy_id 7]"
    using teardown_after_failure [OF t one_slot_simps(1)] by simp
  moreover have "rdma_ctx t \<noteq> None"
    by (rule create_resources_cases [OF t one_slot_simps(1)]) (auto dest: ctx_step_ctx)
  ultimately show ?thesis
    using t teardown_run [of t _ full_host] teardown_run [of t _ no_pd_host]
    by (auto simp: ctx_step_def dest: made_unique)
qed

theorem teardown_of_complete_witness:
  "\<exists>t pd. fs_rdma_create_resources full_host one_slot = (Ret 0, t) \<and> pd \<noteq> NULL \<and>
     made t (snd (fs_rdma_teardown full_host t))
       [Rdma_destroy_qp 7, Ibv_dereg_mr 21, Free 22, Ibv_dealloc_pd pd, Rdma_destroy_id 7]"
proof -
  obtain t where t: "fs_rdma_create_resources full_host one_slot = (Ret 0, t)"
    by (rule full_host_created)
  show ?thesis
    using teardown_of_complete [OF t one_slot_simps(1), of IBV_QPT_RC] one_slot_ready t by auto
qed

section \<open>Failures the code does not notice\<close>

text \<open>The second completion queue cannot be created.\<close>

definition no_recv_cq_host :: "vcall env" where
  "no_recv_cq_host tr c = (case c of
       Ibv_create_cq _ _ _ \<Rightarrow>
         (if list_ex (\<lambda>x. case fst x of Ibv_create_cq _ _ _ \<Rightarrow> True | _ \<Rightarrow> False) tr
          then resp0 else full_host tr c)
     | _ \<Rightarrow> full_host tr c)"

text \<open>After creating the receive queue the code tests the send queue again, so a receive
  queue that could not be created goes unnoticed: the function returns 0, the context's
  \<open>recv_cq\<close> is null, and the queue pair was created with it.\<close>

theorem recv_cq_failure_unnoticed:
  "fst (fs_rdma_create_resources no_recv_cq_host one_slot) = Ret 0 \<and>
   map_option rc_recv_cq (rdma_ctx (snd (fs_rdma_create_resources no_recv_cq_host one_slot))) = Some NULL"
  by (simp add: create_defs no_recv_cq_host_def full_host_def resp0_def)

definition no_buffer_host :: "vcall env" where
  "no_buffer_host tr c = (case c of Memalign _ \<Rightarrow> resp0 | _ \<Rightarrow> full_host tr c)"

text \<open>When no buffer can be allocated the code notes the failure in \<open>ret\<close> but goes on to
  clear the buffer, so the run ends in a null dereference instead of the error return.\<close>

theorem buffer_failure_faults:
  "fst (fs_rdma_create_resources no_buffer_host one_slot) = Stop (Faulted Null_Deref)"
  by (simp add: create_defs no_buffer_host_def full_host_def resp0_def)

text \<open>A connection type outside the enumeration is rejected by the \<open>switch\<close> with
  \<open>return NULL\<close>, which is the success value 0: the caller sees success, yet the context has a
  protection domain and queues but the queue pair, region and buffer slots are as before.\<close>

theorem unknown_type_succeeds:
  "let s = one_slot\<lparr>config := param\<lparr>cf_connection_type := ConnectionType_other 7\<rparr>\<rparr>;
     t = snd (fs_rdma_create_resources full_host s)
   in fst (fs_rdma_create_resources full_host s) = Ret 0 \<and>
     map_option rc_qp (rdma_ctx t) = Some (Arr 20 [0]) \<and>
     map_option rc_mr (rdma_ctx t) = Some (Arr 21 [0]) \<and>
     map_option (\<lambda>c. rc_pd c \<noteq> NULL \<and> rc_send_cq c \<noteq> NULL) (rdma_ctx t) = Some True"
  by (simp add: create_defs full_host_def resp0_def)

end
