(* ===== verification/Cm_Session.thy ===== *)
theory Cm_Session
  imports Cm_Events Resource_Properties
begin

text \<open>
  What the event loop of \<open>src/src/c/transport.c\<close> guarantees over a whole session: every event
  is acknowledged exactly once, the loop ends only in undefined behaviour, the connection
  moves through the phases of an abstract life cycle, and what that means for a server.
\<close>

section \<open>One turn\<close>

text \<open>The handler an event gets, and whether its acknowledgement comes first.\<close>

definition acks_first :: "cm_event_type \<Rightarrow> bool" where
  "acks_first ty \<longleftrightarrow> ty \<in> {RDMA_CM_EVENT_ADDR_ERROR, RDMA_CM_EVENT_ROUTE_ERROR,
     RDMA_CM_EVENT_CONNECT_ERROR, RDMA_CM_EVENT_UNREACHABLE, RDMA_CM_EVENT_REJECTED,
     RDMA_CM_EVENT_DISCONNECTED}"

definition handler :: "vcall env \<Rightarrow> cm_event \<Rightarrow> (fs_state, unit) cmd" where
  "handler env ev = (case ev_type ev of
       RDMA_CM_EVENT_ADDR_RESOLVED \<Rightarrow> bindM (fs_rdma_cm_handle_addr_resolved env ev) (\<lambda>_. retM ())
     | RDMA_CM_EVENT_ROUTE_RESOLVED \<Rightarrow> bindM (fs_rdma_cm_handle_route_resolved env (Some ev)) (\<lambda>_. retM ())
     | RDMA_CM_EVENT_CONNECT_REQUEST \<Rightarrow> bindM (fs_rdma_cm_handle_connect_request env ev) (\<lambda>_. retM ())
     | RDMA_CM_EVENT_ESTABLISHED \<Rightarrow> bindM (fs_rdma_cm_handle_connect_init env ev) (\<lambda>_. retM ())
     | _ \<Rightarrow> if acks_first (ev_type ev) then fs_rdma_cm_handle_disconnect env else retM ())"

definition handle_and_ack :: "vcall env \<Rightarrow> cm_event \<Rightarrow> (fs_state, unit) cmd" where
  "handle_and_ack env ev = (if acks_first (ev_type ev) then thenM (ack env ev) (handler env ev)
     else thenM (handler env ev) (ack env ev))"

lemma event_error_disconnect:
  "bindM (fs_rdma_cm_handle_event_error env) f = bindM (fs_rdma_cm_handle_disconnect env) (\<lambda>_. f 0)"
  by (simp add: fs_rdma_cm_handle_event_error_def thenM_def bindM_assoc)

text \<open>A request for an event that failed: the copy of the old event, and the \<open>break\<close>.\<close>

definition failed_get :: "addr \<Rightarrow> (fs_state, addr option) cmd" where
  "failed_get e = thenM (copy_event e) (retM None)"

lemma copy_event_run:
  "copy_event a s = (if a = NULL then Stop (Faulted Null_Deref)
     else if event_alive a (calls s) then Ret () else Stop (Faulted Dangling_Deref), s)"
  by (simp add: copy_event_def cmd_defs)

lemma wp_copy_event [simp]:
  "wp (copy_event a) Q s = Q (if a = NULL then Stop (Faulted Null_Deref)
     else if event_alive a (calls s) then Ret () else Stop (Faulted Dangling_Deref)) s"
  by (simp add: wp_def copy_event_run)

lemma wp_failed_get [simp]:
  "wp (failed_get e) Q s = Q (if e = NULL then Stop (Faulted Null_Deref)
     else if event_alive e (calls s) then Ret None else Stop (Faulted Dangling_Deref)) s"
  by (simp add: failed_get_def wp_def thenM_def bindM_def copy_event_run retM_def)

lemma emits_failed_get [emits_intros]: "emits A (failed_get e)"
  by (rule emitsI) simp

lemma only_faults_failed_get [only_faults_intros]: "only_faults (failed_get e)"
  by (simp add: only_faults_def)

text \<open>An event that was just delivered is alive.\<close>

lemma event_alive_got [simp]:
  "r_int r = 0 \<Longrightarrow> ev_addr (r_event r) = a \<Longrightarrow> event_alive a (tr @ [(Rdma_get_cm_event ch, r)])"
  by (simp add: event_alive_def)

lemma copy_event_got:
  assumes "r_int (env (calls s) (Rdma_get_cm_event ch)) = 0"
  shows "thenM (copy_event (ev_addr (r_event (env (calls s) (Rdma_get_cm_event ch))))) m
      (s\<lparr>calls := calls s @ [(Rdma_get_cm_event ch, env (calls s) (Rdma_get_cm_event ch))]\<rparr>) =
    (if ev_addr (r_event (env (calls s) (Rdma_get_cm_event ch))) = NULL then stopM (Faulted Null_Deref) else m)
      (s\<lparr>calls := calls s @ [(Rdma_get_cm_event ch, env (calls s) (Rdma_get_cm_event ch))]\<rparr>)"
  using assms by (simp add: thenM_def bindM_def copy_event_run stopM_def)

lemma ext_then_cong:
  assumes "\<And>s. f (env (calls s) c) (s\<lparr>calls := calls s @ [(c, env (calls s) c)]\<rparr>) =
      g (env (calls s) c) (s\<lparr>calls := calls s @ [(c, env (calls s) c)]\<rparr>)"
  shows "bindM (ext env c) f = bindM (ext env c) g"
  using assms by (simp add: fun_eq_iff bindM_def ext_def Let_def)

text \<open>A turn, with the handler as one command.\<close>

lemma cm_turn_handle:
  "cm_turn env ch e = bindM (ext env (Rdma_get_cm_event ch)) (\<lambda>r.
     thenM (copy_event (if r_int r = 0 then ev_addr (r_event r) else e))
     (if r_int r \<noteq> 0 then retM None
     else thenM (handle_and_ack env (r_event r))
       (retM (Some (if acks_first (ev_type (r_event r)) then NULL else ev_addr (r_event r))))))"
  unfolding cm_turn_def Let_def
  by (intro arg_cong [where f = "bindM _"] arg_cong [where f = "thenM _"] ext if_cong refl)
    (auto simp: handle_and_ack_def handler_def acks_first_def thenM_def bindM_assoc
      event_error_disconnect split: cm_event_type.split)

lemma cm_turn_shape:
  "cm_turn env ch e = bindM (ext env (Rdma_get_cm_event ch)) (\<lambda>r.
     if r_int r \<noteq> 0 then failed_get e
     else if ev_addr (r_event r) = NULL then stopM (Faulted Null_Deref)
     else thenM (handle_and_ack env (r_event r))
       (retM (Some (if acks_first (ev_type (r_event r)) then NULL else ev_addr (r_event r)))))"
  unfolding cm_turn_handle
  by (rule ext_then_cong) (auto simp: failed_get_def copy_event_got)

lemma emits_handler: "emits quiet (handler env ev)"
  unfolding handler_def by (auto split: cm_event_type.split intro: emits_intros)

lemma only_faults_get_put [only_faults_intros]:
  "only_faults (get_ctx f)" "only_faults (put_ctx g)" "only_faults (cfg h)" "only_faults (arr_set a i v)"
  "only_faults (dev_at xs j)" "only_faults (device_name env d)"
  by (auto simp: get_ctx_def put_ctx_def cfg_def dev_at_def device_name_def
      intro!: only_faults_intros) (cases a; auto intro: only_faults_intros)

lemma only_faults_teardown [only_faults_intros]: "only_faults (fs_rdma_teardown env)"
  unfolding fs_rdma_teardown_def release_loop_def release_slot_def release_cq_def release_pd_def release_def
  by (intro only_faults_intros)

lemma only_faults_create [only_faults_intros]: "only_faults (fs_rdma_create_resources env)"
  unfolding fs_rdma_create_resources_def create_body_def open_part_def channel_part_def cq_part_def
    srq_part_def qp_body_def mr_body_def out_cleanup_def release_loop_def release_slot_def
    release_cq_def release_pd_def release_def fs_rdma_find_dev_def option.case Let_def
  by (intro only_faults_intros)

lemma only_faults_handler: "only_faults (handler env ev)"
  unfolding handler_def fs_rdma_cm_handle_addr_resolved_def fs_rdma_cm_handle_route_resolved_def
    fs_rdma_cm_handle_connect_request_def fs_rdma_cm_handle_connect_init_def
    fs_rdma_cm_handle_disconnect_def Let_def
  by (auto split: cm_event_type.split intro!: only_faults_intros)

lemma only_faults_turn: "only_faults (cm_turn env ch e)"
  unfolding cm_turn_shape handle_and_ack_def ack_def
  by (intro only_faults_intros only_faults_handler)

text \<open>The events delivered and acknowledged so far, in order, by the address the answer gave.  A failing
  request notes the address its answer happens to hold.\<close>

fun delivers :: "vcall \<times> resp \<Rightarrow> addr list" where
  "delivers (Rdma_get_cm_event _, r) = [ev_addr (r_event r)]"
| "delivers _ = []"

fun acknowledges :: "vcall \<times> resp \<Rightarrow> addr list" where
  "acknowledges (Rdma_ack_cm_event a, _) = [a]"
| "acknowledges _ = []"

definition got_events :: "fs_state \<Rightarrow> addr list" where
  "got_events s = noted delivers (calls s)"

definition acked_events :: "fs_state \<Rightarrow> addr list" where
  "acked_events s = noted acknowledges (calls s)"

lemma count_gets: "length (noted delivers tr) = count_calls is_get tr"
proof (induction tr)
  case (Cons x tr)
  then show ?case by (cases x rule: delivers.cases) simp_all
qed simp

lemma handler_counts:
  assumes "handler env ev s = (r, t)"
  shows "got_events t = got_events s" and "acked_events t = acked_events s"
proof -
  have "c \<in> quiet \<Longrightarrow> delivers (c, r) = []" "c \<in> quiet \<Longrightarrow> acknowledges (c, r) = []" for c r
    by (cases c; simp add: quiet_def)+
  then show "got_events t = got_events s" and "acked_events t = acked_events s"
    unfolding got_events_def acked_events_def by (auto intro: emits_noted [OF emits_handler _ assms])
qed

lemma wp_handler_counts:
  "wp (handler env ev) (\<lambda>r t. got_events t = got_events s \<and> acked_events t = acked_events s) s"
  by (rule wpI) (simp add: handler_counts)

lemma wp_turn_counts:
  "wp (cm_turn env ch e) (\<lambda>r t. \<exists>a. got_events t = got_events s @ [a] \<and>
     acked_events t \<in> {acked_events s, acked_events s @ [a]} \<and>
     (\<forall>x. r = Ret (Some x) \<longrightarrow> acked_events t = acked_events s @ [a])) s"
  unfolding cm_turn_shape handle_and_ack_def ack_def got_events_def acked_events_def
  by (auto simp: wp_simps after_def intro!: wp_calls split: outcome.split
      intro!: wp_mono [OF wp_handler_counts [unfolded got_events_def acked_events_def]])

interpretation cml: ack_loop "cm_turn env ch" got_events acked_events for env ch
  by unfold_locales (use wpD [OF wp_turn_counts] in blast)+

text \<open>The event pointer a completed turn leaves behind: null, or that of the event the turn
  acknowledged last, and so freed.\<close>

definition stale :: "addr \<Rightarrow> fs_state \<Rightarrow> bool" where
  "stale e s \<longleftrightarrow> e = NULL \<or> (\<exists>tr q. calls s = tr @ [(Rdma_ack_cm_event e, q)])"

lemma turn_stale: "cm_turn env ch e s = (Ret (Some e'), t) \<Longrightarrow> stale e' t"
proof -
  have "wp (cm_turn env ch e) (\<lambda>r t. \<forall>e'. r = Ret (Some e') \<longrightarrow> stale e' t) s"
    unfolding cm_turn_shape handle_and_ack_def ack_def stale_def
    by (auto simp: wp_simps after_def intro!: wp_calls wp_mono [OF wp_handler_counts] split: outcome.split)
  then show "cm_turn env ch e s = (Ret (Some e'), t) \<Longrightarrow> stale e' t" by (auto simp: wp_def)
qed

lemma turns_stale: "turns (cm_turn env ch) n e s e' t \<Longrightarrow> stale e s \<Longrightarrow> stale e' t"
  by (induction rule: turns.induct) (auto dest: turn_stale)

text \<open>A failed request after it reads that pointer.\<close>

lemma stale_failed_get:
  assumes "stale e s" and "r_int r \<noteq> 0"
  shows "failed_get e (s\<lparr>calls := calls s @ [(Rdma_get_cm_event ch, r)]\<rparr>) =
    (Stop (Faulted (if e = NULL then Null_Deref else Dangling_Deref)), s\<lparr>calls := calls s @ [(Rdma_get_cm_event ch, r)]\<rparr>)"
  using assms
  by (auto simp: stale_def failed_get_def thenM_def bindM_def copy_event_run event_alive_def)

lemma stale_turn:
  assumes "stale e s" and "r_int (env (calls s) (Rdma_get_cm_event ch)) \<noteq> 0"
  shows "fst (cm_turn env ch e s) = Stop (Faulted (if e = NULL then Null_Deref else Dangling_Deref))"
  using stale_failed_get [OF assms] assms(2) by (simp add: cm_turn_shape bindM_def ext_def Let_def)

text \<open>So the \<open>break\<close> of the loop is never reached.\<close>

lemma stale_no_break: "stale e s \<Longrightarrow> cm_turn env ch e s \<noteq> (Ret None, t)"
proof
  assume e: "stale e s" and turn: "cm_turn env ch e s = (Ret None, t)"
  have "wp (cm_turn env ch e) (\<lambda>r t. r = Ret None \<longrightarrow> r_int (env (calls s) (Rdma_get_cm_event ch)) \<noteq> 0) s"
    unfolding cm_turn_shape by (auto simp: wp_simps wp_ext_eq after_def intro!: wpI split: outcome.split)
  then have "r_int (env (calls s) (Rdma_get_cm_event ch)) \<noteq> 0" using turn by (simp add: wp_def)
  with stale_turn [of e s env ch] e turn show False by simp
qed

section \<open>What the handlers do to the connection\<close>

text \<open>The members that say where the connection stands, and the number of calls that destroy an
  identifier.\<close>

fun is_destroy :: "vcall \<Rightarrow> bool" where
  "is_destroy (Rdma_destroy_id _) = True"
| "is_destroy _ = False"

definition destroys :: "fs_state \<Rightarrow> nat" where
  "destroys s = count_calls is_destroy (calls s)"

text \<open>\<open>link i k d s\<close>: the context has identifier \<open>i\<close>, its flag is \<open>k\<close>, and \<open>d\<close> identifiers
  have been destroyed.\<close>

definition link :: "addr \<Rightarrow> int \<Rightarrow> nat \<Rightarrow> fs_state \<Rightarrow> bool" where
  "link i k d s \<longleftrightarrow> (\<exists>c. rdma_ctx s = Some c \<and> rc_cm_id c = i \<and> rc_connected c = k) \<and> destroys s = d"

definition closed_link :: "addr \<Rightarrow> int \<Rightarrow> nat \<Rightarrow> fs_state \<Rightarrow> bool" where
  "closed_link i k d = link NULL k (if i = NULL then d else Suc d)"

lemma link_calls [simp]: "\<not> is_destroy c \<Longrightarrow> link i k d (s\<lparr>calls := calls s @ [(c, r)]\<rparr>) = link i k d s"
  by (simp add: link_def destroys_def)

lemma link_calls2 [simp]: "\<not> is_destroy c \<Longrightarrow> \<not> is_destroy c' \<Longrightarrow>
    link i k d (s\<lparr>calls := calls s @ [(c, r), (c', r')]\<rparr>) = link i k d s"
  by (simp add: link_def destroys_def)

lemma link_ctx: "link i k d s \<Longrightarrow> \<exists>c. rdma_ctx s = Some c \<and> rc_cm_id c = i \<and> rc_connected c = k"
  by (simp add: link_def)

definition no_destroy :: "vcall set" where
  "no_destroy = {c. \<not> is_destroy c}"

lemma emits_create_no_destroy: "emits no_destroy (fs_rdma_create_resources env)"
  unfolding fs_rdma_create_resources_def create_body_def open_part_def channel_part_def cq_part_def
    srq_part_def qp_body_def mr_body_def out_cleanup_def release_loop_def release_slot_def
    release_cq_def release_pd_def Let_def fs_rdma_find_dev_def option.case
  by (intro emits_intros) (simp_all add: no_destroy_def)

lemma wp_create_link:
  assumes "link i k d s"
  shows "wp (fs_rdma_create_resources env) (\<lambda>r t. (\<exists>x. r = Ret x) \<longrightarrow> link i k d t) s"
proof (rule wpI, rule impI)
  fix r t
  assume run: "fs_rdma_create_resources env s = (r, t)" and ret: "\<exists>x. r = Ret x"
  obtain c where c: "rdma_ctx s = Some c" "rc_cm_id c = i" "rc_connected c = k"
    using link_ctx [OF assms] by blast
  have body: "\<exists>e. rdma_ctx t = Some e \<and> rc_cm_id e = rc_cm_id c \<and> rc_connected e = rc_connected c"
    if "create_body env s = (j, t)" for j
    using wpD [OF wp_create_body [OF c(1)] that] by (auto simp: leaves_def untouched_def)
  have "destroys t = destroys s"
    unfolding destroys_def
    by (rule emits_count [OF emits_create_no_destroy _ run]) (simp add: no_destroy_def)
  moreover have "\<exists>e. rdma_ctx t = Some e \<and> rc_cm_id e = i \<and> rc_connected e = k"
  proof (rule create_resources_cases [OF run c(1)])
    fix u e
    assume "untouched c e" "ctx_step u (cleaned (cf_qp_count (config s)) e)
      (cleanup_calls (cf_qp_count (config s)) e) t"
    then show ?thesis
      using c by (auto simp: ctx_step_def cleaned_def slot_clear_def untouched_def)
  next
    assume "create_body env s = (Ret None, t)"
    then show ?thesis by (rule body [unfolded c(2,3)])
  next
    assume "create_body env s = (Ret (Some (Inl 0)), t)"
    then show ?thesis by (rule body [unfolded c(2,3)])
  qed (use ret in auto)
  ultimately show "link i k d t" using assms by (simp add: link_def)
qed

lemma teardown_destroys:
  "length (filter is_destroy (teardown_calls n c)) = (if rc_cm_id c = NULL then 0 else 1)"
  by (simp add: teardown_calls_def slot_calls_def)

lemma count_calls_fst: "count_calls P tr = length (filter P (map fst tr))"
  by (induction tr) (simp_all add: count_calls_def)

lemma count_calls_made: "made s t xs \<Longrightarrow>
    count_calls P (calls t) = count_calls P (calls s) + length (filter P xs)"
  by (simp add: count_calls_fst made_def)

lemma wp_disconnect_link:
  assumes "link i k d s"
  shows "wp (fs_rdma_cm_handle_disconnect env) (\<lambda>r t. r = Ret () \<and> closed_link i k d t) s"
proof -
  obtain c where c: "rdma_ctx s = Some c" "rc_cm_id c = i" "rc_connected c = k"
    using link_ctx [OF assms] by blast
  have t: "fst (fs_rdma_teardown env s) = Ret 0"
    "ctx_step s (torn_down (cf_qp_count (config s)) c) (teardown_calls (cf_qp_count (config s)) c)
       (snd (fs_rdma_teardown env s))"
    using teardown_run [OF c(1)] by blast+
  have "destroys (snd (fs_rdma_teardown env s)) = (if i = NULL then d else Suc d)"
    using count_calls_made [of s "snd (fs_rdma_teardown env s)"
        "teardown_calls (cf_qp_count (config s)) c" is_destroy] t(2) assms
    by (simp add: ctx_step_def destroys_def link_def teardown_destroys c(2))
  then have "closed_link i k d (snd (fs_rdma_teardown env s))"
    using t(2) c(3) by (auto simp: ctx_step_def closed_link_def link_def torn_down_def slot_clear_def)
  then show ?thesis
    unfolding fs_rdma_cm_handle_disconnect_def wp_bind by (simp add: wp_def t(1) retM_def)
qed

lemma wp_connect_init_link:
  assumes "link i k d s"
  shows "wp (fs_rdma_cm_handle_connect_init env ev)
    (\<lambda>r t. (\<exists>x. r = Ret x) \<and> link i (if ev_id ev = i \<and> k \<noteq> 1 then 1 else k) d t) s"
proof -
  obtain c where c: "rdma_ctx s = Some c" "rc_cm_id c = i" "rc_connected c = k"
    using link_ctx [OF assms] by blast
  show ?thesis
    unfolding fs_rdma_cm_handle_connect_init_def Let_def
    using assms c by (auto simp: wp_simps wp_ctx intro!: wp_calls) (auto simp: link_def destroys_def)
qed

section \<open>The life cycle\<close>

datatype phase = Open | Connected | Closed

text \<open>The abstraction: a null identifier is a closed connection, the flag tells the rest.\<close>

definition phase_of :: "rdma_context \<Rightarrow> phase" where
  "phase_of c = (if rc_cm_id c = NULL then Closed else if rc_connected c = 1 then Connected else Open)"

text \<open>What an event may do to the phase; \<open>own\<close> says that it names the context's identifier.\<close>

inductive phase_step :: "cm_event_type \<Rightarrow> bool \<Rightarrow> phase \<Rightarrow> phase \<Rightarrow> bool" where
  stays: "\<not> acks_first ty \<Longrightarrow> ty \<noteq> RDMA_CM_EVENT_ESTABLISHED \<or> \<not> own \<or> p \<noteq> Open \<Longrightarrow> phase_step ty own p p"
| connects: "ty \<in> {RDMA_CM_EVENT_CONNECT_REQUEST, RDMA_CM_EVENT_ESTABLISHED} \<Longrightarrow>
    phase_step ty True Open Connected"
| gives_up: "ty \<in> {RDMA_CM_EVENT_ADDR_RESOLVED, RDMA_CM_EVENT_ROUTE_RESOLVED,
    RDMA_CM_EVENT_CONNECT_REQUEST} \<Longrightarrow> phase_step ty own p Closed"
| closes: "acks_first ty \<Longrightarrow> phase_step ty own p Closed"

inductive_simps phase_step_iff: "phase_step ty own p q"

lemma phase_of_link:
  "link i k d s \<Longrightarrow> phase_of (the (rdma_ctx s)) =
     (if i = NULL then Closed else if k = 1 then Connected else Open)"
  by (auto simp: link_def phase_of_def)

text \<open>The effect of a handler on the link, by kind of event.\<close>

definition handled :: "cm_event \<Rightarrow> addr \<Rightarrow> int \<Rightarrow> nat \<Rightarrow> fs_state \<Rightarrow> bool" where
  "handled ev i k d t \<longleftrightarrow>
     (if acks_first (ev_type ev) then closed_link i k d t
      else let connected = link i (if ev_id ev = i \<and> k \<noteq> 1 then 1 else k) d t in
        case ev_type ev of
          RDMA_CM_EVENT_ADDR_RESOLVED \<Rightarrow> link i k d t \<or> closed_link i k d t
        | RDMA_CM_EVENT_ROUTE_RESOLVED \<Rightarrow> link i k d t \<or> closed_link i k d t
        | RDMA_CM_EVENT_CONNECT_REQUEST \<Rightarrow> connected \<or> closed_link i k d t
        | RDMA_CM_EVENT_ESTABLISHED \<Rightarrow> connected
        | _ \<Rightarrow> link i k d t)"

text \<open>A command that ends in the tear-down and an \<open>int\<close> result.\<close>

lemma wp_disconnect_ret:
  assumes "link i k d s"
  shows "wp (fs_rdma_cm_handle_disconnect env)
    (after (\<lambda>_. retM x) (\<lambda>r t. (\<exists>x. r = Ret x) \<longrightarrow> P t \<or> closed_link i k d t)) s"
  by (rule wp_mono [OF wp_disconnect_link [OF assms(1)]]) auto

lemma wp_create_then:
  assumes "link i k d s"
    and "\<And>x t. link i k d t \<Longrightarrow> wp (f x) (\<lambda>r t. (\<exists>x. r = Ret x) \<longrightarrow> P t) t"
  shows "wp (fs_rdma_create_resources env) (after f (\<lambda>r t. (\<exists>x. r = Ret x) \<longrightarrow> P t)) s"
  by (rule wp_mono [OF wp_create_link [OF assms(1)]]) (auto simp: after_def assms(2) split: outcome.split)

lemma wp_addr_resolved_link:
  assumes "link i k d s"
  shows "wp (fs_rdma_cm_handle_addr_resolved env ev)
    (\<lambda>r t. (\<exists>x. r = Ret x) \<longrightarrow> link i k d t \<or> closed_link i k d t) s"
  unfolding fs_rdma_cm_handle_addr_resolved_def wp_bind
  by (rule wp_calls) (simp add: wp_simps assms wp_disconnect_ret)

lemma wp_route_resolved_link:
  assumes "link i k d s"
  shows "wp (fs_rdma_cm_handle_route_resolved env e)
    (\<lambda>r t. (\<exists>x. r = Ret x) \<longrightarrow> link i k d t \<or> closed_link i k d t) s"
  unfolding fs_rdma_cm_handle_route_resolved_def
  using assms by (auto simp: wp_simps wp_get_ctx split: option.split
      intro!: wp_calls wp_disconnect_ret wp_create_then)

lemma wp_connect_request_link:
  assumes "link i k d s" and K: "K = (if ev_id ev = i \<and> k \<noteq> 1 then 1 else k)"
  shows "wp (fs_rdma_cm_handle_connect_request env ev)
    (\<lambda>r t. (\<exists>x. r = Ret x) \<longrightarrow> link i K d t \<or> closed_link i k d t) s"
proof -
  have init: "wp (fs_rdma_cm_handle_connect_init env ev) (after (\<lambda>_. retM 0)
      (\<lambda>r t. (\<exists>x. r = Ret x) \<longrightarrow> link i K d t \<or> closed_link i k d t)) t"
    if "link i k d t" for t
    unfolding K by (rule wp_mono [OF wp_connect_init_link [OF that]]) auto
  show ?thesis
    unfolding fs_rdma_cm_handle_connect_request_def
    using assms(1) by (auto simp: wp_simps wp_get_ctx split: option.split
        intro!: wp_calls wp_disconnect_ret wp_create_then init)
qed

lemma wp_ignore: "wp m (\<lambda>r t. (\<exists>x. r = Ret x) \<longrightarrow> P t) s \<Longrightarrow>
    wp (bindM m (\<lambda>_. retM ())) (\<lambda>r t. r = Ret () \<longrightarrow> P t) s"
  unfolding wp_bind by (erule wp_mono) (auto simp: after_def split: outcome.split)

lemma wp_handler_link:
  assumes s: "link i k d s"
  shows "wp (handler env ev) (\<lambda>r t. r = Ret () \<longrightarrow> handled ev i k d t) s"
proof -
  obtain K where K: "K = (if ev_id ev = i \<and> k \<noteq> 1 then 1 else k)" by simp
  have closes: "wp (fs_rdma_cm_handle_disconnect env) (\<lambda>r t. r = Ret () \<longrightarrow> closed_link i k d t) s"
    by (rule wp_mono [OF wp_disconnect_link [OF s]]) simp
  have init: "wp (fs_rdma_cm_handle_connect_init env ev) (\<lambda>r t. (\<exists>x. r = Ret x) \<longrightarrow> link i K d t) s"
    unfolding K by (rule wp_mono [OF wp_connect_init_link [OF s]]) simp
  show ?thesis
    unfolding handler_def handled_def acks_first_def Let_def K [symmetric]
    by (cases "ev_type ev")
      (simp_all add: s closes wp_ignore [OF init] wp_ignore [OF wp_addr_resolved_link [OF s]]
        wp_ignore [OF wp_route_resolved_link [OF s]] wp_ignore [OF wp_connect_request_link [OF s K]])
qed

section \<open>One turn as a step of the life cycle\<close>

text \<open>The event the next turn gets.\<close>

definition next_event :: "vcall env \<Rightarrow> addr \<Rightarrow> fs_state \<Rightarrow> cm_event" where
  "next_event env ch s = r_event (env (calls s) (Rdma_get_cm_event ch))"

lemma handled_calls [simp]:
  "\<not> is_destroy c \<Longrightarrow> handled ev i k d (s\<lparr>calls := calls s @ [(c, r)]\<rparr>) = handled ev i k d s"
  by (simp add: handled_def closed_link_def Let_def split: cm_event_type.split)

lemma wp_turn_link:
  assumes "link i k d s"
  shows "wp (cm_turn env ch e) (\<lambda>r t. ((\<exists>x. r = Ret (Some x)) \<longrightarrow> handled (next_event env ch s) i k d t) \<and>
     (r = Ret None \<longrightarrow> rdma_ctx t = rdma_ctx s)) s"
  unfolding cm_turn_shape handle_and_ack_def ack_def next_event_def
  using assms by (auto simp: wp_simps wp_ext_eq after_def intro!: wp_calls wp_mono [OF wp_handler_link]
      split: outcome.split)

lemma turn_link:
  "cm_turn env ch e s = (Ret (Some x), t) \<Longrightarrow> link i k d s \<Longrightarrow> handled (next_event env ch s) i k d t"
  using wpD [OF wp_turn_link] by blast

lemma link_exI: "rdma_ctx s = Some c \<Longrightarrow> link (rc_cm_id c) (rc_connected c) (destroys s) s"
  by (simp add: link_def)

text \<open>However a turn went, the link keeps its identifier or is closed.\<close>

lemma handled_link:
  "handled ev i k d t \<Longrightarrow> \<exists>k'. (link i k' d t \<or> closed_link i k' d t) \<and>
     (k' = k \<or> ev_id ev = i \<and> ev_type ev \<in> {RDMA_CM_EVENT_CONNECT_REQUEST, RDMA_CM_EVENT_ESTABLISHED})"
  by (cases "ev_type ev") (auto simp: handled_def Let_def acks_first_def split: if_splits)

lemma handled_phase:
  assumes "handled ev i k d t"
  shows "phase_step (ev_type ev) (ev_id ev = i)
    (if i = NULL then Closed else if k = 1 then Connected else Open) (phase_of (the (rdma_ctx t)))"
  using assms
  by (cases "ev_type ev")
    (auto simp: handled_def Let_def acks_first_def closed_link_def phase_of_link
      phase_step_iff split: if_splits)

section \<open>Properties\<close>

text \<open>C1: the event loop's accounts.  However \<open>fs_rdma_cm_event_handler\<close> ends, it never returns
  and never ends the process: it uses up the fuel or runs into undefined behaviour.  It
  acknowledged the events it got in the order of their delivery, each exactly once and with at most
  the last one open; as long as it only ran out of fuel it handled one event per turn and left none
  open.\<close>

theorem event_loop_accounts:
  assumes "fs_rdma_cm_event_handler env fuel ch s = (r, t)"
  shows "(r = Stop Out_Of_Fuel \<or> (\<exists>f. r = Stop (Faulted f))) \<and>
    (\<exists>as bs. got_events t = got_events s @ as @ bs \<and> acked_events t = acked_events s @ as \<and> length bs \<le> 1 \<and>
       (r = Stop Out_Of_Fuel \<longrightarrow> length as = fuel \<and> bs = []))"
proof -
  have run: "forever fuel (cm_turn env ch) NULL s = (r, t)"
    using assms by (simp add: fs_rdma_cm_event_handler_def)
  have no_fuel: "cm_turn env ch e u \<noteq> (Stop Out_Of_Fuel, v)" for e u v
    using only_faultsD [OF only_faults_turn, of env ch e u] by force
  obtain k e' u where k: "turns (cm_turn env ch) k NULL s e' u" "loop_end (cm_turn env ch) (fuel - k) e' u r t"
    using forever_end [OF run] by blast
  have e': "stale e' u" by (rule turns_stale [OF k(1)]) (simp add: stale_def)
  from k(2) have "r = Stop Out_Of_Fuel \<or> (\<exists>f. r = Stop (Faulted f))"
  proof cases
    case broken
    with stale_no_break [OF e'] show ?thesis by blast
  next
    case (stopped x)
    with only_faultsD [OF only_faults_turn] show ?thesis by fastforce
  qed simp
  then show ?thesis
    using cml.forever_accounts [OF run] cml.forever_balanced [OF _ no_fuel] run
    by (cases "r = Stop Out_Of_Fuel") (simp_all, metis append_Nil2 bot_nat_0.extremum list.size(3))
qed

text \<open>C16: a failing \<open>rdma_get_cm_event\<close> is never handled.  After any number of turns the event
  pointer is null or that of an event whose acknowledgement, the very last call, freed it; so the
  copy that comes before the test of the result faults, and the \<open>break\<close> is not reached.\<close>

theorem get_failure_faults:
  assumes "turns (cm_turn env ch) n NULL s e u"
    and "r_int (env (calls u) (Rdma_get_cm_event ch)) \<noteq> 0"
  shows "(e = NULL \<or> (\<exists>tr q. calls u = tr @ [(Rdma_ack_cm_event e, q)])) \<and>
    fst (fs_rdma_cm_event_handler env (n + Suc k) ch s) =
      Stop (Faulted (if e = NULL then Null_Deref else Dangling_Deref))"
proof -
  have e: "stale e u" by (rule turns_stale [OF assms(1)]) (simp add: stale_def)
  have "fst (forever (Suc k) (cm_turn env ch) e u) =
      Stop (Faulted (if e = NULL then Null_Deref else Dangling_Deref))"
    using stale_turn [of e u env ch] e assms(2) by (cases "cm_turn env ch e u") (simp split del: if_split)
  then show ?thesis
    using e unfolding fs_rdma_cm_event_handler_def forever_after_turns [OF assms(1)] by (simp add: stale_def)
qed

text \<open>C2: refinement.  Every turn that completes takes the connection along a step of the life
  cycle \<open>phase_step\<close>: it becomes connected only from \<open>Open\<close> and only by a connect request or an
  establishment that names the context's own identifier, an error or a disconnect always closes
  it, only resolving and requesting may give up, every other event leaves it alone, and a closed
  connection stays closed.\<close>

theorem cm_turn_refines:
  assumes "cm_turn env ch e s = (Ret x, t)" and "rdma_ctx s = Some c"
  shows "\<exists>c'. rdma_ctx t = Some c' \<and>
    (if x = None then c' = c
     else phase_step (ev_type (next_event env ch s)) (ev_id (next_event env ch s) = rc_cm_id c)
      (phase_of c) (phase_of c'))"
proof (cases x)
  case None
  then show ?thesis using wpD [OF wp_turn_link [OF link_exI [OF assms(2)]] assms(1)] assms(2) by simp
next
  case (Some y)
  have h: "handled (next_event env ch s) (rc_cm_id c) (rc_connected c) (destroys s) t"
    using turn_link [OF assms(1) [unfolded Some] link_exI [OF assms(2)]] .
  obtain c' where "rdma_ctx t = Some c'"
    using handled_link [OF h] by (auto simp: link_def closed_link_def)
  with handled_phase [OF h] Some show ?thesis by (simp add: phase_of_def)
qed

text \<open>Over any number of turns the connection's identifier is destroyed at most once: it is
  either unchanged and nothing was destroyed, or it is null and exactly one identifier was.\<close>

theorem identifier_destroyed_once:
  assumes "turns (cm_turn env ch) n e s e' t" and "rdma_ctx s = Some c" and "rc_cm_id c \<noteq> NULL"
  shows "\<exists>c'. rdma_ctx t = Some c' \<and>
    (rc_cm_id c' = rc_cm_id c \<and> destroys t = destroys s \<or>
     rc_cm_id c' = NULL \<and> destroys t = Suc (destroys s))"
proof -
  let ?I = "\<lambda>u. \<exists>k. link (rc_cm_id c) k (destroys s) u \<or> link NULL k (Suc (destroys s)) u"
  have "?I t"
  proof (rule turns_invariant [OF assms(1)])
    show "?I s" using link_exI [OF assms(2)] by blast
  next
    fix e u e' v
    assume "?I u" and turn: "cm_turn env ch e u = (Ret (Some e'), v)"
    then show "?I v"
      using assms(3) by (auto dest!: turn_link [OF turn] handled_link simp: closed_link_def)
  qed
  then show ?thesis by (auto simp: link_def)
qed

text \<open>The event a turn got is in the history, behind what was there before.\<close>

lemma turn_grows:
  assumes "cm_turn env ch e s = (r, t)"
  shows "prefix (calls s @ [(Rdma_get_cm_event ch, env (calls s) (Rdma_get_cm_event ch))]) (calls t)"
proof -
  have "emits UNIV (if r_int q \<noteq> 0 then failed_get e
     else if ev_addr (r_event q) = NULL then stopM (Faulted Null_Deref)
     else thenM (handle_and_ack env (r_event q))
       (retM (Some (if acks_first (ev_type (r_event q)) then NULL else ev_addr (r_event q)))))" for q
    unfolding handle_and_ack_def ack_def
    by (intro emits_intros emits_mono [OF emits_handler] UNIV_I subset_UNIV)
  from emitsD [OF this] show ?thesis
    using assms unfolding cm_turn_shape bindM_def ext_def Let_def
    by (fastforce simp: grown_def prefix_def split: prod.splits)
qed

text \<open>C17: the \<open>connected\<close> flag changes only through an event that names the context's own
  identifier (or a null one).  Whatever happens over any number of turns, the flag is what it was,
  or the run was delivered a \<open>CONNECT_REQUEST\<close> or an \<open>ESTABLISHED\<close> event with that identifier.  So
  a server, whose requests and established connections come with new identifiers while its own is
  the listening one, never becomes connected, its own accepted connections included.\<close>

theorem server_never_connected:
  assumes "turns (cm_turn env ch) n e s e' t" and "rdma_ctx s = Some c"
  shows "\<exists>c'. rdma_ctx t = Some c' \<and> (rc_connected c' = rc_connected c \<or>
    (\<exists>q. (Rdma_get_cm_event ch, q) \<in> set (since s t) \<and> ev_id (r_event q) \<in> {NULL, rc_cm_id c} \<and>
       ev_type (r_event q) \<in> {RDMA_CM_EVENT_CONNECT_REQUEST, RDMA_CM_EVENT_ESTABLISHED}))"
proof -
  let ?own = "\<lambda>q. ev_id (r_event q) \<in> {NULL, rc_cm_id c} \<and>
    ev_type (r_event q) \<in> {RDMA_CM_EVENT_CONNECT_REQUEST, RDMA_CM_EVENT_ESTABLISHED}"
  let ?I = "\<lambda>u :: fs_state. prefix (calls s) (calls u) \<and> (\<exists>k d. (link (rc_cm_id c) k d u \<or> link NULL k d u) \<and>
    (k = rc_connected c \<or> (\<exists>q. (Rdma_get_cm_event ch, q) \<in> set (since s u) \<and> ?own q)))"
  have "?I t"
  proof (rule turns_invariant [OF assms(1)])
    show "?I s" using link_exI [OF assms(2)] by blast
  next
    fix e e' and u v :: fs_state
    let ?q = "env (calls u) (Rdma_get_cm_event ch)"
    assume I: "?I u" and turn: "cm_turn env ch e u = (Ret (Some e'), v)"
    then obtain i k d where u: "link i k d u" "i \<in> {NULL, rc_cm_id c}"
      "k = rc_connected c \<or> (\<exists>q. (Rdma_get_cm_event ch, q) \<in> set (since s u) \<and> ?own q)"
      by blast
    obtain xs where "calls u = calls s @ xs" using I by (auto simp: prefix_def)
    moreover obtain ys where "calls v = calls u @ (Rdma_get_cm_event ch, ?q) # ys"
      using turn_grows [OF turn] by (auto simp: prefix_def)
    ultimately have v: "prefix (calls s) (calls v)" "set (since s v) = insert (Rdma_get_cm_event ch, ?q) (set (since s u) \<union> set ys)"
      by (auto simp: since_def)
    obtain k' where k': "link i k' d v \<or> closed_link i k' d v"
      "k' = k \<or> ev_id (next_event env ch u) = i \<and>
        ev_type (next_event env ch u) \<in> {RDMA_CM_EVENT_CONNECT_REQUEST, RDMA_CM_EVENT_ESTABLISHED}"
      using handled_link [OF turn_link [OF turn u(1)]] by blast
    have "k' = rc_connected c \<or> (\<exists>q. (Rdma_get_cm_event ch, q) \<in> set (since s v) \<and> ?own q)"
      using k'(2) u(2,3) unfolding v(2) next_event_def by blast
    moreover have "\<exists>d. link (rc_cm_id c) k' d v \<or> link NULL k' d v"
      using k'(1) u(2) by (auto simp: closed_link_def)
    ultimately show "?I v" using v(1) by blast
  qed
  then show ?thesis by (auto simp: link_def)
qed

text \<open>The calls of a disconnect.\<close>

lemma wp_disconnect_calls:
  assumes "rdma_ctx s = Some c"
  shows "wp (fs_rdma_cm_handle_disconnect env) (\<lambda>r t. r = Ret () \<and>
    ctx_step s (torn_down (cf_qp_count (config s)) c) (teardown_calls (cf_qp_count (config s)) c) t) s"
  unfolding fs_rdma_cm_handle_disconnect_def wp_bind
  by (rule wpI) (use teardown_run [OF assms, of env] in \<open>auto simp: after_def\<close>)

text \<open>An error or disconnect event is acknowledged before anything is released: the turn makes
  exactly the calls get, acknowledge, and then those of the tear-down, and leaves the context the
  tear-down leaves.\<close>

lemma closing_turn:
  assumes "rdma_ctx s = Some c" and "ev = next_event env ch s"
    and "r_int (env (calls s) (Rdma_get_cm_event ch)) = 0" and "ev_addr ev \<noteq> NULL"
    and "acks_first (ev_type ev)"
  obtains t where "cm_turn env ch e s = (Ret (Some NULL), t)"
    "ctx_step s (torn_down (cf_qp_count (config s)) c) ([Rdma_get_cm_event ch, Rdma_ack_cm_event (ev_addr ev)] @
      teardown_calls (cf_qp_count (config s)) c) t"
proof -
  note ev = assms(2) [unfolded next_event_def, symmetric]
  let ?Q = "ctx_step s (torn_down (cf_qp_count (config s)) c) ([Rdma_get_cm_event ch,
    Rdma_ack_cm_event (ev_addr ev)] @ teardown_calls (cf_qp_count (config s)) c)"
  let ?s = "\<lambda>r q. s\<lparr>calls := calls s @ [(Rdma_get_cm_event ch, r), (Rdma_ack_cm_event (ev_addr ev), q)]\<rparr>"
  have close: "handler env ev = fs_rdma_cm_handle_disconnect env"
    using assms(5) by (auto simp: handler_def acks_first_def)
  have dis: "wp (fs_rdma_cm_handle_disconnect env) (\<lambda>r t. r = Ret () \<and> ?Q t) (?s r q)" for r q
    by (rule wp_mono [OF wp_disconnect_calls]) (auto simp: assms(1) ctx_step_def made_def dest: append_prefixD)
  have "wp (cm_turn env ch e) (\<lambda>r t. r = Ret (Some NULL) \<and> ?Q t) s"
    unfolding cm_turn_shape handle_and_ack_def ack_def
    using assms(3-5) close
    by (auto simp: wp_simps wp_ext_eq wp_call_void_eq ev intro!: wp_mono [OF dis])
  then show ?thesis by (rule wpE) (use that in blast)
qed

theorem error_turn_calls:
  assumes "rdma_ctx s = Some c" and "ev = next_event env ch s"
    and "r_int (env (calls s) (Rdma_get_cm_event ch)) = 0" and "ev_addr ev \<noteq> NULL"
    and "ev_type ev \<in> {RDMA_CM_EVENT_ADDR_ERROR, RDMA_CM_EVENT_ROUTE_ERROR,
      RDMA_CM_EVENT_CONNECT_ERROR, RDMA_CM_EVENT_UNREACHABLE, RDMA_CM_EVENT_REJECTED,
      RDMA_CM_EVENT_DISCONNECTED}"
  shows "fst (cm_turn env ch e s) = Ret (Some NULL) \<and>
    made s (snd (cm_turn env ch e s)) ([Rdma_get_cm_event ch, Rdma_ack_cm_event (ev_addr ev)] @
      teardown_calls (cf_qp_count (config s)) c)"
  by (rule closing_turn [OF assms(1-4), where e = e]) (use assms(5) in \<open>auto simp: acks_first_def ctx_step_def\<close>)

text \<open>When the route cannot be resolved the order is the other way round: the connection is
  torn down, and its identifier destroyed, inside the handler, and only then is the event that
  belongs to the identifier acknowledged.\<close>

theorem failed_route_turn_calls:
  assumes "rdma_ctx s = Some c" and "ev = next_event env ch s"
    and "r_int (env (calls s) (Rdma_get_cm_event ch)) = 0" and "ev_addr ev \<noteq> NULL"
    and "ev_type ev = RDMA_CM_EVENT_ADDR_RESOLVED"
    and "\<And>tr. r_int (env tr (Rdma_resolve_route (ev_id ev) TIMEOUT_IN_MS)) \<noteq> 0"
  shows "fst (cm_turn env ch e s) = Ret (Some (ev_addr ev)) \<and>
    made s (snd (cm_turn env ch e s))
      ([Rdma_get_cm_event ch, Rdma_resolve_route (ev_id ev) TIMEOUT_IN_MS] @
        teardown_calls (cf_qp_count (config s)) c @ [Rdma_ack_cm_event (ev_addr ev)])"
proof -
  note ev = assms(2) [unfolded next_event_def, symmetric]
  let ?xs = "[Rdma_get_cm_event ch, Rdma_resolve_route (ev_id ev) TIMEOUT_IN_MS] @
        teardown_calls (cf_qp_count (config s)) c"
  have dis: "wp (fs_rdma_cm_handle_disconnect env) (\<lambda>r t. r = Ret () \<and> made s t ?xs)
      (s\<lparr>calls := calls s @ [(Rdma_get_cm_event ch, r),
        (Rdma_resolve_route (ev_id ev) TIMEOUT_IN_MS, q)]\<rparr>)" for r q
    by (rule wp_mono [OF wp_disconnect_calls]) (auto simp: assms(1) ctx_step_def made_def dest: append_prefixD)
  have "wp (cm_turn env ch e) (\<lambda>r t. r = Ret (Some (ev_addr ev)) \<and>
      made s t (?xs @ [Rdma_ack_cm_event (ev_addr ev)])) s"
    unfolding cm_turn_def Let_def fs_rdma_cm_handle_addr_resolved_def ack_def
    using assms(3-6)
    by (auto simp: wp_simps wp_ext_eq wp_call_int_eq wp_call_void_eq ev intro!: wp_mono [OF dis])
      (simp add: made_def)
  then show ?thesis by (simp add: wp_def)
qed

text \<open>C38: A server hangs up on its own listener.  When a connect request on a new identifier is
  handled to the end, the last two calls accept on the listening identifier, not on the event's,
  and then disconnect that same listening identifier.\<close>

theorem connect_request_disconnects_listener:
  assumes "fs_rdma_cm_handle_connect_request env ev s = (Ret 0, t)" and "rdma_ctx s = Some c"
    and "ev_id ev \<noteq> rc_cm_id c"
  shows "\<exists>xs. made s t (xs @ [Rdma_accept (rc_cm_id c) (conn_params (cf_retry_count (config s))),
    Rdma_disconnect (rc_cm_id c)])"
proof -
  let ?x = "Rdma_accept (rc_cm_id c) (conn_params (cf_retry_count (config s)))"
  obtain j u where j: "fs_rdma_create_resources env s = (j, u)" by fastforce
  have ret: "\<exists>x. j = Ret x"
    using assms(1) j by (auto simp: fs_rdma_cm_handle_connect_request_def bindM_def split: outcome.splits)
  have "link (rc_cm_id c) (rc_connected c) (destroys s) u"
    using wpD [OF wp_create_link [OF link_exI [OF assms(2)]] j] ret by blast
  then obtain d where d: "rdma_ctx u = Some d" "rc_cm_id d = rc_cm_id c"
    by (auto simp: link_def)
  have cf: "config u = config s"
    by (rule create_resources_cases [OF j assms(2)])
      (use wpD [OF wp_create_body [OF assms(2)]] in \<open>auto simp: leaves_def ctx_step_def\<close>)
  have "grown quiet (calls s) (calls u)"
    by (rule emitsD [OF emits_create_resources j])
  then obtain xs where xs: "made s u xs" by (auto simp: grown_def made_def)
  have tear: "wp (fs_rdma_cm_handle_disconnect env) (after (\<lambda>_. retM x)
      (\<lambda>r t. r = Ret 0 \<longrightarrow> P t)) v" if "x \<noteq> (0::int)" for x v P
    using that by (intro wpI) (auto simp: after_def split: outcome.split)
  have "wp (fs_rdma_cm_handle_connect_request env ev)
      (\<lambda>r t. r = Ret 0 \<longrightarrow> (\<exists>xs. made s t (xs @ [?x, Rdma_disconnect (rc_cm_id c)]))) s"
    unfolding fs_rdma_cm_handle_connect_request_def wp_bind [of "fs_rdma_create_resources env"]
      fs_rdma_cm_handle_connect_init_def Let_def
    by (rule wpI, unfold j, elim Pair_inject, use ret d xs cf assms(3) in
      \<open>auto simp: wp_simps wp_ctx made_def intro!: wp_calls tear\<close>)
  then show ?thesis using assms(1) by (auto simp: wp_def)
qed

text \<open>The client's connect call.  Once the resources exist, the handler of a resolved route
  connects the context's identifier with one responder resource, one initiator, endless
  receiver-not-ready retries, and the configured retry count reduced modulo 256 to one byte; it
  returns the answer, and tears the connection down first when that is not 0.\<close>

theorem route_resolved_connects:
  assumes "fs_rdma_create_resources env s = (Ret 0, u)" and "rdma_ctx u = Some c"
    and "x = Rdma_connect (rc_cm_id c) (conn_params (cf_retry_count (config u)))"
    and "q = r_int (env (calls u) x)"
  shows "fst (fs_rdma_cm_handle_route_resolved env (Some ev) s) = Ret q \<and>
    made u (snd (fs_rdma_cm_handle_route_resolved env (Some ev) s))
      (x # (if q = 0 then [] else teardown_calls (cf_qp_count (config u)) c)) \<and>
    uint (cp_retry_count (conn_params (cf_retry_count (config u)))) = cf_retry_count (config u) mod 256"
proof -
  note q = assms(4) [symmetric]
  let ?xs = "x # (if q = 0 then [] else teardown_calls (cf_qp_count (config u)) c)"
  have dis: "wp (fs_rdma_cm_handle_disconnect env) (\<lambda>r t. r = Ret () \<and> made u t
      (x # teardown_calls (cf_qp_count (config u)) c)) (u\<lparr>calls := calls u @ [(x, a)]\<rparr>)" for a
    by (rule wp_mono [OF wp_disconnect_calls]) (auto simp: assms(2) ctx_step_def made_def dest: append_prefixD)
  have "wp (fs_rdma_cm_handle_route_resolved env (Some ev)) (\<lambda>r t. r = Ret q \<and> made u t ?xs) s"
    unfolding fs_rdma_cm_handle_route_resolved_def
    by (simp only: option.distinct if_False wp_bind [of "fs_rdma_create_resources env"], rule wpI)
      (auto simp: wp_simps wp_ctx wp_call_int_eq assms(1,2) q assms(3) [symmetric] made_def
        intro!: wp_mono [OF dis])
  moreover have "uint (cp_retry_count (conn_params n)) = n mod 256" for n
    by (simp add: conn_params_def conn_param0_def uint_word_of_int)
  ultimately show ?thesis by (simp add: wp_def)
qed

text \<open>C39: An error before the resources exist releases memory's leftovers.  The context comes from
  \<open>malloc\<close> and only its channel, identifier and arrays are set; when the address cannot be
  resolved, the tear-down destroys a queue pair that was never created, deregisters and frees the
  empty arrays, and passes on whatever the members \<open>cq\<close> and \<open>pd\<close> happened to hold.\<close>

theorem early_error_releases_garbage:
  assumes "fs_rdma_create_ctx env s = (Ret 0, t)" and "0 < cf_qp_count (config s)"
    and "c_int (cf_qp_count (config s))" and "rdma_ctx t = Some c"
    and "g = r_cells (env (calls s) Malloc_rdma_ctx)"
  shows "made t (snd (fs_rdma_cm_handle_event_error env t))
    ([Rdma_destroy_qp (rc_cm_id c), Ibv_dereg_mr (arr_base (rc_mr c)), Free (arr_base (rc_buf c))] @
     (if g 18 = NULL then [] else [Ibv_destroy_cq (g 18)]) @
     (if g 4 = NULL then [] else [Ibv_dealloc_pd (g 4)]) @
     (if rc_cm_id c = NULL then [] else [Rdma_destroy_id (rc_cm_id c)]))"
    (is "made _ _ ?xs")
proof -
  have "wp (fs_rdma_create_ctx env) (\<lambda>r t. r = Ret 0 \<longrightarrow> config t = config s \<and> (\<exists>c. rdma_ctx t = Some c \<and>
      rc_cq c = g 18 \<and> rc_pd c = g 4 \<and> arrays_ready (cf_qp_count (config s)) c)) s"
    unfolding fs_rdma_create_ctx_def
    using assms(2) by (simp add: wp_simps wp_ext_eq assms(5) [symmetric])
      (auto simp: wp_simps wp_ctx arrays_ready_def arr_ok_fresh assms(3)
        intro!: wp_calls wp_ALLOCATE)
  then have c: "config t = config s" "rc_cq c = g 18" "rc_pd c = g 4"
    "arrays_ready (cf_qp_count (config s)) c"
    using assms(1,4) by (auto simp: wp_def)
  have "wp (fs_rdma_cm_handle_event_error env)
      (\<lambda>r u. made t u (teardown_calls (cf_qp_count (config t)) c)) t"
    unfolding fs_rdma_cm_handle_event_error_def wp_then
    by (rule wp_mono [OF wp_disconnect_calls [OF assms(4)]]) (auto simp: ctx_step_def)
  then have run: "made t (snd (fs_rdma_cm_handle_event_error env t)) (teardown_calls (cf_qp_count (config t)) c)"
    by (simp add: wp_def)
  have "rc_qp c \<noteq> Null_arr" "rc_mr c \<noteq> Null_arr" "rc_buf c \<noteq> Null_arr"
    using c(4) by (auto simp: arrays_ready_def arr_ok_def)
  then have "teardown_calls (cf_qp_count (config t)) c = ?xs"
    using c(1-3) assms(2) by (simp add: teardown_calls_def slot_calls_def)
  with run show ?thesis by (simp only:)
qed

section \<open>Concrete sessions\<close>

definition event_of :: "cm_event_type \<Rightarrow> addr \<Rightarrow> cm_event" where
  "event_of ty i = event0\<lparr>ev_addr := 33, ev_type := ty, ev_id := i\<rparr>"

text \<open>A host where every call succeeds and every event is \<open>ev\<close>.\<close>

definition event_host :: "cm_event \<Rightarrow> vcall env" where
  "event_host ev tr c = (full_host tr c)\<lparr>r_event := ev\<rparr>"

lemma event_of_simps [simp]:
  "ev_addr (event_of ty i) = 33" "ev_type (event_of ty i) = ty" "ev_id (event_of ty i) = i"
  by (simp_all add: event_of_def)

lemmas hosts = event_host_def full_host_def resp0_def

lemmas turn_defs = cm_turn_def copy_event_def event_alive_def ack_def create_defs release_defs fs_rdma_cm_handle_disconnect_def
  fs_rdma_cm_handle_event_error_def fs_rdma_cm_handle_connect_request_def
  fs_rdma_cm_handle_connect_init_def fs_rdma_cm_handle_addr_resolved_def
  fs_rdma_cm_handle_route_resolved_def

lemma one_turn_turns: "cm_turn env ch e s = (Ret (Some e'), t) \<Longrightarrow> turns (cm_turn env ch) 1 e s e' t"
  using turns_next [of "cm_turn env ch" e s e' t 0 e' t] by (simp add: turns_start)

text \<open>One turn with each of the events used below.\<close>

lemma established_turn:
  "fst (cm_turn (event_host (event_of RDMA_CM_EVENT_ESTABLISHED 7)) 5 NULL one_slot) = Ret (Some 33)"
  by (simp add: turn_defs hosts)

lemma disconnected_turn:
  "fst (cm_turn (event_host (event_of RDMA_CM_EVENT_DISCONNECTED 7)) 5 NULL one_slot) = Ret (Some NULL)"
  by (simp add: turn_defs hosts)

lemma request_turn:
  "fst (cm_turn (event_host (event_of RDMA_CM_EVENT_CONNECT_REQUEST 9)) 5 NULL one_slot) = Ret (Some 33)"
  "\<forall>x\<in>set (calls (snd (cm_turn (event_host (event_of RDMA_CM_EVENT_CONNECT_REQUEST 9)) 5 NULL one_slot))).
     ev_id (r_event (snd x)) = 9"
  by (simp_all add: turn_defs hosts)

theorem event_loop_accounts_witness:
  "\<exists>t. fs_rdma_cm_event_handler (event_host (event_of (RDMA_CM_EVENT_OTHER 0) 7)) 2 5 fs_init =
      (Stop Out_Of_Fuel, t) \<and> length (got_events t) = 2 \<and> acked_events t = got_events t"
proof -
  let ?m = "fs_rdma_cm_event_handler (event_host (event_of (RDMA_CM_EVENT_OTHER 0) 7)) 2 5 fs_init"
  have "fst ?m = Stop Out_Of_Fuel"
    by (simp add: fs_rdma_cm_event_handler_def numeral_2_eq_2 turn_defs hosts)
  then obtain t where t: "?m = (Stop Out_Of_Fuel, t)" by (metis prod.collapse)
  show ?thesis
    using event_loop_accounts [OF t] t by (auto simp: got_events_def acked_events_def)
qed

text \<open>The first event is delivered, the second call fails.\<close>

definition one_event_host :: "vcall env" where
  "one_event_host tr c = (if tr = [] then event_host (event_of (RDMA_CM_EVENT_OTHER 0) 7) tr c
     else resp0\<lparr>r_int := - 1\<rparr>)"

theorem get_failure_faults_witness:
  "fst (fs_rdma_cm_event_handler one_event_host (1 + Suc 0) 5 fs_init) = Stop (Faulted Dangling_Deref)"
proof -
  obtain t where t: "cm_turn one_event_host 5 NULL fs_init = (Ret (Some 33), t)" "calls t \<noteq> []"
    by (simp add: turn_defs one_event_host_def hosts)
  then show ?thesis
    using get_failure_faults [OF one_turn_turns [OF t(1)], of 0] by (simp add: one_event_host_def)
qed

theorem cm_turn_refines_witness:
  "\<exists>e t c. cm_turn (event_host (event_of RDMA_CM_EVENT_ESTABLISHED 7)) 5 NULL one_slot = (Ret (Some e), t) \<and>
     rdma_ctx t = Some c \<and> phase_step RDMA_CM_EVENT_ESTABLISHED True Open (phase_of c)"
proof -
  obtain e t where t: "cm_turn (event_host (event_of RDMA_CM_EVENT_ESTABLISHED 7)) 5 NULL one_slot =
      (Ret (Some e), t)"
    using established_turn by (metis prod.collapse)
  show ?thesis
    using cm_turn_refines [OF t one_slot_simps(1)] t by (auto simp: next_event_def phase_of_def hosts)
qed

theorem identifier_destroyed_once_witness:
  "\<exists>e t c. turns (cm_turn (event_host (event_of RDMA_CM_EVENT_DISCONNECTED 7)) 5) 1 NULL one_slot e t \<and>
     rdma_ctx t = Some c \<and> (rc_cm_id c = 7 \<and> destroys t = 0 \<or> rc_cm_id c = NULL \<and> destroys t = 1)"
proof -
  obtain e t where t: "cm_turn (event_host (event_of RDMA_CM_EVENT_DISCONNECTED 7)) 5 NULL one_slot =
      (Ret (Some e), t)"
    using disconnected_turn by (metis prod.collapse)
  have "destroys one_slot = 0" by (simp add: destroys_def)
  then show ?thesis
    using identifier_destroyed_once [OF one_turn_turns [OF t] one_slot_simps(1)] one_turn_turns [OF t] by (auto simp: hosts)
qed

theorem server_never_connected_witness:
  "\<exists>e t c. turns (cm_turn (event_host (event_of RDMA_CM_EVENT_CONNECT_REQUEST 9)) 5) 1 NULL one_slot e t \<and>
     rdma_ctx t = Some c \<and> rc_connected c = 0"
proof -
  let ?m = "cm_turn (event_host (event_of RDMA_CM_EVENT_CONNECT_REQUEST 9)) 5 NULL one_slot"
  obtain t where t: "?m = (Ret (Some 33), t)" using request_turn(1) by (metis prod.collapse)
  then have "\<forall>x\<in>set (since one_slot t). ev_id (r_event (snd x)) = 9"
    using request_turn(2) by (auto simp: since_def dest: in_set_dropD)
  then show ?thesis
    using server_never_connected [OF one_turn_turns [OF t] one_slot_simps(1)] one_turn_turns [OF t] by fastforce
qed

theorem error_turn_calls_witness:
  "made one_slot (snd (cm_turn (event_host (event_of RDMA_CM_EVENT_REJECTED 7)) 5 NULL one_slot))
     [Rdma_get_cm_event 5, Rdma_ack_cm_event 33, Rdma_destroy_qp 7, Ibv_dereg_mr 21, Free 22,
      Rdma_destroy_id 7]"
  using error_turn_calls [OF one_slot_simps(1) refl, of "event_host (event_of RDMA_CM_EVENT_REJECTED 7)" 5 NULL]
  by (simp add: hosts next_event_def teardown_calls_def slot_calls_def)

definition no_route_host :: "vcall env" where
  "no_route_host tr c = (case c of Rdma_resolve_route _ _ \<Rightarrow> resp0\<lparr>r_int := - 1\<rparr>
     | _ \<Rightarrow> event_host (event_of RDMA_CM_EVENT_ADDR_RESOLVED 7) tr c)"

theorem failed_route_turn_calls_witness:
  "made one_slot (snd (cm_turn no_route_host 5 NULL one_slot))
     [Rdma_get_cm_event 5, Rdma_resolve_route 7 2000, Rdma_destroy_qp 7, Ibv_dereg_mr 21, Free 22,
      Rdma_destroy_id 7, Rdma_ack_cm_event 33]"
  using failed_route_turn_calls [OF one_slot_simps(1) refl, of no_route_host 5 NULL]
  by (simp add: hosts next_event_def no_route_host_def TIMEOUT_IN_MS_def teardown_calls_def slot_calls_def)

theorem connect_request_disconnects_listener_witness:
  "\<exists>t xs. fs_rdma_cm_handle_connect_request full_host (event_of RDMA_CM_EVENT_CONNECT_REQUEST 9) one_slot =
      (Ret 0, t) \<and> made one_slot t (xs @ [Rdma_accept 7 (conn_params 0), Rdma_disconnect 7])"
proof -
  let ?m = "fs_rdma_cm_handle_connect_request full_host (event_of RDMA_CM_EVENT_CONNECT_REQUEST 9) one_slot"
  have "fst ?m = Ret 0" by (simp add: turn_defs hosts)
  then obtain t where t: "?m = (Ret 0, t)" by (metis prod.collapse)
  show ?thesis
    using connect_request_disconnects_listener [OF t one_slot_simps(1)] t by (simp add: param_def)
qed

theorem route_resolved_connects_witness:
  "\<exists>u t. fs_rdma_create_resources full_host one_slot = (Ret 0, u) \<and>
     fs_rdma_cm_handle_route_resolved full_host (Some event0) one_slot = (Ret 0, t) \<and>
     (\<exists>c. rdma_ctx u = Some c \<and> made u t [Rdma_connect (rc_cm_id c) (conn_params (cf_retry_count (config u)))])"
proof -
  obtain u where u: "fs_rdma_create_resources full_host one_slot = (Ret 0, u)"
    by (rule full_host_created)
  obtain c where c: "rdma_ctx u = Some c"
    using wpD [OF wp_create_link [OF link_exI [OF one_slot_simps(1)]] u] by (auto simp: link_def)
  show ?thesis
    using route_resolved_connects [OF u c refl refl, of event0] u c
    by (auto simp: full_host_def resp0_def intro!: prod_eqI)
qed

theorem early_error_releases_garbage_witness:
  "\<exists>t c. fs_rdma_create_ctx good_host fs_init = (Ret 0, t) \<and> rdma_ctx t = Some c \<and>
     made t (snd (fs_rdma_cm_handle_event_error good_host t))
       ([Rdma_destroy_qp (rc_cm_id c), Ibv_dereg_mr (arr_base (rc_mr c)), Free (arr_base (rc_buf c)),
        Ibv_destroy_cq 68, Ibv_dealloc_pd 54] @
        (if rc_cm_id c = NULL then [] else [Rdma_destroy_id (rc_cm_id c)]))"
proof -
  obtain t c where t: "fs_rdma_create_ctx good_host fs_init = (Ret 0, t)" and c: "rdma_ctx t = Some c"
    by (rule good_host_created)
  have "r_cells (good_host [] Malloc_rdma_ctx) = (\<lambda>i. 50 + i)"
    by (simp add: good_host_def)
  then have "made t (snd (fs_rdma_cm_handle_event_error good_host t))
       ([Rdma_destroy_qp (rc_cm_id c), Ibv_dereg_mr (arr_base (rc_mr c)), Free (arr_base (rc_buf c)),
        Ibv_destroy_cq 68, Ibv_dealloc_pd 54] @
        (if rc_cm_id c = NULL then [] else [Rdma_destroy_id (rc_cm_id c)]))"
    using early_error_releases_garbage [OF t _ _ c refl] by (simp add: c_int_def split del: if_split)
  with t c show ?thesis by blast
qed

end
