(* ===== verification/Client_Session.thy ===== *)
theory Client_Session
  imports Cm_Session
begin

text \<open>
  A client's session with the C transport from \<open>fs_rdma_connect\<close> to the established connection:
  where every library call succeeds and the connection manager delivers the events of a handshake,
  three turns of the event loop connect.
\<close>

section \<open>A cooperative environment\<close>

text \<open>No call fails: integer results are 0, pointers are not null, devices have names, and there
  is a device.\<close>

definition cooperative :: "vcall env \<Rightarrow> bool" where
  "cooperative env \<longleftrightarrow>
     (\<forall>tr c. r_int (env tr c) = 0 \<and> r_ptr (env tr c) \<noteq> NULL \<and> r_str (env tr c) \<noteq> None) \<and>
     (\<forall>tr. let r = env tr Ibv_get_device_list in
        r_list r \<noteq> [] \<and> NULL \<notin> set (r_list r) \<and> r_out r = int (length (r_list r)))"

lemma cooperativeD:
  assumes "cooperative env"
  shows "r_int (env tr c) = 0" and "r_ptr (env tr c) \<noteq> NULL" and "\<exists>n. r_str (env tr c) = Some n"
    and "0 < r_ptr (env tr c)"
proof -
  note all = assms [unfolded cooperative_def, THEN conjunct1, rule_format, of tr c]
  show "r_int (env tr c) = 0" "r_ptr (env tr c) \<noteq> NULL" using all by blast+
  then show "0 < r_ptr (env tr c)" by simp
  show "\<exists>n. r_str (env tr c) = Some n" using all by (cases "r_str (env tr c)") simp_all
qed

lemma cooperative_devices:
  assumes "cooperative env"
  obtains d ds where "r_list (env tr Ibv_get_device_list) = d # ds" "d \<noteq> NULL"
    "0 < r_out (env tr Ibv_get_device_list)"
proof -
  note dev = assms [unfolded cooperative_def, THEN conjunct2, rule_format, of tr, unfolded Let_def]
  show thesis
    by (cases "r_list (env tr Ibv_get_device_list)") (use dev in \<open>auto intro: that\<close>)
qed

section \<open>Creating the resources succeeds\<close>

abbreviation proceeds :: "('s, 'r option) cmd \<Rightarrow> 's \<Rightarrow> bool" where
  "proceeds \<equiv> settles (\<lambda>r. r = Ret None)"

lemma wp_find_first:
  assumes "cooperative env" and "rdma_ctx s = Some c"
  shows "wp (fs_rdma_find_dev env None) (\<lambda>r t. (\<exists>x. r = Ret x) \<and> rdma_ctx t = Some c) (s :: fs_state)"
proof -
  obtain d ds where d: "r_list (env (calls s) Ibv_get_device_list) = d # ds" "d \<noteq> NULL"
    "0 < r_out (env (calls s) Ibv_get_device_list)"
    using assms(1) by (rule cooperative_devices)
  have named: "wp (device_name env x) (\<lambda>r t. \<exists>n. r = Ret n \<and> rdma_ctx t = rdma_ctx u) u"
    for x and u :: fs_state
    using cooperativeD(3) [OF assms(1), of "calls u" "Ibv_get_device_name x"]
    by (auto simp: device_name_def wp_simps wp_ext_eq)
  show ?thesis
    unfolding fs_rdma_find_dev_def
    using assms(2) d cooperativeD(2) [OF assms(1)]
    by (auto simp: wp_simps wp_calls_eq dev_at_def intro!: wp_mono [OF named])
qed

lemma open_proceeds:
  assumes env: "cooperative env" and c: "rdma_ctx s = Some c"
  shows "proceeds (open_part env) s"
  unfolding settles_def open_part_def wp_bind
  by (rule wp_mono [OF wp_find_first [OF env c]])
    (auto simp: wp_simps wp_ctx wp_calls_eq cooperativeD [OF env])

lemma channel_proceeds:
  assumes env: "cooperative env" and c: "rdma_ctx s = Some c"
  shows "proceeds (channel_part env) s"
  unfolding settles_def channel_part_def
  using c by (auto simp: wp_simps wp_ctx wp_calls_eq cooperativeD [OF env])

lemma cq_proceeds:
  assumes env: "cooperative env" and c: "rdma_ctx s = Some c"
    and "c_int (DEFAULT_BUF_DEPTH * cf_qp_count (config s))"
  shows "proceeds (cq_part env) s"
  unfolding settles_def cq_part_def Let_def
  using assms(2,3) by (auto simp: wp_simps wp_ctx wp_calls_eq wp_c_mul cooperativeD [OF env])

lemma srq_proceeds:
  assumes env: "cooperative env" and c: "rdma_ctx s = Some c"
  shows "proceeds (srq_part env) s"
  unfolding settles_def srq_part_def
  using c by (auto simp: wp_simps wp_ctx wp_calls_eq cooperativeD [OF env])

lemma qp_loop_proceeds:
  assumes env: "cooperative env" and c: "rdma_ctx s = Some c" and q: "arr_ok n (rc_qp c)"
    and id: "rc_cm_id c \<noteq> NULL" and ty: "qp_type_of (cf_connection_type (config s)) = Some ty"
  shows "proceeds (for_loop 0 n (qp_body env)) s"
proof -
  let ?I = "\<lambda>t. \<exists>a. arr_ok n a \<and> rdma_ctx t = Some (c\<lparr>rc_qp := a\<rparr>) \<and> config t = config s"
  have start: "?I s" using c q by (intro exI [of _ "rc_qp c"]) simp
  have turn: "wp (qp_body env k) (loop_post ?I (\<lambda>r _. r = Ret None)) t"
    if "0 \<le> k" "k < n" and t: "?I t" for k t
  proof -
    obtain b xs where a: "0 < b" "int (length xs) = n" "rdma_ctx t = Some (c\<lparr>rc_qp := Arr b xs\<rparr>)"
      "config t = config s"
      using t by (auto simp: arr_ok_def)
    have upd: "\<exists>a. arr_ok (int (length xs)) a \<and> c\<lparr>rc_qp := Arr b (xs[i := v])\<rparr> = c\<lparr>rc_qp := a\<rparr>" for i v
      using a by (intro exI [of _ "Arr b (xs[i := v])"]) (simp add: arr_ok_def)
    show ?thesis
      using that(1,2) a id unfolding qp_body_def
      by (auto simp: wp_simps wp_ctx wp_arr_set wp_ext_eq ty upd cooperativeD [OF env])
  qed
  show ?thesis
    unfolding settles_def by (rule wp_for_loop [where I = "\<lambda>_. ?I"]) (use start turn in auto)
qed

lemma mr_loop_proceeds:
  assumes env: "cooperative env" and c: "rdma_ctx s = Some c"
    and ok: "arr_ok n (rc_buf c)" "arr_ok n (rc_mr c)"
  shows "proceeds (for_loop 0 n (mr_body env)) s"
proof -
  let ?I = "\<lambda>t. \<exists>d. rdma_ctx t = Some d \<and> arr_ok n (rc_buf d) \<and> arr_ok n (rc_mr d)"
  have turn: "wp (mr_body env k) (loop_post ?I (\<lambda>r _. r = Ret None)) t"
    if "0 \<le> k" "k < n" and t: "?I t" for k t
  proof -
    obtain d b xs e ys where d: "rdma_ctx t = Some d" "rc_buf d = Arr b xs" "rc_mr d = Arr e ys"
      "0 < b" "0 < e" "int (length xs) = n" "int (length ys) = n"
      using t by (auto simp: arr_ok_def)
    show ?thesis
      using that(1,2) d unfolding mr_body_def
      by (auto simp: wp_simps wp_ctx wp_arr_set wp_call_ptr_eq arr_ok_def cooperativeD [OF env])
  qed
  show ?thesis
    unfolding settles_def by (rule wp_for_loop [where I = "\<lambda>_. ?I"]) (use c ok turn in auto)
qed

lemma create_body_proceeds:
  assumes env: "cooperative env" and c: "rdma_ctx s = Some c"
    and ok: "arrays_ready (cf_qp_count (config s)) c" and id: "rc_cm_id c \<noteq> NULL"
    and n: "c_int (DEFAULT_BUF_DEPTH * cf_qp_count (config s))"
    and ty: "qp_type_of (cf_connection_type (config s)) = Some ty"
  shows "proceeds (create_body env) s"
proof (rule create_body_settles [OF c ok open_proceeds [OF env c]])
  fix t :: fs_state and d
  assume t: "rdma_ctx t = Some d"
  show "proceeds (channel_part env) t" and "proceeds (srq_part env) t"
    using t by (rule channel_proceeds [OF env] srq_proceeds [OF env])+
  show "proceeds (cq_part env) t" if "config t = config s"
    using t by (rule cq_proceeds [OF env]) (simp add: that n)
  show "proceeds (for_loop 0 (cf_qp_count (config s)) (qp_body env)) t"
    if "rc_cm_id d = rc_cm_id c" "arr_ok (cf_qp_count (config s)) (rc_qp d)" "config t = config s"
    using t that(2) by (rule qp_loop_proceeds [OF env]) (use that id ty in simp_all)
  show "proceeds (for_loop 0 (cf_qp_count (config s)) (mr_body env)) t"
    if "arr_ok (cf_qp_count (config s)) (rc_buf d)" "arr_ok (cf_qp_count (config s)) (rc_mr d)"
    using t that by (rule mr_loop_proceeds [OF env])
qed

lemma create_resources_succeeds:
  assumes "cooperative env" and c: "rdma_ctx s = Some c"
    and "arrays_ready (cf_qp_count (config s)) c" and "rc_cm_id c \<noteq> NULL"
    and "c_int (DEFAULT_BUF_DEPTH * cf_qp_count (config s))" and "0 \<le> cf_qp_count (config s)"
    and ty: "qp_type_of (cf_connection_type (config s)) = Some ty"
  obtains t d bs where "fs_rdma_create_resources env s = (Ret 0, t)" "rdma_ctx t = Some d"
    "untouched c d" "config t = config s" "resources_ready (cf_qp_count (config s)) bs d"
proof -
  have "fst (create_body env s) = Ret None"
    using create_body_proceeds [OF assms(1-5) ty] by (simp add: settles_def wp_def)
  then obtain t where t: "create_body env s = (Ret None, t)" by (metis prod.collapse)
  have both: "leaves s c t" "created c s t" using wpD [OF wp_create_body [OF c] t] by blast+
  obtain d where d: "rdma_ctx t = Some d" "untouched c d" "config t = config s"
    using both(1) unfolding leaves_def by blast
  obtain xs bs d' where "ctx_step s d' xs t" "resources_ready (cf_qp_count (config s)) bs d'"
    using both(2) [unfolded created_def, rule_format, OF ty assms(6,3)] by blast
  moreover from this d(1) have "d' = d" by (simp add: ctx_step_def)
  ultimately have ready: "resources_ready (cf_qp_count (config s)) bs d" by simp
  show ?thesis
    by (rule that [OF _ d ready]) (simp add: fs_rdma_create_resources_def bindM_def t retM_def)
qed


section \<open>The three turns\<close>

text \<open>The state in which the handler of the next event starts.\<close>

definition fetched :: "vcall env \<Rightarrow> addr \<Rightarrow> fs_state \<Rightarrow> fs_state" where
  "fetched env ch s = s\<lparr>calls := calls s @ [(Rdma_get_cm_event ch, env (calls s) (Rdma_get_cm_event ch))]\<rparr>"

lemma fetched_simps [simp]:
  "rdma_ctx (fetched env ch s) = rdma_ctx s" "config (fetched env ch s) = config s"
  by (simp_all add: fetched_def)

text \<open>A turn whose event exists, as its handler followed by the acknowledgement.\<close>

lemma cm_turn_handles:
  assumes "cooperative env" and "ev = next_event env ch s" and "ev_addr ev \<noteq> NULL"
    and "\<not> acks_first (ev_type ev)"
    and "handler env ev (fetched env ch s) = (Ret (), t)"
  shows "cm_turn env ch e s = (Ret (Some (ev_addr ev)),
    t\<lparr>calls := calls t @ [(Rdma_ack_cm_event (ev_addr ev), env (calls t) (Rdma_ack_cm_event (ev_addr ev)))]\<rparr>)"
proof -
  have ev: "r_event (env (calls s) (Rdma_get_cm_event ch)) = ev" using assms(2) by (simp add: next_event_def)
  show ?thesis
    using assms(3-5) cooperativeD(1) [OF assms(1)]
    by (simp add: cm_turn_shape handle_and_ack_def bindM_def thenM_def ext_def call_void_def retM_def
        ack_def Let_def ev fetched_def)
qed

text \<open>The handlers of the three events of a handshake.\<close>

lemma addr_resolved_ok:
  assumes "cooperative env" and "ev_type ev = RDMA_CM_EVENT_ADDR_RESOLVED"
  obtains t where "handler env ev s = (Ret (), t)" "rdma_ctx t = rdma_ctx s" "config t = config s"
proof -
  have "wp (handler env ev) (\<lambda>r t. r = Ret () \<and> rdma_ctx t = rdma_ctx s \<and> config t = config s) s"
    using assms(2) by (simp add: handler_def fs_rdma_cm_handle_addr_resolved_def wp_simps wp_call_int_eq
        cooperativeD [OF assms(1)])
  then show ?thesis by (rule wpE) (use that in blast)
qed

lemma route_resolved_ok:
  assumes env: "cooperative env" and "ev_type ev = RDMA_CM_EVENT_ROUTE_RESOLVED"
    and c: "rdma_ctx s = Some c" "arrays_ready (cf_qp_count (config s)) c" "rc_cm_id c \<noteq> NULL"
    and n: "c_int (DEFAULT_BUF_DEPTH * cf_qp_count (config s))" "0 \<le> cf_qp_count (config s)"
    and ty: "qp_type_of (cf_connection_type (config s)) = Some ty"
  obtains t d bs where "handler env ev s = (Ret (), t)" "rdma_ctx t = Some d" "untouched c d"
    "resources_ready (cf_qp_count (config s)) bs d" "config t = config s"
proof -
  obtain u d bs where u: "fs_rdma_create_resources env s = (Ret 0, u)" "rdma_ctx u = Some d"
    "untouched c d" "config u = config s" "resources_ready (cf_qp_count (config s)) bs d"
    by (rule create_resources_succeeds [OF env c n ty])
  have "wp (handler env ev) (\<lambda>r t. r = Ret () \<and> rdma_ctx t = Some d \<and> config t = config s) s"
    using assms(2)
    by (simp add: handler_def fs_rdma_cm_handle_route_resolved_def wp_simps)
      (simp add: wp_def [of "fs_rdma_create_resources env"] u wp_simps wp_get_ctx wp_call_int_eq
        cooperativeD [OF env])
  then show ?thesis by (rule wpE) (use that u(3,5) in blast)
qed

lemma established_ok:
  assumes "ev_type ev = RDMA_CM_EVENT_ESTABLISHED" and c: "rdma_ctx s = Some c"
    and "ev_id ev = rc_cm_id c" and "rc_connected c \<noteq> 1"
  obtains t where "handler env ev s = (Ret (), t)" "rdma_ctx t = Some (c\<lparr>rc_connected := 1\<rparr>)"
    "config t = config s"
proof -
  have "wp (handler env ev) (\<lambda>r t. r = Ret () \<and> rdma_ctx t = Some (c\<lparr>rc_connected := 1\<rparr>) \<and>
      config t = config s) s"
    using assms by (simp add: handler_def fs_rdma_cm_handle_connect_init_def wp_simps wp_ctx Let_def)
  then show ?thesis by (rule wpE) (use that in blast)
qed

text \<open>The connection manager's side: after \<open>g\<close> events the next three are those of a handshake, the
  last one for the identifier \<open>i\<close>.\<close>

definition handshake :: "vcall env \<Rightarrow> addr \<Rightarrow> addr \<Rightarrow> nat \<Rightarrow> bool" where
  "handshake env ch i g \<longleftrightarrow> (\<forall>tr. let ev = r_event (env tr (Rdma_get_cm_event ch)); k = count_calls is_get tr in
     ev_addr ev \<noteq> NULL \<and>
     (k = g \<longrightarrow> ev_type ev = RDMA_CM_EVENT_ADDR_RESOLVED) \<and>
     (k = Suc g \<longrightarrow> ev_type ev = RDMA_CM_EVENT_ROUTE_RESOLVED) \<and>
     (k = Suc (Suc g) \<longrightarrow> ev_type ev = RDMA_CM_EVENT_ESTABLISHED \<and> ev_id ev = i))"

lemma handshakeD:
  assumes "handshake env ch i g"
  shows "ev_addr (next_event env ch s) \<noteq> NULL"
    and "length (got_events s) = g \<Longrightarrow> ev_type (next_event env ch s) = RDMA_CM_EVENT_ADDR_RESOLVED"
    and "length (got_events s) = Suc g \<Longrightarrow> ev_type (next_event env ch s) = RDMA_CM_EVENT_ROUTE_RESOLVED"
    and "length (got_events s) = Suc (Suc g) \<Longrightarrow> ev_type (next_event env ch s) = RDMA_CM_EVENT_ESTABLISHED"
    and "length (got_events s) = Suc (Suc g) \<Longrightarrow> ev_id (next_event env ch s) = i"
  using assms by (simp_all add: handshake_def next_event_def got_events_def count_gets Let_def)


lemma connect_ok:
  assumes env: "cooperative env" and n: "0 \<le> cf_qp_count (config s)" "c_int (cf_qp_count (config s))"
  obtains u c where "fs_rdma_connect env ip p s = (Ret 0, u)" "rdma_ctx u = Some c"
    "arrays_ready (cf_qp_count (config s)) c" "rc_cm_id c \<noteq> NULL" "config u = config s"
    "rc_connected c = int (r_cells (env (calls s) Malloc_rdma_ctx) 17)"
proof -
  have "wp (fs_rdma_connect env ip p) (\<lambda>r u. r = Ret 0 \<and> config u = config s \<and> (\<exists>c. rdma_ctx u = Some c \<and>
      arrays_ready (cf_qp_count (config s)) c \<and> rc_cm_id c \<noteq> NULL \<and>
      rc_connected c = int (r_cells (env (calls s) Malloc_rdma_ctx) 17))) s"
    unfolding fs_rdma_connect_def fs_rdma_create_ctx_def ALLOCATE_def
    using arr_ok_fresh [OF cooperativeD(2) [OF env] n]
    by (simp add: wp_simps wp_ctx wp_calls_eq cooperativeD [OF env] arrays_ready_def)
  then show ?thesis by (rule wpE) (use that in blast)
qed

lemma c_int_count: "c_int (DEFAULT_BUF_DEPTH * n) \<Longrightarrow> c_int n"
  by (simp add: DEFAULT_BUF_DEPTH_def c_int_def)

lemma got_turn: "cm_turn env ch e s = (Ret x, t) \<Longrightarrow> length (got_events t) = Suc (length (got_events s))"
  by (drule wpD [OF wp_turn_counts]) auto

text \<open>What a turn does whose event is handled before it is acknowledged, by its handler.\<close>

lemma cm_turn_ok:
  assumes env: "cooperative env" and hand: "handshake env ch i g"
    and "\<not> acks_first (ev_type (next_event env ch s))"
    and "handler env (next_event env ch s) (fetched env ch s) = (Ret (), t)"
  obtains v where "cm_turn env ch e s = (Ret (Some (ev_addr (next_event env ch s))), v)"
    "rdma_ctx v = rdma_ctx t" "config v = config t" "length (got_events v) = Suc (length (got_events s))"
  using cm_turn_handles [OF env refl handshakeD(1) [OF hand] assms(3,4), of e] that got_turn by simp

text \<open>The three turns, each from any state it can start in.\<close>

lemma addr_turn:
  assumes "cooperative env" and "handshake env ch i (length (got_events s))"
  obtains e' v where "cm_turn env ch e s = (Ret (Some e'), v)" "rdma_ctx v = rdma_ctx s"
    "config v = config s" "length (got_events v) = Suc (length (got_events s))"
proof -
  note ty = handshakeD(2) [OF assms(2) refl]
  obtain t where t: "handler env (next_event env ch s) (fetched env ch s) = (Ret (), t)"
    "rdma_ctx t = rdma_ctx s" "config t = config s"
    by (rule addr_resolved_ok [OF assms(1) ty, of "fetched env ch s"]) simp
  show ?thesis
    by (rule cm_turn_ok [OF assms _ t(1), where e = e]) (use that t ty in \<open>auto simp: acks_first_def\<close>)
qed

lemma route_turn:
  assumes "cooperative env" and "handshake env ch i g" and "length (got_events s) = Suc g"
    and c: "rdma_ctx s = Some c" "arrays_ready (cf_qp_count (config s)) c" "rc_cm_id c \<noteq> NULL"
    and n: "c_int (DEFAULT_BUF_DEPTH * cf_qp_count (config s))" "0 \<le> cf_qp_count (config s)"
    and ty: "qp_type_of (cf_connection_type (config s)) = Some ty"
  obtains e' v d bs where "cm_turn env ch e s = (Ret (Some e'), v)" "rdma_ctx v = Some d"
    "untouched c d" "resources_ready (cf_qp_count (config s)) bs d" "config v = config s"
    "length (got_events v) = Suc (Suc g)"
proof -
  note et = handshakeD(3) [OF assms(2,3)]
  obtain t d bs where t: "handler env (next_event env ch s) (fetched env ch s) = (Ret (), t)"
    "rdma_ctx t = Some d" "untouched c d" "resources_ready (cf_qp_count (config s)) bs d"
    "config t = config s"
    by (rule route_resolved_ok [OF assms(1) et, where c = c and s = "fetched env ch s"]) (use c n ty in auto)
  show ?thesis
    by (rule cm_turn_ok [OF assms(1,2) _ t(1), where e = e])
      (use that t et assms(3) in \<open>auto simp: acks_first_def\<close>)
qed

lemma own_established_turn:
  assumes "cooperative env" and "handshake env ch i g" and "length (got_events s) = Suc (Suc g)"
    and c: "rdma_ctx s = Some c" "rc_cm_id c = i" "rc_connected c \<noteq> 1"
  obtains e' v where "cm_turn env ch e s = (Ret (Some e'), v)" "rdma_ctx v = Some (c\<lparr>rc_connected := 1\<rparr>)"
    "config v = config s"
proof -
  note et = handshakeD(4) [OF assms(2,3)] and own = handshakeD(5) [OF assms(2,3)]
  obtain t where t: "handler env (next_event env ch s) (fetched env ch s) = (Ret (), t)"
    "rdma_ctx t = Some (c\<lparr>rc_connected := 1\<rparr>)" "config t = config s"
    by (rule established_ok [OF et, where c = c and s = "fetched env ch s" and env = env]) (use c own in auto)
  show ?thesis
    by (rule cm_turn_ok [OF assms(1,2) _ t(1), where e = e]) (use that t et in \<open>auto simp: acks_first_def\<close>)
qed

text \<open>And the turn that takes the connection down again.\<close>

lemma last_turn:
  assumes "cooperative env" and "handshake env ch i g" and "acks_first (ev_type (next_event env ch s))"
    and d: "rdma_ctx s = Some (d\<lparr>rc_connected := x\<rparr>)" "untouched c d" "resources_ready (cf_qp_count (config s)) bs d"
    and c: "arrays_ready (cf_qp_count (config s)) c" "rc_cm_id c \<noteq> NULL" and "0 < cf_qp_count (config s)"
  shows "\<exists>w d'. cm_turn env ch e s = (Ret (Some NULL), w) \<and> rdma_ctx w = Some d' \<and>
    phase_of d' = Closed \<and> made s w
      ([Rdma_get_cm_event ch, Rdma_ack_cm_event (ev_addr (next_event env ch s)),
        Rdma_destroy_qp (rc_cm_id d), Ibv_dereg_mr (arr_base (rc_mr d)), Free (arr_base (rc_buf d))] @
       (if rc_cq d = NULL then [] else [Ibv_destroy_cq (rc_cq d)]) @
       [Ibv_dealloc_pd (rc_pd d), Rdma_destroy_id (rc_cm_id d)])"
proof -
  have "teardown_calls (cf_qp_count (config s)) (d\<lparr>rc_connected := x\<rparr>) =
      teardown_calls (cf_qp_count (config s)) d"
    by (simp add: teardown_calls_def slot_calls_def)
  also have "\<dots> =
      [Rdma_destroy_qp (rc_cm_id d), Ibv_dereg_mr (arr_base (rc_mr d)), Free (arr_base (rc_buf d))] @
       (if rc_cq d = NULL then [] else [Ibv_destroy_cq (rc_cq d)]) @
       [Ibv_dealloc_pd (rc_pd d), Rdma_destroy_id (rc_cm_id d)]"
    using calls_of_complete [OF d(2,3) c(1) assms(9)] d(2) c(2) by (simp add: untouched_def)
  finally have list: "teardown_calls (cf_qp_count (config s)) (d\<lparr>rc_connected := x\<rparr>) = \<dots>" .
  show ?thesis
    by (rule closing_turn [OF d(1) refl cooperativeD(1) [OF assms(1)] handshakeD(1) [OF assms(2)] assms(3), of e])
      (auto simp: ctx_step_def list phase_of_def torn_down_def)
qed

section \<open>The property\<close>

text \<open>C3: a client gets connected, and can be taken down.  Where no call fails and the connection
  manager delivers \<open>ADDR_RESOLVED\<close>, \<open>ROUTE_RESOLVED\<close> and, for the identifier created,
  \<open>ESTABLISHED\<close>, the call of \<open>fs_rdma_connect\<close> returns 0 and three turns of the event loop complete,
  whatever the address and for every known connection type; then the connection is in the phase
  \<open>Connected\<close>, on that identifier, with all its resources, and the three events are acknowledged.
  One condition is on memory: the flag \<open>connected\<close>, which no function initialises, must not happen
  to be 1.  When the next event is an error or a disconnect, one more turn acknowledges it and makes
  exactly the listed calls, for a positive count, and the connection is in the phase \<open>Closed\<close>.\<close>

theorem client_becomes_connected:
  assumes env: "cooperative env" and run: "fs_rdma_connect env ip port s = (r, u)"
    and hand: "handshake env ch (rc_cm_id (the (rdma_ctx u))) (length (got_events u))"
    and flag: "r_cells (env (calls s) Malloc_rdma_ctx) 17 \<noteq> 1"
    and ty: "qp_type_of (cf_connection_type (config s)) = Some ty"
    and n: "0 \<le> cf_qp_count (config s)" "c_int (DEFAULT_BUF_DEPTH * cf_qp_count (config s))"
  shows "r = Ret 0 \<and> (\<exists>e v d bs. turns (cm_turn env ch) 3 NULL u e v \<and> rdma_ctx v = Some d \<and>
    phase_of d = Connected \<and> rc_cm_id d = rc_cm_id (the (rdma_ctx u)) \<and>
    resources_ready (cf_qp_count (config s)) bs d \<and>
    (\<exists>as. length as = 3 \<and> got_events v = got_events u @ as \<and> acked_events v = acked_events u @ as) \<and>
    (0 < cf_qp_count (config s) \<and> acks_first (ev_type (next_event env ch v)) \<longrightarrow>
      (\<exists>w d'. cm_turn env ch e v = (Ret (Some NULL), w) \<and> rdma_ctx w = Some d' \<and> phase_of d' = Closed \<and>
        made v w ([Rdma_get_cm_event ch, Rdma_ack_cm_event (ev_addr (next_event env ch v)),
            Rdma_destroy_qp (rc_cm_id d), Ibv_dereg_mr (arr_base (rc_mr d)), Free (arr_base (rc_buf d))] @
          (if rc_cq d = NULL then [] else [Ibv_destroy_cq (rc_cq d)]) @
          [Ibv_dealloc_pd (rc_pd d), Rdma_destroy_id (rc_cm_id d)]))))"
proof -
  obtain c where c: "r = Ret 0" "rdma_ctx u = Some c" "arrays_ready (cf_qp_count (config s)) c"
    "rc_cm_id c \<noteq> NULL" "config u = config s" "rc_connected c \<noteq> 1"
    using connect_ok [OF env n(1) c_int_count [OF n(2)], of ip port] run flag by (metis of_nat_eq_1_iff prod.inject)
  obtain e1 v1 where v1: "cm_turn env ch NULL u = (Ret (Some e1), v1)" "rdma_ctx v1 = Some c"
    "config v1 = config s" "length (got_events v1) = Suc (length (got_events u))"
    by (rule addr_turn [OF env hand]) (use c in auto)
  obtain e2 v2 d bs where v2: "cm_turn env ch e1 v1 = (Ret (Some e2), v2)" "rdma_ctx v2 = Some d"
    "untouched c d" "resources_ready (cf_qp_count (config s)) bs d" "config v2 = config s"
    "length (got_events v2) = Suc (Suc (length (got_events u)))"
    by (rule route_turn [OF env hand v1(4,2), where e = e1]) (use v1 c n ty in auto)
  let ?d = "d\<lparr>rc_connected := 1\<rparr>"
  have d: "rc_cm_id d = rc_cm_id c" "rc_connected d \<noteq> 1" using v2(3) c(6) by (simp_all add: untouched_def)
  obtain e3 v3 where v3: "cm_turn env ch e2 v2 = (Ret (Some e3), v3)" "rdma_ctx v3 = Some ?d"
    "config v3 = config s"
    by (rule own_established_turn [OF env hand v2(6,2), where e = e2]) (use v2 c d in auto)
  have run3: "turns (cm_turn env ch) 3 NULL u e3 v3"
    using v1(1) v2(1) v3(1) by (auto simp: numeral_3_eq_3 intro: turns_next turns_start)
  have ready: "resources_ready (cf_qp_count (config s)) bs ?d" "phase_of ?d = Connected"
    using v2(4) c(4) d(1) by (simp_all add: resources_ready_def phase_of_def)
  note last = last_turn [OF env hand _ v3(2) v2(3), of bs e3, unfolded v3(3), OF _ v2(4) c(3,4)]
  show ?thesis
    using c(1,2) d(1) v3(2) cml.turns_acks [OF run3] run3 ready last
    by - (intro conjI, simp, rule exI [of _ e3], rule exI [of _ v3], rule exI [of _ ?d], rule exI [of _ bs],
        simp split del: if_split cong: if_cong)
qed

section \<open>A concrete session\<close>

definition client_env :: "vcall env" where
  "client_env tr c = (case c of
       Ibv_get_device_list \<Rightarrow> resp0\<lparr>r_ptr := 7, r_list := [3], r_out := 1, r_str := Some ''mlx5_0''\<rparr>
     | Rdma_get_cm_event _ \<Rightarrow> resp0\<lparr>r_ptr := 7, r_str := Some ''mlx5_0'',
         r_event := event0\<lparr>ev_addr := 33, ev_id := 7,
           ev_type := (if count_calls is_get tr = 0 then RDMA_CM_EVENT_ADDR_RESOLVED
             else if count_calls is_get tr = 1 then RDMA_CM_EVENT_ROUTE_RESOLVED
             else if count_calls is_get tr = 2 then RDMA_CM_EVENT_ESTABLISHED
             else RDMA_CM_EVENT_DISCONNECTED)\<rparr>\<rparr>
     | _ \<Rightarrow> resp0\<lparr>r_ptr := 7, r_str := Some ''mlx5_0''\<rparr>)"

lemma client_env_cooperative: "cooperative client_env"
  unfolding cooperative_def
proof (intro conjI allI)
  fix tr c
  show "r_int (client_env tr c) = 0" "r_ptr (client_env tr c) \<noteq> NULL" "r_str (client_env tr c) \<noteq> None"
    by (cases c; simp add: client_env_def resp0_def)+
qed (simp add: client_env_def resp0_def)

lemma client_env_handshake: "handshake client_env 5 7 0"
  by (simp add: handshake_def client_env_def resp0_def event0_def Let_def)

theorem client_becomes_connected_witness:
  "\<exists>u e v d w d'. fs_rdma_connect client_env (Some ''10.0.0.1'') 19875 fs_init = (Ret 0, u) \<and>
     turns (cm_turn client_env 5) 3 NULL u e v \<and> rdma_ctx v = Some d \<and> phase_of d = Connected \<and>
     cm_turn client_env 5 e v = (Ret (Some NULL), w) \<and> rdma_ctx w = Some d' \<and> phase_of d' = Closed"
proof -
  let ?m = "fs_rdma_connect client_env (Some ''10.0.0.1'') 19875"
  have "wp ?m (\<lambda>r u. rc_cm_id (the (rdma_ctx u)) = 7 \<and> length (got_events u) = 0) fs_init"
    unfolding fs_rdma_connect_def fs_rdma_create_ctx_def ALLOCATE_def
    by (simp add: wp_simps wp_ctx wp_calls_eq client_env_def resp0_def got_events_def)
  then obtain r u where u: "?m fs_init = (r, u)" "rc_cm_id (the (rdma_ctx u)) = 7" "length (got_events u) = 0"
    by (auto elim: wpE)
  have flag: "r_cells (client_env [] Malloc_rdma_ctx) 17 \<noteq> 1" by (simp add: client_env_def resp0_def)
  have hand: "handshake client_env 5 (rc_cm_id (the (rdma_ctx u))) (length (got_events u))"
    using client_env_handshake u by simp
  have last: "acks_first (ev_type (next_event client_env 5 v))" if "turns (cm_turn client_env 5) 3 NULL u e v" for e v
    using cml.turns_counts [OF that] u(3) by (simp add: next_event_def client_env_def acks_first_def got_events_def count_gets)
  show ?thesis
    using client_becomes_connected [OF client_env_cooperative u(1) hand, where ty = IBV_QPT_RC] flag last u(1)
    by (auto simp: c_int_def DEFAULT_BUF_DEPTH_def split del: if_split) blast
qed

end
