(* ===== verification/Closed_Session.thy ===== *)
theory Closed_Session
  imports Cm_Session
begin

text \<open>
  What is left of a session of the C transport once a connection was taken down: the arrays of the
  context are null from then on, \<open>fs_rdma_create_resources\<close> never fills them again, and so no
  handler ever connects or accepts.
\<close>

section \<open>Creating without arrays\<close>

text \<open>The context has no queue pair array, under parameters that ask for one.\<close>

definition no_array :: "rdma_param \<Rightarrow> fs_state \<Rightarrow> bool" where
  "no_array p s \<longleftrightarrow> config s = p \<and> (\<exists>c. rdma_ctx s = Some c \<and> rc_qp c = Null_arr)"

definition wants_pairs :: "rdma_param \<Rightarrow> bool" where
  "wants_pairs p \<longleftrightarrow> 0 < cf_qp_count p \<and> qp_type_of (cf_connection_type p) \<noteq> None"

lemma cont_never_through:
  assumes "wp m (\<lambda>r t. leaves s c t \<and> X r t) s"
    and "\<And>t d. rdma_ctx t = Some d \<Longrightarrow> untouched c d \<Longrightarrow> config t = config s \<Longrightarrow>
      wp n (\<lambda>r _. r \<noteq> Ret None) t"
  shows "wp (contM m n) (\<lambda>r _. r \<noteq> Ret None) s"
  unfolding wp_cont
  by (rule wp_mono [OF assms(1)])
    (auto simp: loop_post_def leaves_def assms(2) split: outcome.splits option.splits)

lemma qp_loop_never_through:
  assumes c: "rdma_ctx s = Some c" "rc_qp c = Null_arr" and n: "0 < n"
    and ty: "qp_type_of (cf_connection_type (config s)) \<noteq> None"
  shows "wp (for_loop 0 n (qp_body env)) (\<lambda>r _. r \<noteq> Ret None) s"
  by (rule wp_for_loop [where I = "\<lambda>k t. k = 0 \<and> t = s"])
    (use c n ty in \<open>auto simp: qp_body_def wp_simps wp_ctx wp_arr_set intro!: wp_calls\<close>)

lemma body_never_through:
  assumes c: "rdma_ctx s = Some c" "rc_qp c = Null_arr" and p: "wants_pairs (config s)"
  shows "wp (create_body env) (\<lambda>r _. r \<noteq> Ret None) s"
proof -
  have loops: "wp (bindM (cfg cf_qp_count)
      (\<lambda>n. contM (for_loop 0 n (qp_body env)) (for_loop 0 n (mr_body env)))) (\<lambda>r _. r \<noteq> Ret None) t"
    if "rdma_ctx t = Some d" "rc_qp d = Null_arr" "config t = config s" for t d
    unfolding wp_bind wp_cfg after_Ret wp_cont
    by (rule wp_mono [OF qp_loop_never_through [OF that(1,2)]])
      (use p that(3) in \<open>auto simp: wants_pairs_def loop_post_def split: outcome.split option.split\<close>)
  show ?thesis
    unfolding create_body_def
    by (rule cont_never_through [OF wp_open_part [OF c(1)]],
        rule cont_never_through [OF wp_channel_part], assumption,
        rule cont_never_through [OF wp_cq_part], assumption,
        rule cont_never_through [OF wp_srq_part], assumption, rule loops, assumption)
      (use c in \<open>simp_all add: untouched_def\<close>)
qed

text \<open>So creating fails or faults, and after a failure the array is still missing.\<close>

lemma wp_create_no_array:
  assumes s: "no_array p s" and p: "wants_pairs p"
  shows "wp (fs_rdma_create_resources env) (\<lambda>r t. \<forall>x. r = Ret x \<longrightarrow> x = - 1 \<and> no_array p t) s"
proof (rule wpI, intro allI impI)
  fix r t x
  assume run: "fs_rdma_create_resources env s = (r, t)" and x: "r = Ret x"
  obtain c where c: "rdma_ctx s = Some c" "rc_qp c = Null_arr" and cf: "config s = p"
    using s by (auto simp: no_array_def)
  show "x = - 1 \<and> no_array p t"
  proof (rule create_resources_cases [OF run c(1)])
    assume "create_body env s = (Ret None, t)"
    then show ?thesis
      using wpD [OF body_never_through [OF c]] p by (auto simp: cf)
  next
    fix u d
    assume "r = Ret (- 1)" and cl: "ctx_step u (cleaned (cf_qp_count (config s)) d)
        (cleanup_calls (cf_qp_count (config s)) d) t" and u: "config u = config s"
    then show ?thesis
      using x p by (auto simp: no_array_def ctx_step_def cf cleaned_def slot_clear_def wants_pairs_def)
  qed (use p x in \<open>auto simp: cf wants_pairs_def\<close>)
qed

section \<open>The handlers\<close>

fun is_connect :: "vcall \<Rightarrow> bool" where
  "is_connect (Rdma_connect _ _) = True"
| "is_connect (Rdma_accept _ _) = True"
| "is_connect _ = False"

definition connects :: "fs_state \<Rightarrow> nat" where
  "connects s = count_calls is_connect (calls s)"

definition no_connect :: "vcall set" where
  "no_connect = {c. \<not> is_connect c}"

lemma emits_create_no_connect: "emits no_connect (fs_rdma_create_resources env)"
  unfolding fs_rdma_create_resources_def create_body_def open_part_def channel_part_def cq_part_def
    srq_part_def qp_body_def mr_body_def out_cleanup_def release_loop_def release_slot_def
    release_cq_def release_pd_def Let_def fs_rdma_find_dev_def option.case
  by (intro emits_intros) (simp_all add: no_connect_def)

text \<open>\<open>dead p k s\<close>: no queue pair array, and \<open>k\<close> connections were asked for so far.\<close>

definition dead :: "rdma_param \<Rightarrow> nat \<Rightarrow> fs_state \<Rightarrow> bool" where
  "dead p k s \<longleftrightarrow> no_array p s \<and> connects s = k"

lemma dead_call [simp]: "\<not> is_connect c \<Longrightarrow> dead p k (s\<lparr>calls := calls s @ [(c, r)]\<rparr>) = dead p k s"
  by (simp add: dead_def no_array_def connects_def)

lemma dead_call2 [simp]: "\<not> is_connect c \<Longrightarrow> \<not> is_connect c' \<Longrightarrow>
    dead p k (s\<lparr>calls := calls s @ [(c, r), (c', r')]\<rparr>) = dead p k s"
  by (simp add: dead_def no_array_def connects_def)

lemma wp_create_dead:
  assumes "dead p k s" and "wants_pairs p"
    and "\<And>t. dead p k t \<Longrightarrow> wp (f (- 1)) (\<lambda>r t. (\<exists>x. r = Ret x) \<longrightarrow> P t) t"
  shows "wp (fs_rdma_create_resources env) (after f (\<lambda>r t. (\<exists>x. r = Ret x) \<longrightarrow> P t)) s"
proof (rule wpI)
  fix r t
  assume run: "fs_rdma_create_resources env s = (r, t)"
  have "connects t = connects s"
    unfolding connects_def
    by (rule emits_count [OF emits_create_no_connect _ run]) (simp add: no_connect_def)
  then have "\<forall>x. r = Ret x \<longrightarrow> x = - 1 \<and> dead p k t"
    using wpD [OF wp_create_no_array run] assms(1,2) by (auto simp: dead_def)
  then show "after f (\<lambda>r t. (\<exists>x. r = Ret x) \<longrightarrow> P t) r t"
    using assms(3) by (auto simp: after_def split: outcome.split)
qed

text \<open>A disconnect always leaves the array null, whatever it was.\<close>

lemma wp_disconnect_dead:
  assumes "rdma_ctx s = Some c" and "config s = p" and "connects s = k" and "wants_pairs p"
  shows "wp (fs_rdma_cm_handle_disconnect env) (\<lambda>r t. r = Ret () \<and> dead p k t) s"
proof (rule wp_mono [OF wp_disconnect_calls [OF assms(1)]], elim conjE, intro conjI)
  fix r t
  assume t: "ctx_step s (torn_down (cf_qp_count (config s)) c)
    (teardown_calls (cf_qp_count (config s)) c) t"
  then have "connects t = connects s"
    unfolding connects_def ctx_step_def
    using count_calls_made [of s t "teardown_calls (cf_qp_count (config s)) c" is_connect]
    by (simp add: teardown_calls_def slot_calls_def)
  then show "dead p k t"
    using t assms(2-4)
    by (auto simp: dead_def no_array_def ctx_step_def torn_down_def slot_clear_def wants_pairs_def)
qed

lemma wp_disconnect_still_dead:
  assumes "dead p k s" and "wants_pairs p"
  shows "wp (fs_rdma_cm_handle_disconnect env) (\<lambda>r t. r = Ret () \<and> dead p k t) s"
  using assms wp_disconnect_dead by (auto simp: dead_def no_array_def)

lemma wp_close_dead:
  assumes "dead p k s" and "wants_pairs p"
  shows "wp (fs_rdma_cm_handle_disconnect env) (after (\<lambda>_. retM x) (\<lambda>r t. (\<exists>x. r = Ret x) \<longrightarrow> dead p k t)) s"
  by (rule wp_mono [OF wp_disconnect_still_dead [OF assms]]) auto

lemma wp_handler_dead:
  assumes s: "dead p k s" and p: "wants_pairs p"
  shows "wp (handler env ev) (\<lambda>r t. r = Ret () \<longrightarrow> dead p k t) s"
proof -
  obtain c where c: "rdma_ctx s = Some c" using s by (auto simp: dead_def no_array_def)
  have addr: "wp (fs_rdma_cm_handle_addr_resolved env ev) (\<lambda>r t. (\<exists>x. r = Ret x) \<longrightarrow> dead p k t) s"
    unfolding fs_rdma_cm_handle_addr_resolved_def
    using s p by (auto simp: wp_simps intro!: wp_calls wp_close_dead)
  have route: "wp (fs_rdma_cm_handle_route_resolved env (Some ev)) (\<lambda>r t. (\<exists>x. r = Ret x) \<longrightarrow> dead p k t) s"
    unfolding fs_rdma_cm_handle_route_resolved_def
    using s p by (auto simp: wp_simps intro!: wp_create_dead wp_close_dead)
  have request: "wp (fs_rdma_cm_handle_connect_request env ev) (\<lambda>r t. (\<exists>x. r = Ret x) \<longrightarrow> dead p k t) s"
    unfolding fs_rdma_cm_handle_connect_request_def
    using s p by (auto simp: wp_simps intro!: wp_create_dead wp_close_dead)
  have init: "wp (fs_rdma_cm_handle_connect_init env ev) (\<lambda>r t. (\<exists>x. r = Ret x) \<longrightarrow> dead p k t) s"
    unfolding fs_rdma_cm_handle_connect_init_def Let_def
    using s by (auto simp: wp_simps wp_ctx c intro!: wp_calls)
      (auto simp: dead_def no_array_def connects_def c)
  have close: "wp (fs_rdma_cm_handle_disconnect env) (\<lambda>r t. r = Ret () \<longrightarrow> dead p k t) s"
    by (rule wp_mono [OF wp_disconnect_still_dead [OF s p]]) simp
  show ?thesis
    unfolding handler_def acks_first_def
    by (cases "ev_type ev")
      (simp_all add: s close wp_ignore [OF addr] wp_ignore [OF route] wp_ignore [OF request] wp_ignore [OF init])
qed

lemma turn_dead:
  assumes "cm_turn env ch e s = (Ret x, t)" and "dead p k s" and "wants_pairs p"
  shows "dead p k t"
proof -
  have "wp (cm_turn env ch e) (\<lambda>r t. (\<exists>x. r = Ret x) \<longrightarrow> dead p k t) s"
    unfolding cm_turn_shape handle_and_ack_def ack_def
    using assms(2,3) by (auto simp: wp_simps after_def intro!: wp_calls wp_mono [OF wp_handler_dead]
        split: outcome.split)
  with assms(1) show ?thesis by (auto simp: wp_def)
qed

text \<open>The first turn, with an event that closes.\<close>

lemma closing_turn_dead:
  assumes turn: "cm_turn env ch e s = (Ret (Some x), t)" and c: "rdma_ctx s = Some c"
    and closes: "acks_first (ev_type (next_event env ch s))" and p: "wants_pairs (config s)"
  shows "dead (config s) (connects s) t"
proof -
  let ?ev = "next_event env ch s"
  have h: "handler env ?ev = fs_rdma_cm_handle_disconnect env"
    using closes by (auto simp: handler_def acks_first_def)
  have dis: "wp (fs_rdma_cm_handle_disconnect env) (\<lambda>r t. r = Ret () \<and> dead (config s) (connects s) t)
      (s\<lparr>calls := calls s @ [(Rdma_get_cm_event ch, r), (Rdma_ack_cm_event a, q)]\<rparr>)" for r a q
    by (rule wp_disconnect_dead [where c = c]) (use c p in \<open>simp_all add: connects_def\<close>)
  have "wp (cm_turn env ch e) (\<lambda>r t. (\<exists>x. r = Ret (Some x)) \<longrightarrow> dead (config s) (connects s) t) s"
    unfolding cm_turn_shape handle_and_ack_def ack_def
    using closes h by (auto simp: wp_simps wp_ext_eq next_event_def intro!: wp_calls wp_mono [OF dis])
  with turn show ?thesis by (auto simp: wp_def)
qed

section \<open>The property\<close>

text \<open>C7: a transport connects once.  After an error or disconnect event, no number of further turns,
  whatever events arrive, makes another call of \<open>rdma_connect\<close> or \<open>rdma_accept\<close>, for every known
  connection type and positive \<open>qp_count\<close>: the tear-down freed the arrays that only
  \<open>fs_rdma_create_ctx\<close> allocates, so every later \<open>fs_rdma_create_resources\<close> fails or runs into
  the null array.\<close>

theorem closed_never_reconnects:
  assumes "cm_turn env ch e s = (Ret (Some e'), u)" and "rdma_ctx s = Some c"
    and "acks_first (ev_type (next_event env ch s))"
    and "0 < cf_qp_count (config s)" and "qp_type_of (cf_connection_type (config s)) = Some ty"
    and "turns (cm_turn env ch) n e' u e'' t"
  shows "connects t = connects s \<and> (\<exists>d. rdma_ctx t = Some d \<and> rc_qp d = Null_arr) \<and>
    fst (fs_rdma_create_resources env t) \<noteq> Ret 0"
proof -
  have p: "wants_pairs (config s)" using assms(4,5) by (simp add: wants_pairs_def)
  have "dead (config s) (connects s) t"
    by (rule turns_invariant [OF assms(6)])
      (auto intro: closing_turn_dead [OF assms(1-3) p] turn_dead [OF _ _ p])
  then show ?thesis
    using wp_create_no_array [OF _ p, of t env] by (auto simp: dead_def no_array_def wp_def)
qed

section \<open>A concrete session\<close>

theorem closed_never_reconnects_witness:
  "\<exists>e t u. cm_turn (event_host (event_of RDMA_CM_EVENT_DISCONNECTED 7)) 5 NULL one_slot = (Ret (Some e), u) \<and>
     turns (cm_turn (event_host (event_of RDMA_CM_EVENT_DISCONNECTED 7)) 5) 0 e u e t \<and>
     connects t = 0 \<and> fst (fs_rdma_create_resources (event_host (event_of RDMA_CM_EVENT_DISCONNECTED 7)) t) \<noteq> Ret 0"
proof -
  let ?env = "event_host (event_of RDMA_CM_EVENT_DISCONNECTED 7)"
  obtain e u where u: "cm_turn ?env 5 NULL one_slot = (Ret (Some e), u)"
    using disconnected_turn by (metis prod.collapse)
  have ty: "qp_type_of (cf_connection_type (config one_slot)) = Some IBV_QPT_RC"
    by (simp add: param_def)
  have "connects one_slot = 0" by (simp add: connects_def)
  then show ?thesis
    using closed_never_reconnects [OF u one_slot_simps(1) _ _ ty turns_start] u
    by (auto simp: next_event_def hosts acks_first_def param_def)
qed

end
