(* ===== verification/Session_Releases.thy ===== *)
theory Session_Releases
  imports Cm_Session
begin

text \<open>
  Who may release what over a whole session of the event loop of \<open>src/src/c/transport.c\<close>.  Each
  member of the context that a release reads owns at most one resource.  The locale \<open>owned\<close> is the
  account of one such member; it is interpreted on the seven members that are released, and
  together they say that no session releases anything twice.
\<close>

section \<open>The account of one member\<close>

text \<open>
  \<open>paid P A L s t\<close>: from \<open>s\<close> to \<open>t\<close> the calls of kind \<open>P\<close> were paid for, each by the member
  going from live (\<open>L\<close>) to dead or by an acquisition of kind \<open>A\<close>.
\<close>

definition live_in :: "(rdma_context \<Rightarrow> bool) \<Rightarrow> fs_state \<Rightarrow> nat" where
  "live_in L s = (case rdma_ctx s of None \<Rightarrow> 0 | Some c \<Rightarrow> of_bool (L c))"

definition acquired_in :: "(vcall \<times> resp \<Rightarrow> bool) \<Rightarrow> fs_state \<Rightarrow> nat" where
  "acquired_in A s = length (filter A (calls s))"

definition paid :: "(vcall \<Rightarrow> bool) \<Rightarrow> (vcall \<times> resp \<Rightarrow> bool) \<Rightarrow> (rdma_context \<Rightarrow> bool)
    \<Rightarrow> fs_state \<Rightarrow> fs_state \<Rightarrow> bool" where
  "paid P A L s t \<longleftrightarrow> rdma_ctx t \<noteq> None \<and> prefix (calls s) (calls t) \<and>
     count_calls P (calls t) + live_in L t + acquired_in A s \<le>
     count_calls P (calls s) + live_in L s + acquired_in A t"

definition pays :: "(vcall \<Rightarrow> bool) \<Rightarrow> (vcall \<times> resp \<Rightarrow> bool) \<Rightarrow> (rdma_context \<Rightarrow> bool)
    \<Rightarrow> (fs_state, 'a) cmd \<Rightarrow> bool" where
  "pays P A L m \<longleftrightarrow> (\<forall>s. rdma_ctx s \<noteq> None \<longrightarrow> wp m (\<lambda>_ t. paid P A L s t) s)"

named_theorems pays_base \<open>closure of pays under the command formers\<close>

lemma paid_refl: "rdma_ctx s \<noteq> None \<Longrightarrow> paid P A L s s"
  by (simp add: paid_def)

lemma paid_trans: "paid P A L s t \<Longrightarrow> paid P A L t u \<Longrightarrow> paid P A L s u"
  unfolding paid_def by (auto intro: prefix_order.trans)

lemma paid_ctx: "paid P A L s t \<Longrightarrow> rdma_ctx t \<noteq> None"
  by (simp add: paid_def)

lemma paysD: "pays P A L m \<Longrightarrow> rdma_ctx s \<noteq> None \<Longrightarrow> m s = (r, t) \<Longrightarrow> paid P A L s t"
  unfolding pays_def by (auto dest: wpD)

lemma pays_bind [pays_base]:
  assumes "pays P A L m" and "\<And>x. pays P A L (f x)"
  shows "pays P A L (bindM m f)"
  unfolding pays_def wp_bind
proof (intro allI impI)
  fix s :: fs_state
  assume "rdma_ctx s \<noteq> None"
  then have "wp m (\<lambda>_ t. paid P A L s t) s" using assms(1) by (simp add: pays_def)
  then show "wp m (after f (\<lambda>_ t. paid P A L s t)) s"
  proof (rule wp_mono)
    fix r t
    assume t: "paid P A L s t"
    then have "wp (f x) (\<lambda>_ u. paid P A L t u) t" for x
      using assms(2) paid_ctx by (simp add: pays_def)
    then have "wp (f x) (\<lambda>_ u. paid P A L s u) t" for x
      by (rule wp_mono) (rule paid_trans [OF t])
    with t show "after f (\<lambda>_ t. paid P A L s t) r t"
      by (cases r) simp_all
  qed
qed

lemma pays_then [pays_base]: "pays P A L m \<Longrightarrow> pays P A L n \<Longrightarrow> pays P A L (thenM m n)"
  by (simp add: thenM_def pays_bind)

lemma pays_ret [pays_base]: "pays P A L (retM x)"
  and pays_stop [pays_base]: "pays P A L (stopM e)"
  and pays_get [pays_base]: "pays P A L (getM f)"
  by (simp_all add: pays_def paid_refl)

lemma pays_when [pays_base]: "pays P A L m \<Longrightarrow> pays P A L (whenM b m)"
  by (simp add: whenM_def pays_ret)

lemma pays_if [pays_base]:
  "(b \<Longrightarrow> pays P A L m) \<Longrightarrow> (\<not> b \<Longrightarrow> pays P A L n) \<Longrightarrow> pays P A L (if b then m else n)"
  by simp

lemma pays_case_option [pays_base]:
  "pays P A L m \<Longrightarrow> (\<And>x. pays P A L (f x)) \<Longrightarrow>
     pays P A L (case r of None \<Rightarrow> m | Some x \<Rightarrow> f x)"
  by (cases r) simp_all

lemma pays_case_sum [pays_base]:
  "(\<And>x. pays P A L (f x)) \<Longrightarrow> (\<And>y. pays P A L (g y)) \<Longrightarrow>
     pays P A L (case r of Inl x \<Rightarrow> f x | Inr y \<Rightarrow> g y)"
  by (cases r) simp_all

lemma pays_cont [pays_base]: "pays P A L m \<Longrightarrow> pays P A L n \<Longrightarrow> pays P A L (contM m n)"
  unfolding contM_def by (intro pays_base)

lemma pays_for_loop [pays_base]:
  assumes body: "\<And>k. pays P A L (body k)"
  shows "pays P A L (for_loop i n body)"
  unfolding pays_def
proof (intro allI impI)
  fix s :: fs_state
  assume s: "rdma_ctx s \<noteq> None"
  show "wp (for_loop i n body) (\<lambda>_ t. paid P A L s t) s"
  proof (rule wp_for_loop [where I = "\<lambda>_ t. paid P A L s t"])
    fix k t
    assume t: "paid P A L s t"
    show "wp (body k) (loop_post (paid P A L s) (\<lambda>_ t. paid P A L s t)) t"
    proof (rule wpI)
      fix r u
      assume "body k t = (r, u)"
      then have "paid P A L s u"
        using paid_trans [OF t paysD [OF body paid_ctx [OF t]]] by blast
      then show "loop_post (paid P A L s) (\<lambda>_ t. paid P A L s t) r u"
        by (simp add: loop_post_def split: outcome.split option.split)
    qed
  qed (simp_all add: paid_refl s)
qed

text \<open>Calls of another kind, whatever they acquire, and reading.\<close>

lemma paid_call:
  "rdma_ctx s \<noteq> None \<Longrightarrow> \<not> P c \<Longrightarrow> paid P A L s (s\<lparr>calls := calls s @ [(c, r)]\<rparr>)"
  by (simp add: paid_def acquired_in_def live_in_def)

lemma pays_calls [pays_base]:
  "\<not> P c \<Longrightarrow> pays P A L (ext env c)" "\<not> P c \<Longrightarrow> pays P A L (call_int env c)"
  "\<not> P c \<Longrightarrow> pays P A L (call_ptr env c)" "\<not> P c \<Longrightarrow> pays P A L (call_void env c)"
  by (auto simp: pays_def intro!: wp_calls paid_call)

lemma pays_reads [pays_base]:
  "pays P A L (get_ctx f)" "pays P A L (cfg g)" "pays P A L (arr_set a i v)"
  "pays P A L (c_mul x y)" "pays P A L (dev_at xs j)" "pays P A L (failed_get e)"
  by (auto simp: pays_def wp_ctx wp_arr_set wp_c_mul dev_at_def paid_refl
      split: option.split parr.split)

lemma pays_device_name [pays_base]:
  "\<not> P (Ibv_get_device_name d) \<Longrightarrow> pays P A L (device_name env d)"
  unfolding device_name_def by (intro pays_base)

text \<open>Writing a member without bringing the owner to life.\<close>

lemma pays_put [pays_base]:
  assumes "\<And>c. L (f c) \<Longrightarrow> L c"
  shows "pays P A L (put_ctx f)"
  unfolding pays_def using assms
  by (auto simp: wp_ctx paid_def live_in_def acquired_in_def of_bool_def split: option.split)

text \<open>A release spends the owner, or does not concern it.\<close>

lemma pays_release:
  assumes "\<And>c. present c \<Longrightarrow> of_bool (P (rel c)) + of_bool (L (clear c)) \<le> (of_bool (L c) :: nat)"
  shows "pays P A L (release env present rel clear)"
  unfolding pays_def release_def
proof (intro allI impI)
  fix s :: fs_state
  assume "rdma_ctx s \<noteq> None"
  then obtain c where "rdma_ctx s = Some c" by blast
  then show "wp (bindM (get_ctx present) (\<lambda>b. whenM b
      (bindM (get_ctx rel) (\<lambda>x. thenM (call_void env x) (put_ctx clear))))) (\<lambda>_ t. paid P A L s t) s"
    using assms [of c]
    by (auto simp: wp_simps wp_ctx paid_def live_in_def acquired_in_def intro!: wp_calls split: if_splits)
qed

text \<open>An acquisition that is stored at once.\<close>

lemma pays_acquire:
  assumes "\<And>x. pays P A L (g x)" and "\<not> P c"
    and "\<And>r d. of_bool (L (f (r_ptr r) d)) \<le> (of_bool (L d \<or> A (c, r)) :: nat)"
  shows "pays P A L (bindM (call_ptr env c) (\<lambda>x. thenM (put_ctx (f x)) (g x)))"
proof -
  have "pays P A L (bindM (call_ptr env c) (\<lambda>x. bindM (put_ctx (f x)) (\<lambda>_. retM x)))"
    unfolding pays_def
  proof (intro allI impI)
    fix s :: fs_state
    assume "rdma_ctx s \<noteq> None"
    then obtain d where "rdma_ctx s = Some d" by blast
    then show "wp (bindM (call_ptr env c) (\<lambda>x. bindM (put_ctx (f x)) (\<lambda>_. retM x)))
        (\<lambda>_ t. paid P A L s t) s"
      using assms(2) assms(3) [of _ d]
      by (auto simp: wp_simps wp_ctx paid_def live_in_def acquired_in_def intro!: wp_calls add_mono)
  qed
  from pays_bind [OF this assms(1)] show ?thesis
    by (simp add: bindM_assoc thenM_def)
qed

text \<open>The two loop bodies store in arrays that are there already.\<close>

definition array_stable :: "(rdma_context \<Rightarrow> bool) \<Rightarrow> bool" where
  "array_stable L \<longleftrightarrow> (\<forall>c b xs ys.
     (rc_qp c = Arr b xs \<longrightarrow> L (c\<lparr>rc_qp := Arr b ys\<rparr>) \<longrightarrow> L c) \<and>
     (rc_mr c = Arr b xs \<longrightarrow> L (c\<lparr>rc_mr := Arr b ys\<rparr>) \<longrightarrow> L c) \<and>
     (rc_buf c = Arr b xs \<longrightarrow> L (c\<lparr>rc_buf := Arr b ys\<rparr>) \<longrightarrow> L c))"

lemma pays_store:
  assumes "array_stable L" and "(get, put) \<in> {(rc_qp, \<lambda>a c. c\<lparr>rc_qp := a\<rparr>), (rc_mr, \<lambda>a c. c\<lparr>rc_mr := a\<rparr>),
      (rc_buf, \<lambda>a c. c\<lparr>rc_buf := a\<rparr>)}"
  shows "pays P A L (bindM (get_ctx get) (\<lambda>as. bindM (arr_set as i v) (\<lambda>as'. put_ctx (put as'))))"
  unfolding pays_def
  using assms by (auto simp: wp_simps wp_ctx wp_arr_set paid_def live_in_def acquired_in_def
      array_stable_def of_bool_def split: option.split parr.split)

lemma pays_store_then:
  assumes "array_stable L" and "(get, put) \<in> {(rc_qp, \<lambda>a c. c\<lparr>rc_qp := a\<rparr>), (rc_mr, \<lambda>a c. c\<lparr>rc_mr := a\<rparr>),
      (rc_buf, \<lambda>a c. c\<lparr>rc_buf := a\<rparr>)}" and "pays P A L m"
  shows "pays P A L (bindM (get_ctx get) (\<lambda>as. bindM (arr_set as i v) (\<lambda>as'. thenM (put_ctx (put as')) m)))"
  using pays_bind [OF pays_store [OF assms(1,2), where i = i and v = v] assms(3)]
  by (simp add: bindM_assoc thenM_def)

lemma pays_mr_body:
  assumes "array_stable L" and "\<not> P (Memalign BUF_SIZE)" and "\<And>p b. \<not> P (Ibv_reg_mr p b BUF_SIZE mr_flags)"
  shows "pays P A L (mr_body env i)"
  unfolding mr_body_def
  by (intro pays_store_then [OF assms(1)] pays_base assms(2,3)) simp_all

lemma pays_qp_body:
  assumes "array_stable L" and "\<And>i p a. \<not> P (Rdma_create_qp i p a)"
  shows "pays P A L (qp_body env i)"
  unfolding pays_def qp_body_def
  using assms by (auto simp: wp_simps wp_ctx wp_arr_set paid_def live_in_def acquired_in_def
      array_stable_def of_bool_def split: option.split parr.split intro!: wp_calls)

section \<open>The contract of a member that owns one resource\<close>

text \<open>The seven calls that release something.\<close>

fun release_call :: "vcall \<Rightarrow> bool" where
  "release_call (Rdma_destroy_qp _) = True"
| "release_call (Ibv_dereg_mr _) = True"
| "release_call (Free _) = True"
| "release_call (Ibv_destroy_cq _) = True"
| "release_call (Ibv_dealloc_pd _) = True"
| "release_call (Ibv_close_device _) = True"
| "release_call (Rdma_destroy_id _) = True"
| "release_call _ = False"

text \<open>\<open>released\<close> are the calls that release what the member owns, \<open>acquired\<close> those that acquire
  something for it; \<open>live\<close> says that it owns something.\<close>

locale owned =
  fixes released :: "vcall \<Rightarrow> bool" and acquired :: "vcall \<times> resp \<Rightarrow> bool"
    and live :: "rdma_context \<Rightarrow> bool"
  assumes creating: "pays released acquired live (fs_rdma_create_resources env)"
    and tearing: "pays released acquired live (fs_rdma_teardown env)"
    and connecting: "live (c\<lparr>rc_connected := k\<rparr>) = live c"
    and releasing: "released x \<Longrightarrow> release_call x"
begin

abbreviation ok :: "(fs_state, 'a) cmd \<Rightarrow> bool" where
  "ok m \<equiv> pays released acquired live m"

lemma disconnect_ok: "ok (fs_rdma_cm_handle_disconnect env)"
  unfolding fs_rdma_cm_handle_disconnect_def by (intro pays_base tearing)

lemma connect_init_ok: "ok (fs_rdma_cm_handle_connect_init env ev)"
  unfolding fs_rdma_cm_handle_connect_init_def Let_def
  by (intro pays_base) (auto simp: connecting dest: releasing)

lemma handler_ok: "ok (handler env ev)"
  unfolding handler_def fs_rdma_cm_handle_addr_resolved_def fs_rdma_cm_handle_route_resolved_def
    fs_rdma_cm_handle_connect_request_def
  by (auto split: cm_event_type.split intro!: pays_base disconnect_ok creating connect_init_ok dest!: releasing)

lemma turn_ok: "ok (cm_turn env ch e)"
  unfolding cm_turn_shape handle_and_ack_def ack_def
  by (intro pays_base handler_ok) (auto dest: releasing)

text \<open>Over any number of turns the account is kept.\<close>

lemma turns_paid:
  assumes "turns (cm_turn env ch) n e s e' t" and "rdma_ctx s \<noteq> None"
  shows "paid released acquired live s t"
  using assms(1)
proof (rule turns_invariant)
  show "paid released acquired live s s" by (rule paid_refl [OF assms(2)])
next
  fix e u e' v
  assume u: "paid released acquired live s u" and "cm_turn env ch e u = (Ret (Some e'), v)"
  with paysD [OF turn_ok paid_ctx [OF u]] show "paid released acquired live s v"
    using paid_trans by blast
qed

end

section \<open>What makes a member an owner\<close>

text \<open>\<open>pays_for P L present rel clear\<close>: the release \<open>rel\<close> of a member that is \<open>present\<close> spends the
  owner \<open>L\<close> when it is of kind \<open>P\<close>, and clearing the member brings no owner to life.\<close>

definition pays_for :: "(vcall \<Rightarrow> bool) \<Rightarrow> (rdma_context \<Rightarrow> bool) \<Rightarrow> (rdma_context \<Rightarrow> bool)
    \<Rightarrow> (rdma_context \<Rightarrow> vcall) \<Rightarrow> (rdma_context \<Rightarrow> rdma_context) \<Rightarrow> bool" where
  "pays_for P L present rel clear \<longleftrightarrow> (\<forall>c. present c \<longrightarrow>
     of_bool (P (rel c)) + of_bool (L (clear c)) \<le> (of_bool (L c) :: nat))"

lemma pays_forD: "pays_for P L present rel clear \<Longrightarrow> pays P A L (release env present rel clear)"
  by (rule pays_release) (simp add: pays_for_def)

lemmas release_steps = release_loop_def release_slot_def release_cq_def release_pd_def

text \<open>A member: only releases are of the kind in question, each of the seven releases pays, the loops
  store only in arrays that are there, and no other write touches the owner, but that of the
  protection domain when what was allocated counts as acquired.\<close>

locale member =
  fixes P :: "vcall \<Rightarrow> bool" and A :: "vcall \<times> resp \<Rightarrow> bool" and L :: "rdma_context \<Rightarrow> bool"
  assumes only_releases: "P x \<Longrightarrow> release_call x"
    and arrays: "array_stable L"
    and qps: "pays_for P L (\<lambda>c. rc_qp c \<noteq> Null_arr) (\<lambda>c. Rdma_destroy_qp (rc_cm_id c)) (\<lambda>c. c\<lparr>rc_qp := Null_arr\<rparr>)"
    and mrs: "pays_for P L (\<lambda>c. rc_mr c \<noteq> Null_arr) (\<lambda>c. Ibv_dereg_mr (arr_base (rc_mr c))) (\<lambda>c. c\<lparr>rc_mr := Null_arr\<rparr>)"
    and bufs: "pays_for P L (\<lambda>c. rc_buf c \<noteq> Null_arr) (\<lambda>c. Free (arr_base (rc_buf c))) (\<lambda>c. c\<lparr>rc_buf := Null_arr\<rparr>)"
    and cq: "pays_for P L (\<lambda>c. rc_cq c \<noteq> NULL) (\<lambda>c. Ibv_destroy_cq (rc_cq c)) (\<lambda>c. c\<lparr>rc_cq := NULL\<rparr>)"
    and pd: "pays_for P L (\<lambda>c. rc_pd c \<noteq> NULL) (\<lambda>c. Ibv_dealloc_pd (rc_pd c)) (\<lambda>c. c\<lparr>rc_pd := NULL\<rparr>)"
    and content: "pays_for P L (\<lambda>c. rc_content c \<noteq> NULL) (\<lambda>c. Ibv_close_device (rc_content c)) (\<lambda>c. c\<lparr>rc_content := NULL\<rparr>)"
    and cm_id: "pays_for P L (\<lambda>c. rc_cm_id c \<noteq> NULL) (\<lambda>c. Rdma_destroy_id (rc_cm_id c)) (\<lambda>c. c\<lparr>rc_cm_id := NULL\<rparr>)"
    and writes: "L (c\<lparr>rc_connected := k\<rparr>) = L c" "L (c\<lparr>rc_context := x'\<rparr>) = L c"
      "L (c\<lparr>rc_port_attr := x'\<rparr>) = L c" "L (c\<lparr>rc_channel := x'\<rparr>) = L c" "L (c\<lparr>rc_send_cq := x'\<rparr>) = L c"
      "L (c\<lparr>rc_recv_cq := x'\<rparr>) = L c" "L (c\<lparr>rc_srq := x'\<rparr>) = L c"
    and domain: "L (c\<lparr>rc_pd := r_ptr r\<rparr>) \<Longrightarrow> L c \<or> A (Ibv_alloc_pd cx, r)"
begin

lemma quiet: "\<not> release_call x \<Longrightarrow> \<not> P x"
  using only_releases by blast

lemmas release_intros = pays_forD [OF qps] pays_forD [OF mrs] pays_forD [OF bufs] pays_forD [OF cq]
  pays_forD [OF pd] pays_forD [OF content] pays_forD [OF cm_id]

lemma member_tearing: "pays P A L (fs_rdma_teardown env)"
  unfolding fs_rdma_teardown_def release_steps by (intro pays_base release_intros)

lemma member_cleaning: "pays P A L (out_cleanup env)"
  unfolding out_cleanup_def release_steps by (intro pays_base release_intros)

lemma member_opening: "pays P A L (open_part env)"
  unfolding open_part_def fs_rdma_find_dev_def option.case
  by (intro pays_acquire pays_base) (auto simp: quiet writes dest: domain)

lemma member_creating: "pays P A L (fs_rdma_create_resources env)"
  unfolding fs_rdma_create_resources_def create_body_def channel_part_def cq_part_def srq_part_def Let_def
  by (intro pays_base pays_mr_body pays_qp_body member_opening member_cleaning)
    (simp_all add: quiet writes arrays)

end

sublocale member \<subseteq> owned P A L
  by unfold_locales (simp_all add: member_creating member_tearing writes only_releases)

section \<open>The seven members\<close>

fun destroys_qp :: "vcall \<Rightarrow> bool" where
  "destroys_qp (Rdma_destroy_qp _) = True"
| "destroys_qp _ = False"

fun deregisters :: "vcall \<Rightarrow> bool" where
  "deregisters (Ibv_dereg_mr _) = True"
| "deregisters _ = False"

fun frees_buf :: "vcall \<Rightarrow> bool" where
  "frees_buf (Free _) = True"
| "frees_buf _ = False"

fun destroys_cq :: "vcall \<Rightarrow> bool" where
  "destroys_cq (Ibv_destroy_cq _) = True"
| "destroys_cq _ = False"

fun closes_device :: "vcall \<Rightarrow> bool" where
  "closes_device (Ibv_close_device _) = True"
| "closes_device _ = False"

fun deallocs_pd :: "vcall \<Rightarrow> bool" where
  "deallocs_pd (Ibv_dealloc_pd _) = True"
| "deallocs_pd _ = False"

text \<open>A protection domain that was allocated.  Nothing else that is released is ever acquired for
  the member its release reads.\<close>

fun allocs_pd :: "vcall \<times> resp \<Rightarrow> bool" where
  "allocs_pd (Ibv_alloc_pd _, r) = (r_ptr r \<noteq> NULL)"
| "allocs_pd _ = False"

lemma releases_only:
  "destroys_qp x \<Longrightarrow> release_call x" "deregisters x \<Longrightarrow> release_call x" "frees_buf x \<Longrightarrow> release_call x"
  "destroys_cq x \<Longrightarrow> release_call x" "closes_device x \<Longrightarrow> release_call x" "deallocs_pd x \<Longrightarrow> release_call x"
  "is_destroy x \<Longrightarrow> release_call x"
  by (cases x; simp)+

lemmas member_simps = array_stable_def pays_for_def releases_only

interpretation qp: member destroys_qp "\<lambda>_. False" "\<lambda>c. rc_qp c \<noteq> Null_arr"
  by unfold_locales (auto simp: member_simps)

interpretation mr: member deregisters "\<lambda>_. False" "\<lambda>c. rc_mr c \<noteq> Null_arr"
  by unfold_locales (auto simp: member_simps)

interpretation buf: member frees_buf "\<lambda>_. False" "\<lambda>c. rc_buf c \<noteq> Null_arr"
  by unfold_locales (auto simp: member_simps)

interpretation cqm: member destroys_cq "\<lambda>_. False" "\<lambda>c. rc_cq c \<noteq> NULL"
  by unfold_locales (auto simp: member_simps)

interpretation dev: member closes_device "\<lambda>_. False" "\<lambda>c. rc_content c \<noteq> NULL"
  by unfold_locales (auto simp: member_simps)

interpretation pdm: member deallocs_pd allocs_pd "\<lambda>c. rc_pd c \<noteq> NULL"
  by unfold_locales (auto simp: member_simps)

interpretation idm: member is_destroy "\<lambda>_. False" "\<lambda>c. rc_cm_id c \<noteq> NULL"
  by unfold_locales (auto simp: member_simps)

section \<open>The property\<close>

text \<open>The accounts over the calls made from \<open>s\<close> to \<open>t\<close>.\<close>

lemma paid_since:
  assumes "paid P A L s t" and "rdma_ctx s = Some c" and "rdma_ctx t = Some d"
  shows "count_calls P (since s t) + of_bool (L d) \<le> of_bool (L c) + length (filter A (since s t))"
proof -
  obtain xs where "calls t = calls s @ xs" using assms(1) by (auto simp: paid_def prefix_def)
  with assms show ?thesis by (simp add: paid_def since_def live_in_def acquired_in_def)
qed

text \<open>C6: a session releases nothing twice.  Over any number of turns the queue pairs are destroyed,
  the regions deregistered, the buffers freed, the identifier and the completion queue destroyed
  and the device closed at most once, and only if the member was set at the start; afterwards the
  member is null.  Protection domains, the only thing acquired again, are deallocated at most as
  often as one was allocated, counting the one the context started with.\<close>

theorem session_releases_once:
  assumes "turns (cm_turn env ch) n e s e' t" and "rdma_ctx s = Some c"
  shows "\<exists>d. rdma_ctx t = Some d \<and> (let k = \<lambda>P. count_calls P (since s t) in
    k destroys_qp + of_bool (rc_qp d \<noteq> Null_arr) \<le> of_bool (rc_qp c \<noteq> Null_arr) \<and>
    k deregisters + of_bool (rc_mr d \<noteq> Null_arr) \<le> of_bool (rc_mr c \<noteq> Null_arr) \<and>
    k frees_buf + of_bool (rc_buf d \<noteq> Null_arr) \<le> of_bool (rc_buf c \<noteq> Null_arr) \<and>
    k destroys_cq + of_bool (rc_cq d \<noteq> NULL) \<le> of_bool (rc_cq c \<noteq> NULL) \<and>
    k closes_device + of_bool (rc_content d \<noteq> NULL) \<le> of_bool (rc_content c \<noteq> NULL) \<and>
    k is_destroy + of_bool (rc_cm_id d \<noteq> NULL) \<le> of_bool (rc_cm_id c \<noteq> NULL) \<and>
    k deallocs_pd + of_bool (rc_pd d \<noteq> NULL) \<le>
      of_bool (rc_pd c \<noteq> NULL) + length (filter allocs_pd (since s t)))"
proof -
  have some: "rdma_ctx s \<noteq> None" using assms(2) by simp
  obtain d where d: "rdma_ctx t = Some d"
    using paid_ctx [OF qp.turns_paid [OF assms(1) some]] by blast
  note paid = paid_since [OF _ assms(2) d]
  show ?thesis
    using paid [OF qp.turns_paid [OF assms(1) some]] paid [OF mr.turns_paid [OF assms(1) some]]
      paid [OF buf.turns_paid [OF assms(1) some]] paid [OF cqm.turns_paid [OF assms(1) some]]
      paid [OF dev.turns_paid [OF assms(1) some]] paid [OF idm.turns_paid [OF assms(1) some]]
      paid [OF pdm.turns_paid [OF assms(1) some]] d
    by (simp add: Let_def)
qed

theorem session_releases_once_witness:
  "\<exists>e t d. turns (cm_turn (event_host (event_of RDMA_CM_EVENT_DISCONNECTED 7)) 5) 1 NULL one_slot e t \<and>
     rdma_ctx t = Some d \<and> count_calls is_destroy (since one_slot t) + of_bool (rc_cm_id d \<noteq> NULL) \<le> 1"
proof -
  obtain e t where t: "cm_turn (event_host (event_of RDMA_CM_EVENT_DISCONNECTED 7)) 5 NULL one_slot =
      (Ret (Some e), t)"
    using disconnected_turn by (metis prod.collapse)
  obtain d where "rdma_ctx t = Some d" "count_calls is_destroy (since one_slot t) +
      of_bool (rc_cm_id d \<noteq> NULL) \<le> (1 :: nat)"
    using session_releases_once [OF one_turn_turns [OF t] one_slot_simps(1)] unfolding Let_def by auto
  then show ?thesis using one_turn_turns [OF t] by blast
qed

end
