(* ===== verification/Rdma_Reads.thy ===== *)
theory Rdma_Reads
  imports Relocation "HOL-Library.Multiset"
begin

text \<open>
  \<open>fs_rdma_do_reads\<close> of \<open>src/src/c/transport.c\<close>: turning a list of RDMA read chunks into one
  buffer, its memory registrations and a chain of read work requests, with the reference
  counting of the post on every path.

  The chunk list is an array ended by a chunk whose discriminator is 0; its fields have the
  widths of the RPC-over-RDMA wire format.  The GlusterFS helpers (\<open>iobuf_*\<close>, \<open>iobref_*\<close>,
  \<open>fs_CALLOC\<close>, \<open>fs_rdma_post_ref\<close>, the registration) and \<open>ibv_post_send\<close> are calls.  The
  registration stores a region in the post and the code then reads that region's local key:
  the key is the answer's \<open>r_out\<close>.  A pointer into the array \<open>wr\<close> is the index of the element;
  \<open>bad_wr\<close> is null when the answer's \<open>r_ptr\<close> is, else the element \<open>r_out\<close>.  The scatter entry
  \<open>list[i]\<close> that \<open>wr[i].sg_list\<close> points to is part of the request's record.  At the label
  \<open>out\<close> the local \<open>iobuf\<close> is null on every path, so the last \<open>iobuf_unref\<close> is never reached.
\<close>

section \<open>Data\<close>

record read_chunk =
  rc_discrim :: "32 word"
  rs_handle :: "32 word"
  rs_length :: "32 word"
  rs_offset :: "64 word"

datatype ibv_wr_opcode = IBV_WR_RDMA_READ

datatype ibv_send_flag = IBV_SEND_SIGNALED

record read_wr =
  wq_id :: addr
  wq_addr :: addr
  wq_length :: "32 word"
  wq_lkey :: int
  wq_next :: "nat option"
  wq_num_sge :: int
  wq_opcode :: ibv_wr_opcode
  wq_send_flags :: "ibv_send_flag set"
  wq_remote_addr :: "64 word"
  wq_rkey :: "32 word"

datatype rcall =
    Iobuf_get2 "64 word"
  | Iobuf_unref addr
  | Iobuf_ptr addr
  | Iobref_new
  | Iobref_add addr addr
  | Calloc_sge int
  | Calloc_wr int
  | Free_mem addr
  | Register_local_mr addr "64 word"
  | Post_ref
  | Post_unref
  | Ibv_post_send addr "read_wr list"

text \<open>The post's context (\<open>post->ctx\<close>); \<open>pc_vector\<close> is its array of buffers and lengths.\<close>

record reads_state = "rcall world" +
  pc_reads :: int
  pc_iobref :: addr
  pc_count :: int
  pc_vector :: "(addr \<times> 64 word) list"

text \<open>What the function reads of \<open>peer\<close>: \<open>peer->trans->private->connected\<close> and \<open>peer->qp\<close>.\<close>

record read_peer =
  rp_connected :: int
  rp_qp :: addr

section \<open>The function\<close>

text \<open>The first loop: the number of chunks, and the sum of their lengths as a \<open>size_t\<close>.\<close>

fun chunk_scan :: "read_chunk list \<Rightarrow> int \<Rightarrow> 64 word \<Rightarrow> ('s, int \<times> 64 word) cmd" where
  "chunk_scan [] i sz = stopM (Faulted Out_Of_Bounds)"
| "chunk_scan (c # cs) i sz =
     (if rc_discrim c = 0 then retM (i, sz)
      else if \<not> c_int (i + 1) then stopM (Faulted Signed_Overflow)
      else chunk_scan cs (i + 1) (sz + ucast (rs_length c)))"

definition set_vector :: "int \<Rightarrow> addr \<times> 64 word \<Rightarrow> (reads_state, unit) cmd" where
  "set_vector k v = bindM (getM pc_vector) (\<lambda>vs.
     if 0 \<le> k \<and> k < int (length vs) then modifyM (\<lambda>s. s\<lparr>pc_vector := vs[nat k := v]\<rparr>)
     else stopM (Faulted Out_Of_Bounds))"

text \<open>The second loop.  It answers \<open>Inl total_ref\<close> where a registration fails, else the number of
  chunks, \<open>total_ref\<close> and the requests.\<close>

fun read_loop :: "rcall env \<Rightarrow> read_chunk list \<Rightarrow> nat \<Rightarrow> addr \<Rightarrow> int \<Rightarrow> read_wr list
    \<Rightarrow> (reads_state, int + nat \<times> int \<times> read_wr list) cmd" where
  "read_loop env [] i ptr tref wr = stopM (Faulted Out_Of_Bounds)"
| "read_loop env (c # cs) i ptr tref wr =
     (if rc_discrim c = 0 then retM (Inr (i, tref, wr))
      else bindM (getM pc_count) (\<lambda>count.
        if \<not> c_int (count + 1) then stopM (Faulted Signed_Overflow)
        else thenM (modifyM (\<lambda>s. s\<lparr>pc_count := count + 1\<rparr>))
        (thenM (set_vector count (ptr, ucast (rs_length c)))
        (bindM (ext env (Register_local_mr ptr (ucast (rs_length c)))) (\<lambda>r.
         if r_int r = - 1 then retM (Inl tref)
         else bindM (call_ptr env Post_ref) (\<lambda>p.
           read_loop env cs (i + 1) (ptr + unat (rs_length c)) (tref + 1)
             (wr @ [\<lparr>wq_id = p, wq_addr = ptr, wq_length = rs_length c, wq_lkey = r_out r,
                wq_next = Some (i + 1), wq_num_sge = 1, wq_opcode = IBV_WR_RDMA_READ,
                wq_send_flags = {IBV_SEND_SIGNALED}, wq_remote_addr = rs_offset c,
                wq_rkey = rs_handle c\<rparr>])))))))"

text \<open>\<open>wr[i-1].next = NULL\<close>.\<close>

definition end_chain :: "nat \<Rightarrow> read_wr list \<Rightarrow> read_wr list" where
  "end_chain i wr = wr[i - 1 := (wr ! (i - 1))\<lparr>wq_next := None\<rparr>]"

text \<open>The loop over the requests in front of \<open>bad_wr\<close>, whose references are kept.\<close>

function skip_posted :: "int \<Rightarrow> int \<Rightarrow> int \<Rightarrow> int \<Rightarrow> int" where
  "skip_posted i n bad tref =
     (if i < n then if i \<noteq> bad then skip_posted (i + 1) n bad (tref - 1) else tref else tref)"
  by pat_completeness auto
termination by (relation "measure (\<lambda>(i, n, _). nat (n - i))") auto

declare skip_posted.simps [simp del]

fun unref_times :: "rcall env \<Rightarrow> nat \<Rightarrow> (reads_state, unit) cmd" where
  "unref_times env 0 = retM ()"
| "unref_times env (Suc n) = thenM (call_void env Post_unref) (unref_times env n)"

definition reads_out :: "rcall env \<Rightarrow> int \<Rightarrow> addr \<Rightarrow> addr \<Rightarrow> int \<Rightarrow> (reads_state, int) cmd" where
  "reads_out env ret list wr total_ref =
     thenM (whenM (list \<noteq> NULL) (call_void env (Free_mem list)))
     (thenM (whenM (wr \<noteq> NULL) (call_void env (Free_mem wr)))
     (thenM (whenM (ret = - 1) (unref_times env (nat total_ref)))
     (retM ret)))"

text \<open>From the filled requests to the end: \<open>ibv_post_send\<close> and the treatment of \<open>bad_wr\<close>.\<close>

definition post_reads ::
    "rcall env \<Rightarrow> read_peer \<Rightarrow> addr \<Rightarrow> addr \<Rightarrow> nat \<Rightarrow> int \<Rightarrow> read_wr list \<Rightarrow> (reads_state, int) cmd" where
  "post_reads env peer list wr i total_ref reqs =
     bindM (ext env (Ibv_post_send (rp_qp peer) (end_chain i reqs))) (\<lambda>r.
     if r_int r = 0 then reads_out env 0 list wr total_ref
     else if r_ptr r = NULL then reads_out env (- 1) list wr total_ref
     else bindM (getM pc_reads) (\<lambda>n.
       reads_out env (- 1) list wr (skip_posted 0 n (r_out r) total_ref)))"

text \<open>The part in the inner block, from the connection test on.\<close>

definition read_block ::
    "rcall env \<Rightarrow> read_peer \<Rightarrow> read_chunk list \<Rightarrow> addr \<Rightarrow> (reads_state, int) cmd" where
  "read_block env peer readch ptr =
     (if rp_connected peer = 0 then reads_out env (- 1) NULL NULL 0
      else bindM (getM pc_reads) (\<lambda>n.
        bindM (call_ptr env (Calloc_sge n)) (\<lambda>list.
        if list = NULL then reads_out env (- 1) NULL NULL 0
        else bindM (call_ptr env (Calloc_wr n)) (\<lambda>wr.
          if wr = NULL then reads_out env (- 1) list NULL 0
          else bindM (read_loop env readch 0 ptr 0 []) (\<lambda>x.
            case x of
              Inl total_ref \<Rightarrow> reads_out env (- 1) list wr total_ref
            | Inr (i, total_ref, reqs) \<Rightarrow> post_reads env peer list wr i total_ref reqs)))))"

definition fs_rdma_do_reads ::
    "rcall env \<Rightarrow> read_peer \<Rightarrow> read_chunk list \<Rightarrow> (reads_state, int) cmd" where
  "fs_rdma_do_reads env peer readch =
     bindM (chunk_scan readch 0 0) (\<lambda>(i, sz).
     if i = 0 then reads_out env (- 1) NULL NULL 0
     else thenM (modifyM (\<lambda>s. s\<lparr>pc_reads := i\<rparr>))
       (bindM (call_ptr env (Iobuf_get2 sz)) (\<lambda>iobuf.
        if iobuf = NULL then reads_out env (- 1) NULL NULL 0
        else bindM (getM pc_iobref) (\<lambda>ref0.
          bindM (if ref0 = NULL
                 then bindM (call_ptr env Iobref_new) (\<lambda>ref.
                   thenM (modifyM (\<lambda>s. s\<lparr>pc_iobref := ref\<rparr>)) (retM ref))
                 else retM ref0) (\<lambda>ref.
          if ref = NULL
          then thenM (call_void env (Iobuf_unref iobuf)) (reads_out env (- 1) NULL NULL 0)
          else thenM (call_void env (Iobref_add ref iobuf))
            (thenM (call_void env (Iobuf_unref iobuf))
            (bindM (call_ptr env (Iobuf_ptr iobuf)) (\<lambda>ptr.
             read_block env peer readch ptr))))))))"

section \<open>What the requests should be\<close>

definition chunks_of :: "read_chunk list \<Rightarrow> read_chunk list" where
  "chunks_of readch = takeWhile (\<lambda>c. rc_discrim c \<noteq> 0) readch"

definition terminated :: "read_chunk list \<Rightarrow> bool" where
  "terminated readch \<longleftrightarrow> (\<exists>c\<in>set readch. rc_discrim c = 0)"

text \<open>One request per chunk: consecutive pieces of the buffer, the chunk's remote side, one scatter
  entry, the opcode and flag of a signaled read, and the successor in the chain.\<close>

type_synonym request = "addr \<times> 32 word \<times> 64 word \<times> 32 word \<times>
  (int \<times> ibv_wr_opcode \<times> ibv_send_flag set) \<times> nat option"

definition signaled_read :: "int \<times> ibv_wr_opcode \<times> ibv_send_flag set" where
  "signaled_read = (1, IBV_WR_RDMA_READ, {IBV_SEND_SIGNALED})"

fun requests :: "nat \<Rightarrow> nat \<Rightarrow> addr \<Rightarrow> read_chunk list \<Rightarrow> request list" where
  "requests n i ptr [] = []"
| "requests n i ptr (c # cs) =
     (ptr, rs_length c, rs_offset c, rs_handle c, signaled_read,
       if i + 1 = n then None else Some (i + 1)) #
     requests n (i + 1) (ptr + unat (rs_length c)) cs"

definition request_of :: "read_wr \<Rightarrow> request" where
  "request_of w = (wq_addr w, wq_length w, wq_remote_addr w, wq_rkey w,
     (wq_num_sge w, wq_opcode w, wq_send_flags w), wq_next w)"

text \<open>The pieces of the buffer that the chunks occupy.\<close>

fun pieces :: "addr \<Rightarrow> read_chunk list \<Rightarrow> (addr \<times> 64 word) list" where
  "pieces ptr [] = []"
| "pieces ptr (c # cs) = (ptr, ucast (rs_length c)) # pieces (ptr + unat (rs_length c)) cs"

section \<open>Accounts of references and memory\<close>

fun is_ref :: "rcall \<Rightarrow> bool" where
  "is_ref Post_ref = True"
| "is_ref _ = False"

fun is_unref :: "rcall \<Rightarrow> bool" where
  "is_unref Post_unref = True"
| "is_unref _ = False"

fun is_sent :: "rcall \<Rightarrow> bool" where
  "is_sent (Ibv_post_send _ _) = True"
| "is_sent _ = False"

text \<open>A pointer to an array as an account of memory: the null pointer stands for none.\<close>

definition array_at :: "addr \<Rightarrow> addr multiset" where
  "array_at a = (if a = NULL then {#} else {#a#})"

fun allocated :: "rcall \<times> resp \<Rightarrow> addr multiset" where
  "allocated (Calloc_sge _, r) = array_at (r_ptr r)"
| "allocated (Calloc_wr _, r) = array_at (r_ptr r)"
| "allocated _ = {#}"

fun freed :: "rcall \<times> resp \<Rightarrow> addr multiset" where
  "freed (Free_mem a, _) = {#a#}"
| "freed _ = {#}"

text \<open>References taken and dropped; the addresses allocated and freed, each as often as it was; the
  posts to the queue pair.\<close>

definition refs :: "reads_state \<Rightarrow> nat" where "refs s = count_calls is_ref (calls s)"
definition unrefs :: "reads_state \<Rightarrow> nat" where "unrefs s = count_calls is_unref (calls s)"
definition allocs :: "reads_state \<Rightarrow> addr multiset" where "allocs s = sum_list (map allocated (calls s))"
definition frees :: "reads_state \<Rightarrow> addr multiset" where "frees s = sum_list (map freed (calls s))"
definition sent :: "reads_state \<Rightarrow> rcall trace" where "sent s = filter (\<lambda>x. is_sent (fst x)) (calls s)"

lemmas account_defs = refs_def unrefs_def allocs_def frees_def sent_def

lemma account_call [simp]:
  "refs (s\<lparr>calls := calls s @ [(c, r)]\<rparr>) = refs s + (if is_ref c then 1 else 0)"
  "unrefs (s\<lparr>calls := calls s @ [(c, r)]\<rparr>) = unrefs s + (if is_unref c then 1 else 0)"
  "allocs (s\<lparr>calls := calls s @ [(c, r)]\<rparr>) = allocs s + allocated (c, r)"
  "frees (s\<lparr>calls := calls s @ [(c, r)]\<rparr>) = frees s + freed (c, r)"
  "sent (s\<lparr>calls := calls s @ [(c, r)]\<rparr>) = sent s @ (if is_sent c then [(c, r)] else [])"
  by (simp_all add: account_defs)

lemma array_at_NULL [simp]: "array_at NULL = {#}"
  by (simp add: array_at_def)

section \<open>The loops\<close>

lemma chunks_of_simps [simp]:
  "chunks_of [] = []"
  "chunks_of (c # cs) = (if rc_discrim c = 0 then [] else c # chunks_of cs)"
  by (simp_all add: chunks_of_def)

lemma terminated_simps [simp]:
  "\<not> terminated []" "terminated (c # cs) \<longleftrightarrow> rc_discrim c = 0 \<or> terminated cs"
  by (simp_all add: terminated_def)

definition total_length :: "read_chunk list \<Rightarrow> nat" where
  "total_length cs = sum_list (map (\<lambda>c. unat (rs_length c)) cs)"

lemma total_length_simps [simp]:
  "total_length [] = 0" "total_length (c # cs) = unat (rs_length c) + total_length cs"
  by (simp_all add: total_length_def)

lemma wp_chunk_scan:
  "wp (chunk_scan cs i sz) (\<lambda>r t. t = s \<and>
     (if terminated cs \<and> c_int (i + int (length (chunks_of cs)))
      then r = Ret (i + int (length (chunks_of cs)), sz + of_nat (total_length (chunks_of cs)))
      else r = Stop (Faulted Out_Of_Bounds) \<or> r = Stop (Faulted Signed_Overflow))) s" if "c_int i"
  using that
proof (induction cs arbitrary: i sz)
  case (Cons c cs)
  have step: "i + int (length (chunks_of (c # cs))) = (i + 1) + int (length (chunks_of cs))"
    if "rc_discrim c \<noteq> 0" using that by simp
  have over: "\<not> c_int (i + 1) \<Longrightarrow> c_int i \<Longrightarrow> \<not> c_int (1 + i + int n)" for n
    by (simp add: c_int_def)
  show ?case
    using Cons.prems over [of "length (chunks_of cs)"] Cons.IH [of "i + 1" "sz + ucast (rs_length c)"]
    by (auto simp: algebra_simps elim!: wp_mono split: if_splits)
qed simp

text \<open>Room for the pieces in the post's vector.\<close>

definition room :: "reads_state \<Rightarrow> nat \<Rightarrow> bool" where
  "room s n \<longleftrightarrow> 0 \<le> pc_count s \<and> pc_count s + int n \<le> int (length (pc_vector s)) \<and>
     c_int (pc_count s + int n)"

text \<open>A request works on memory that was registered for it: its key is the answer to a successful
  registration of its own piece, and its number a reference to the post.\<close>

definition registered :: "rcall trace \<Rightarrow> read_wr \<Rightarrow> bool" where
  "registered tr w \<longleftrightarrow>
     (\<exists>q. (Register_local_mr (wq_addr w) (ucast (wq_length w)), q) \<in> set tr \<and> r_int q \<noteq> - 1 \<and> wq_lkey w = r_out q) \<and>
     (\<exists>p. (Post_ref, p) \<in> set tr \<and> wq_id w = r_ptr p)"

lemma registered_mono: "registered tr w \<Longrightarrow> prefix tr tr' \<Longrightarrow> registered tr' w"
  by (auto simp: registered_def prefix_def)

lemma registered_next [simp]: "registered tr (w\<lparr>wq_next := x\<rparr>) = registered tr w"
  by (simp add: registered_def)

text \<open>What the second loop establishes, from \<open>s\<close> to \<open>t\<close>.\<close>

definition filled_from :: "nat \<Rightarrow> (addr \<times> 64 word) list \<Rightarrow> reads_state \<Rightarrow> reads_state \<Rightarrow> bool" where
  "filled_from k xs s t \<longleftrightarrow> pc_count t = int (k + length xs) \<and>
     pc_vector t = take k (pc_vector s) @ xs @ drop (k + length xs) (pc_vector s)"

definition loop_result :: "reads_state \<Rightarrow> read_chunk list \<Rightarrow> nat \<Rightarrow> addr \<Rightarrow> int \<Rightarrow> read_wr list
    \<Rightarrow> (int + nat \<times> int \<times> read_wr list) outcome \<Rightarrow> reads_state \<Rightarrow> bool" where
  "loop_result s cs i ptr tref wr r t \<longleftrightarrow>
     unrefs t = unrefs s \<and> allocs t = allocs s \<and> frees t = frees s \<and> sent t = sent s \<and>
     pc_reads t = pc_reads s \<and> prefix (calls s) (calls t) \<and>
     (case r of
        Stop e \<Rightarrow> e \<in> {Faulted Out_Of_Bounds, Faulted Signed_Overflow} \<and> \<not> room s (length cs)
      | Ret (Inl n) \<Rightarrow> \<exists>k \<le> length cs. n = tref + int k \<and> refs t = refs s + k
      | Ret (Inr (j, n, reqs)) \<Rightarrow> j = i + length cs \<and> n = tref + int (length cs) \<and>
          refs t = refs s + length cs \<and>
          (\<exists>vs. reqs = wr @ vs \<and> map request_of vs = requests 0 i ptr cs \<and>
             (\<forall>w\<in>set vs. registered (calls t) w)) \<and>
          (0 \<le> pc_count s \<longrightarrow> filled_from (nat (pc_count s)) (pieces ptr cs) s t))"

lemma pieces_length [simp]: "length (pieces ptr cs) = length cs"
  by (induction cs arbitrary: ptr) simp_all

lemma wp_set_vector:
  "wp (set_vector k v) Q s = (if 0 \<le> k \<and> k < int (length (pc_vector s))
     then Q (Ret ()) (s\<lparr>pc_vector := (pc_vector s)[nat k := v]\<rparr>)
     else Q (Stop (Faulted Out_Of_Bounds)) s)"
  by (simp add: set_vector_def wp_simps)

lemma loop_result_Nil: "loop_result s [] i ptr tref wr (Ret (Inr (i, tref, wr))) s"
  by (auto simp: loop_result_def filled_from_def)

lemma filled_from_Cons:
  assumes "filled_from (Suc k) xs u t" and "pc_vector u = (pc_vector s)[k := x]"
    and "k < length (pc_vector s)"
  shows "filled_from k (x # xs) s t"
  using assms by (simp add: filled_from_def take_Suc_conv_app_nth take_update_swap list_update_append min_absorb2)

text \<open>One turn in front of the rest of the loop.\<close>

lemma loop_result_step:
  assumes t: "loop_result u cs (i + 1) (ptr + unat (rs_length c)) (tref + 1) (wr @ [w]) r t"
    and u: "refs u = refs s + 1" "unrefs u = unrefs s" "allocs u = allocs s" "frees u = frees s" "sent u = sent s"
      "pc_reads u = pc_reads s" "prefix (calls s) (calls u)" "pc_count u = pc_count s + 1"
      "pc_vector u = (pc_vector s)[nat (pc_count s) := (ptr, ucast (rs_length c))]"
    and k: "0 \<le> pc_count s" "pc_count s < int (length (pc_vector s))"
    and w: "request_of w = (ptr, rs_length c, rs_offset c, rs_handle c, signaled_read, Some (i + 1))"
      "registered (calls u) w"
  shows "loop_result s (c # cs) i ptr tref wr r t"
proof -
  have same: "unrefs t = unrefs s" "allocs t = allocs s" "frees t = frees s" "sent t = sent s" "pc_reads t = pc_reads s"
    "prefix (calls s) (calls t)"
    using t u prefix_order.trans [of "calls s" "calls u" "calls t"] by (auto simp: loop_result_def)
  have next_k: "nat (pc_count s + 1) = Suc (nat (pc_count s))" "nat (pc_count s) < length (pc_vector s)"
    using k by auto
  have fill: "filled_from (nat (pc_count s)) ((ptr, ucast (rs_length c)) # xs) s t"
    if "filled_from (nat (pc_count u)) xs u t" for xs
    using that u(8,9) next_k by (intro filled_from_Cons [of _ _ u]) simp_all
  consider e where "r = Stop e" | n where "r = Ret (Inl n)" | j n reqs where "r = Ret (Inr (j, n, reqs))"
    by (metis outcome.exhaust sum.exhaust prod.exhaust)
  then show ?thesis
  proof cases
    case 1
    with t u k same show ?thesis by (auto simp: loop_result_def room_def c_int_def)
  next
    case 2
    then obtain m where "m \<le> length cs" "n = tref + 1 + int m" "refs t = refs u + m"
      using t by (auto simp: loop_result_def)
    with 2 u(1) same show ?thesis
      by (auto simp: loop_result_def intro: exI [of _ "Suc m"])
  next
    case 3
    then obtain vs where "reqs = wr @ w # vs" "map request_of vs = requests 0 (i + 1) (ptr + unat (rs_length c)) cs"
      "\<forall>w\<in>set vs. registered (calls t) w"
      using t by (auto simp: loop_result_def)
    moreover have "registered (calls t) w"
      using w(2) t by (auto simp: loop_result_def intro: registered_mono)
    ultimately show ?thesis using 3 t u k same w(1) fill by (auto simp: loop_result_def)
  qed
qed

lemma wp_read_loop:
  "terminated cs \<Longrightarrow> wp (read_loop env cs i ptr tref wr) (loop_result s (chunks_of cs) i ptr tref wr) s"
proof (induction cs arbitrary: i ptr tref wr s)
  case (Cons c cs)
  show ?case
  proof (cases "rc_discrim c = 0")
    case True
    then show ?thesis by (simp add: loop_result_Nil)
  next
    case False
    let ?len = "ucast (rs_length c) :: 64 word" and ?k = "pc_count s"
    let ?v = "(pc_vector s)[nat ?k := (ptr, ?len)]"
    show ?thesis
    proof (cases "0 \<le> ?k \<and> ?k < int (length (pc_vector s)) \<and> c_int (?k + 1)")
      case out: False
      with False show ?thesis
        by (auto simp: wp_simps wp_set_vector loop_result_def room_def account_defs c_int_def)
    next
      case inside: True
      define mid where "mid q p = s\<lparr>pc_count := ?k + 1, pc_vector := ?v,
        calls := calls s @ [(Register_local_mr ptr ?len, q), (Post_ref, p)]\<rparr>" for q p
      have mid: "refs (mid q p) = refs s + 1" "unrefs (mid q p) = unrefs s" "allocs (mid q p) = allocs s"
        "frees (mid q p) = frees s" "sent (mid q p) = sent s" "pc_reads (mid q p) = pc_reads s" "pc_count (mid q p) = ?k + 1"
        "pc_vector (mid q p) = ?v" "prefix (calls s) (calls (mid q p))" for q p
        by (simp_all add: mid_def account_defs)
      have rest: "wp (read_loop env cs (i + 1) (ptr + unat (rs_length c)) (tref + 1)
          (wr @ [\<lparr>wq_id = r_ptr p, wq_addr = ptr, wq_length = rs_length c, wq_lkey = r_out q,
            wq_next = Some (i + 1), wq_num_sge = 1, wq_opcode = IBV_WR_RDMA_READ,
            wq_send_flags = {IBV_SEND_SIGNALED}, wq_remote_addr = rs_offset c, wq_rkey = rs_handle c\<rparr>]))
          (loop_result s (chunks_of (c # cs)) i ptr tref wr) (mid q p)" if "r_int q \<noteq> - 1" for q p
        using Cons.prems False inside that
        by (intro wp_mono [OF Cons.IH])
          (auto intro!: loop_result_step [of "mid q p"] simp: mid request_of_def signaled_read_def,
           auto simp: registered_def mid_def)
      show ?thesis
        using inside False rest [unfolded mid_def]
        by (auto simp: wp_simps wp_set_vector intro!: wp_calls)
          (auto simp: loop_result_def account_defs)
    qed
  qed
qed simp

section \<open>The end of the function\<close>

lemma wp_unref_times:
  "wp (unref_times env n) (\<lambda>r t. r = Ret () \<and> refs t = refs s \<and> unrefs t = unrefs s + n \<and>
     allocs t = allocs s \<and> frees t = frees s \<and> sent t = sent s \<and> pc_reads t = pc_reads s \<and>
     pc_count t = pc_count s \<and> pc_vector t = pc_vector s \<and> made s t (replicate n Post_unref) \<and> prefix (calls s) (calls t)) s"
proof (induction n arbitrary: s)
  case (Suc n)
  show ?case
    by (auto simp: wp_simps made_def prefix_def intro!: wp_calls wp_mono [OF Suc.IH])
qed simp

definition out_calls :: "int \<Rightarrow> addr \<Rightarrow> addr \<Rightarrow> int \<Rightarrow> rcall list" where
  "out_calls ret list wr tref = (if list = NULL then [] else [Free_mem list]) @
     (if wr = NULL then [] else [Free_mem wr]) @
     (if ret = - 1 then replicate (nat tref) Post_unref else [])"

lemma wp_reads_out:
  "wp (reads_out env ret list wr tref) (\<lambda>r t. r = Ret ret \<and> refs t = refs s \<and>
     unrefs t = unrefs s + (if ret = - 1 then nat tref else 0) \<and> allocs t = allocs s \<and>
     frees t = frees s + array_at list + array_at wr \<and> sent t = sent s \<and>
     pc_reads t = pc_reads s \<and> pc_count t = pc_count s \<and> pc_vector t = pc_vector s \<and>
     made s t (out_calls ret list wr tref) \<and> prefix (calls s) (calls t)) s"
  unfolding reads_out_def out_calls_def
  by (auto simp: wp_simps made_def account_defs array_at_def prefix_def intro!: wp_calls
      wp_mono [OF wp_unref_times [unfolded account_defs]])

lemma skip_posted_eq:
  "i \<le> n \<Longrightarrow> skip_posted i n bad tref = tref - (if i \<le> bad \<and> bad < n then bad - i else n - i)"
proof (induction i n bad tref rule: skip_posted.induct)
  case (1 i n bad tref)
  then show ?case by (subst skip_posted.simps) (auto split: if_splits)
qed

text \<open>Closing the chain gives the last request no successor and changes nothing else.\<close>

definition no_next :: "request \<Rightarrow> request" where
  "no_next x = (case x of (a, l, ra, k, f, nx) \<Rightarrow> (a, l, ra, k, f, None))"

lemma requests_length [simp]: "length (requests n i ptr cs) = length cs"
  by (induction cs arbitrary: i ptr) simp_all

lemma requests_close:
  "cs \<noteq> [] \<Longrightarrow> (requests 0 i ptr cs)[length cs - 1 := no_next (requests 0 i ptr cs ! (length cs - 1))] =
     requests (i + length cs) i ptr cs"
proof (induction cs arbitrary: i ptr)
  case (Cons c cs)
  show ?case
  proof (cases cs)
    case Nil
    then show ?thesis by (simp add: no_next_def)
  next
    case (Cons d ds)
    then show ?thesis using Cons.IH [of "Suc i" "ptr + unat (rs_length c)"] by simp
  qed
qed simp

lemma end_chain_registered:
  "\<forall>w\<in>set reqs. registered tr w \<Longrightarrow> w \<in> set (end_chain n reqs) \<Longrightarrow> registered tr w"
  using set_update_subset_insert [of reqs "n - 1" "(reqs ! (n - 1))\<lparr>wq_next := None\<rparr>"]
  by (cases "n - 1 < length reqs") (auto simp: end_chain_def not_less list_update_beyond dest: subsetD)

lemma end_chain_requests:
  assumes "map request_of reqs = requests 0 0 ptr cs" and "cs \<noteq> []" and "n = length cs"
  shows "map request_of (end_chain n reqs) = requests n 0 ptr cs"
proof -
  have len: "length reqs = length cs" by (metis assms(1) length_map requests_length)
  have close: "request_of (w\<lparr>wq_next := None\<rparr>) = no_next (request_of w)" for w
    by (simp add: request_of_def no_next_def)
  have "n - 1 < length reqs" using len assms(2,3) by (cases cs) simp_all
  then have "map request_of (end_chain n reqs) =
      (map request_of reqs)[n - 1 := no_next (map request_of reqs ! (n - 1))]"
    by (simp add: end_chain_def map_update close)
  also have "\<dots> = requests n 0 ptr cs"
    using requests_close [OF assms(2), of 0 ptr] by (simp add: assms(1,3))
  finally show ?thesis .
qed

section \<open>The function as a whole\<close>

text \<open>How many of \<open>n\<close> requests the answer of \<open>ibv_post_send\<close> leaves referenced: all on success,
  none when it names no request, those in front of the bad one otherwise.\<close>

definition accepted :: "nat \<Rightarrow> resp \<Rightarrow> nat" where
  "accepted n q = (if r_int q = 0 then n else if r_ptr q = NULL then 0
     else if 0 \<le> r_out q \<and> r_out q < int n then nat (r_out q) else n)"

text \<open>The requests \<open>reqs\<close> were posted once, answered by \<open>q\<close>, and the function ends accordingly.\<close>

definition posted :: "read_peer \<Rightarrow> addr \<Rightarrow> read_chunk list \<Rightarrow> reads_state \<Rightarrow> int \<Rightarrow> reads_state
    \<Rightarrow> read_wr list \<Rightarrow> resp \<Rightarrow> bool" where
  "posted peer ptr cs s x t reqs q \<longleftrightarrow>
     (\<exists>pre. prefix (calls s @ pre @ [(Ibv_post_send (rp_qp peer) reqs, q)]) (calls t)) \<and>
     map request_of reqs = requests (length cs) 0 ptr cs \<and> (\<forall>w\<in>set reqs. registered (calls t) w) \<and>
     x = (if r_int q = 0 then 0 else - 1) \<and>
     sent t = sent s @ [(Ibv_post_send (rp_qp peer) reqs, q)] \<and> refs t = refs s + length cs \<and>
     unrefs t + accepted (length cs) q = unrefs s + length cs \<and>
     (0 \<le> pc_count s \<longrightarrow> filled_from (nat (pc_count s)) (pieces ptr cs) s t)"

definition block_result :: "read_peer \<Rightarrow> addr \<Rightarrow> read_chunk list \<Rightarrow> reads_state \<Rightarrow> int outcome
    \<Rightarrow> reads_state \<Rightarrow> bool" where
  "block_result peer ptr cs s r t \<longleftrightarrow> prefix (calls s) (calls t) \<and>
     (case r of
        Stop e \<Rightarrow> e \<in> {Faulted Out_Of_Bounds, Faulted Signed_Overflow} \<and> \<not> room s (length cs) \<and> sent t = sent s
      | Ret x \<Rightarrow> allocs t + frees s = allocs s + frees t \<and> pc_reads t = pc_reads s \<and>
          (x = - 1 \<and> sent t = sent s \<and> refs t + unrefs s = refs s + unrefs t \<or>
           (\<exists>reqs q. posted peer ptr cs s x t reqs q)))"

text \<open>What posting establishes, from the state \<open>s\<close> in front of it.\<close>

definition send_result :: "read_peer \<Rightarrow> nat \<Rightarrow> read_wr list \<Rightarrow> addr \<Rightarrow> addr \<Rightarrow> reads_state
    \<Rightarrow> resp \<Rightarrow> int outcome \<Rightarrow> reads_state \<Rightarrow> bool" where
  "send_result peer n reqs list wr s q r t \<longleftrightarrow>
     r = Ret (if r_int q = 0 then 0 else - 1) \<and>
     prefix (calls s @ [(Ibv_post_send (rp_qp peer) (end_chain n reqs), q)]) (calls t) \<and>
     refs t = refs s \<and> unrefs t + accepted n q = unrefs s + n \<and> allocs t = allocs s \<and>
     frees t = frees s + array_at list + array_at wr \<and>
     sent t = sent s @ [(Ibv_post_send (rp_qp peer) (end_chain n reqs), q)] \<and>
     pc_reads t = pc_reads s \<and> pc_count t = pc_count s \<and> pc_vector t = pc_vector s"

lemma wp_post_reads:
  assumes n: "pc_reads s = int n"
  shows "wp (post_reads env peer list wr n (int n) reqs)
    (\<lambda>r t. \<exists>q. send_result peer n reqs list wr s q r t) s"
proof -
  let ?s = "\<lambda>q. s\<lparr>calls := calls s @ [(Ibv_post_send (rp_qp peer) (end_chain n reqs), q)]\<rparr>"
  have sent: "refs (?s q) = refs s" "unrefs (?s q) = unrefs s" "allocs (?s q) = allocs s"
    "frees (?s q) = frees s" "sent (?s q) = sent s @ [(Ibv_post_send (rp_qp peer) (end_chain n reqs), q)]" for q
    by (simp_all add: account_defs)
  have out: "wp (reads_out env x list wr k) (\<lambda>r t. \<exists>q. send_result peer n reqs list wr s q r t) (?s q)"
    if "(if r_int q = 0 then 0 else nat k) + accepted n q = n" "x = (if r_int q = 0 then 0 else - 1)" for k q x
    by (rule wp_mono [OF wp_reads_out], rule exI [of _ q])
      (use that in \<open>simp add: send_result_def sent split: if_splits\<close>)
  have rest: "nat (skip_posted 0 (int n) (r_out q) (int n)) + accepted n q = n"
    if "r_int q \<noteq> 0" "r_ptr q \<noteq> NULL" for q
    using that by (simp add: accepted_def skip_posted_eq nat_diff_distrib) linarith
  have "wp (if r_int q = 0 then reads_out env 0 list wr (int n)
        else if r_ptr q = NULL then reads_out env (- 1) list wr (int n)
        else bindM (getM pc_reads) (\<lambda>m. reads_out env (- 1) list wr (skip_posted 0 m (r_out q) (int n))))
      (\<lambda>r t. \<exists>q. send_result peer n reqs list wr s q r t) (?s q)" for q
  proof (cases "r_int q = 0 \<or> r_ptr q = NULL")
    case True
    then show ?thesis by (auto simp: accepted_def intro!: out)
  next
    case False
    then show ?thesis using rest [of q] n by (simp add: wp_bind out)
  qed
  then show ?thesis
    unfolding post_reads_def wp_bind by (intro wp_calls) simp
qed

text \<open>The three ways out of the loop.\<close>

lemma loop_result_stop: "loop_result s cs 0 ptr 0 [] (Stop e) t \<Longrightarrow> block_result peer ptr cs s (Stop e) t"
  by (simp add: loop_result_def block_result_def)

lemma block_result_no_post:
  assumes "prefix (calls s) (calls t)" "allocs t + frees s = allocs s + frees t" "pc_reads t = pc_reads s"
    "refs t + unrefs s = refs s + unrefs t" "sent t = sent s"
  shows "block_result peer ptr cs s (Ret (- 1)) t"
  using assms by (simp add: block_result_def)

lemma block_result_posted:
  assumes loop: "loop_result s cs 0 ptr 0 [] (Ret (Inr (n, m, reqs))) u" and "cs \<noteq> []"
    and send: "send_result peer n reqs list wr u q r t" and "pc_reads s = int (length cs)"
    and mem: "allocs s = allocs s0 + array_at list + array_at wr" "frees s = frees s0" "sent s = sent s0" "prefix (calls s0) (calls s)"
      "refs s = refs s0" "unrefs s = unrefs s0" "pc_reads s = pc_reads s0" "pc_count s = pc_count s0"
      "pc_vector s = pc_vector s0"
  shows "block_result peer ptr cs s0 r t"
proof -
  let ?x = "if r_int q = 0 then 0 else - 1 :: int"
  have u: "n = length cs" "refs u = refs s0 + length cs" "unrefs u = unrefs s0" "allocs u = allocs s0 + array_at list + array_at wr"
    "frees u = frees s0" "sent u = sent s0" "pc_reads u = pc_reads s0" "map request_of reqs = requests 0 0 ptr cs"
    "prefix (calls s0) (calls u)" "\<forall>w\<in>set reqs. registered (calls u) w" "0 \<le> pc_count s \<longrightarrow> filled_from (nat (pc_count s)) (pieces ptr cs) s u"
    using loop mem prefix_order.trans [of "calls s0" "calls s" "calls u"] by (auto simp: loop_result_def)
  obtain pre where pre: "calls u = calls s0 @ pre" using u(9) by (auto simp: prefix_def)
  have t: "r = Ret ?x" "prefix (calls u @ [(Ibv_post_send (rp_qp peer) (end_chain n reqs), q)]) (calls t)"
    "refs t = refs u" "unrefs t + accepted n q = unrefs u + n" "allocs t = allocs u"
    "frees t = frees u + array_at list + array_at wr" "pc_reads t = pc_reads u" "pc_count t = pc_count u"
    "pc_vector t = pc_vector u" "sent t = sent u @ [(Ibv_post_send (rp_qp peer) (end_chain n reqs), q)]"
    using send by (simp_all add: send_result_def)
  have "prefix (calls s0 @ pre @ [(Ibv_post_send (rp_qp peer) (end_chain n reqs), q)]) (calls t)"
    using t(2) by (simp add: pre)
  moreover have "0 \<le> pc_count s0 \<longrightarrow> filled_from (nat (pc_count s0)) (pieces ptr cs) s0 t"
    using u(11) mem t(8,9) by (simp add: filled_from_def)
  moreover have "prefix (calls u) (calls t)" using t(2) by (auto simp: prefix_def)
  then have "\<forall>w\<in>set (end_chain n reqs). registered (calls t) w"
    using end_chain_registered [OF u(10)] registered_mono by blast
  ultimately have "posted peer ptr cs s0 ?x t (end_chain n reqs) q"
    using end_chain_requests [OF u(8) assms(2) u(1)] t u unfolding posted_def by auto
  then have "\<exists>reqs q. posted peer ptr cs s0 ?x t reqs q" by blast
  moreover have "prefix (calls s0) (calls t)"
    using t(2) unfolding pre by (auto simp: prefix_def)
  ultimately show ?thesis
    unfolding block_result_def t(1) outcome.case using t(5-7) u(4-7) by (simp add: ac_simps)
qed

lemma wp_read_block:
  assumes "terminated readch" and "chunks_of readch \<noteq> []"
    and n: "pc_reads s = int (length (chunks_of readch))"
  shows "wp (read_block env peer readch ptr) (block_result peer ptr (chunks_of readch) s) s"
proof -
  let ?cs = "chunks_of readch"
  have out: "wp (reads_out env (- 1) list wr (int k)) (block_result peer ptr ?cs s) u"
    if "prefix (calls s) (calls u)" "allocs u + frees s = allocs s + frees u + array_at list + array_at wr"
      "pc_reads u = pc_reads s" "sent u = sent s" "refs u + unrefs s = refs s + unrefs u + k" for list wr k u
    by (rule wp_mono [OF wp_reads_out])
      (use that prefix_order.trans [of "calls s" "calls u"] in \<open>auto intro!: block_result_no_post simp: ac_simps\<close>)
  have loop: "wp (read_loop env readch 0 ptr 0 []) (after (\<lambda>x. case x of
          Inl tref \<Rightarrow> reads_out env (- 1) list wr tref
        | Inr (i, tref, reqs) \<Rightarrow> post_reads env peer list wr i tref reqs)
      (block_result peer ptr ?cs s)) u"
    if u: "u = s\<lparr>calls := calls s @ [(Calloc_sge m, a), (Calloc_wr m, b)]\<rparr>"
      "list = r_ptr a" "wr = r_ptr b" "r_ptr a \<noteq> NULL" "r_ptr b \<noteq> NULL" for m a b u list wr
  proof (rule wp_mono [OF wp_read_loop [OF assms(1)]])
    fix r t
    assume r: "loop_result u ?cs 0 ptr 0 [] r t"
    have mem: "allocs u = allocs s + array_at list + array_at wr" "frees u = frees s" "sent u = sent s" "prefix (calls s) (calls u)"
      "refs u = refs s" "unrefs u = unrefs s" "pc_reads u = pc_reads s" "pc_count u = pc_count s"
      "pc_vector u = pc_vector s"
      by (simp_all add: u(1-3) account_defs)
    consider e where "r = Stop e" | k where "r = Ret (Inl k)" | n m reqs where "r = Ret (Inr (n, m, reqs))"
      by (metis outcome.exhaust sum.exhaust prod.exhaust)
    then show "after (\<lambda>x. case x of Inl tref \<Rightarrow> reads_out env (- 1) list wr tref
        | Inr (i, tref, reqs) \<Rightarrow> post_reads env peer list wr i tref reqs) (block_result peer ptr ?cs s) r t"
    proof cases
      case 1
      with r mem show ?thesis
        using prefix_order.trans [of "calls s" "calls u" "calls t"]
        by (simp add: loop_result_def block_result_def room_def)
    next
      case 2
      then obtain j where "k = int j" "refs t = refs u + j" "unrefs t = unrefs u" "allocs t = allocs u"
        "frees t = frees u" "sent t = sent u" "pc_reads t = pc_reads u" "prefix (calls u) (calls t)"
        using r by (auto simp: loop_result_def)
      with 2 mem u show ?thesis
        using prefix_order.trans [of "calls s" "calls u" "calls t"] by (auto intro!: out)
    next
      case 3
      then have m: "n = length ?cs" "m = int (length ?cs)" "pc_reads t = int n"
        using r mem n by (auto simp: loop_result_def)
      have "wp (post_reads env peer list wr n (int n) reqs) (block_result peer ptr ?cs s) t"
        by (rule wp_mono [OF wp_post_reads [OF m(3)]], erule exE)
          (rule block_result_posted [OF r [unfolded 3] assms(2) _ _ mem], assumption, simp add: mem n)
      with 3 m show ?thesis by simp
    qed
  qed
  show ?thesis
    unfolding read_block_def
    by (auto simp: wp_simps account_defs intro!: wp_calls loop [OF refl refl refl]
        out [where k = 0, simplified])
qed

text \<open>\<open>ptr\<close> is the address of the buffer that was asked for with the size of the chunks.\<close>

definition buffer_at :: "read_chunk list \<Rightarrow> addr \<Rightarrow> rcall trace \<Rightarrow> bool" where
  "buffer_at cs ptr tr \<longleftrightarrow> (\<exists>a b. (Iobuf_get2 (of_nat (total_length cs)), a) \<in> set tr \<and>
     (Iobuf_ptr (r_ptr a), b) \<in> set tr \<and> ptr = r_ptr b)"

lemma buffer_at_mono: "buffer_at cs ptr tr \<Longrightarrow> prefix tr tr' \<Longrightarrow> buffer_at cs ptr tr'"
  unfolding buffer_at_def by (metis set_mono_prefix subsetD)

text \<open>The result of the whole function, from its entry state \<open>s\<close>.\<close>

definition do_result :: "read_peer \<Rightarrow> read_chunk list \<Rightarrow> reads_state \<Rightarrow> int outcome \<Rightarrow> reads_state \<Rightarrow> bool" where
  "do_result peer cs s r t \<longleftrightarrow>
     (case r of
        Stop e \<Rightarrow> e \<in> {Faulted Out_Of_Bounds, Faulted Signed_Overflow} \<and> \<not> room s (length cs) \<and> sent t = sent s
      | Ret x \<Rightarrow> allocs t + frees s = allocs s + frees t \<and>
          (x = - 1 \<and> sent t = sent s \<and> refs t + unrefs s = refs s + unrefs t \<or>
           (\<exists>ptr reqs q. posted peer ptr cs s x t reqs q \<and> buffer_at cs ptr (calls t) \<and> pc_reads t = int (length cs))))"

lemma do_result_block:
  assumes "block_result peer ptr cs u r t" and "prefix (calls s) (calls u)"
    and "refs u = refs s" "unrefs u = unrefs s" "allocs u = allocs s" "frees u = frees s" "sent u = sent s"
      "pc_count u = pc_count s" "pc_vector u = pc_vector s" "pc_reads u = int (length cs)"
    and at: "buffer_at cs ptr (calls u)"
  shows "do_result peer cs s r t"
proof (cases r)
  case (Stop e)
  then show ?thesis using assms by (simp add: block_result_def do_result_def room_def)
next
  case (Ret x)
  obtain pre where pre: "calls u = calls s @ pre" using assms(2) by (auto simp: prefix_def)
  have moved: "posted peer ptr cs s x t reqs q" if p: "posted peer ptr cs u x t reqs q" for reqs q
  proof -
    obtain more where "prefix (calls u @ more @ [(Ibv_post_send (rp_qp peer) reqs, q)]) (calls t)"
      using p unfolding posted_def by blast
    then have "prefix (calls s @ (pre @ more) @ [(Ibv_post_send (rp_qp peer) reqs, q)]) (calls t)"
      by (simp add: pre)
    then have "\<exists>pre. prefix (calls s @ pre @ [(Ibv_post_send (rp_qp peer) reqs, q)]) (calls t)"
      by blast
    then show ?thesis using p assms(3-9) unfolding posted_def filled_from_def by simp
  qed
  have "allocs t + frees u = allocs u + frees t" "pc_reads t = pc_reads u"
    "x = - 1 \<and> sent t = sent u \<and> refs t + unrefs u = refs u + unrefs t \<or> (\<exists>reqs q. posted peer ptr cs u x t reqs q)"
    using assms(1) Ret by (simp_all add: block_result_def)
  moreover have "buffer_at cs ptr (calls t)"
    using at assms(1) by (auto simp: block_result_def intro: buffer_at_mono)
  ultimately show ?thesis
    unfolding do_result_def Ret outcome.case using moved assms(3-10) by metis
qed

lemma chunk_scan_run:
  assumes "terminated cs" and "c_int (int (length (chunks_of cs)))"
  shows "chunk_scan cs 0 0 s =
    (Ret (int (length (chunks_of cs)), of_nat (total_length (chunks_of cs))), s)"
  using assms wp_chunk_scan [of 0 cs 0 s] by (cases "chunk_scan cs 0 0 s") (simp add: wp_def c_int_def)

lemma wp_do_reads:
  assumes scan: "terminated readch" "c_int (int (length (chunks_of readch)))"
  shows "wp (fs_rdma_do_reads env peer readch) (do_result peer (chunks_of readch) s) s"
proof -
  let ?cs = "chunks_of readch"
  have out: "wp (reads_out env (- 1) NULL NULL 0) (do_result peer ?cs s) u"
    if "refs u = refs s" "unrefs u = unrefs s" "allocs u = allocs s" "frees u = frees s" "sent u = sent s" for u
    by (rule wp_mono [OF wp_reads_out]) (use that in \<open>auto simp: do_result_def\<close>)
  have block: "wp (read_block env peer readch ptr) (do_result peer ?cs s) u"
    if "?cs \<noteq> []" "pc_reads u = int (length ?cs)" "prefix (calls s) (calls u)" "refs u = refs s"
      "unrefs u = unrefs s" "allocs u = allocs s" "frees u = frees s" "sent u = sent s" "pc_count u = pc_count s"
      "pc_vector u = pc_vector s" "buffer_at ?cs ptr (calls u)" for u ptr
    by (rule wp_mono [OF wp_read_block [OF scan(1) that(1,2)]]) (erule do_result_block; rule that)
  have empty: "wp (reads_out env (- 1) NULL NULL 0) (do_result peer [] s) s" if "?cs = []"
    using out [of s] that by simp
  show ?thesis
    unfolding fs_rdma_do_reads_def wp_bind [of "chunk_scan readch 0 0"]
      wp_def [of "chunk_scan readch 0 0"] chunk_scan_run [OF scan] fst_conv snd_conv after_Ret prod.case
    by (auto simp: wp_simps account_defs buffer_at_def intro!: wp_calls empty out block; blast)
qed

lemma total_length_bound: "total_length cs \<le> length cs * (2 ^ 32 - 1)"
proof (induction cs)
  case (Cons c cs)
  have "unat (rs_length c) < 2 ^ LENGTH(32)" by (rule unsigned_less)
  with Cons show ?case by simp
qed simp

lemma total_length_fits: "c_int (int (length cs)) \<Longrightarrow> unat (of_nat (total_length cs) :: 64 word) = total_length cs"
  using total_length_bound [of cs] by (simp add: c_int_def unat_of_nat)

text \<open>Where the pieces of the requests lie.\<close>

lemma requests_nth:
  "k < length cs \<Longrightarrow> fst (requests n i ptr cs ! k) = ptr + total_length (take k cs) \<and>
     fst (snd (requests n i ptr cs ! k)) = rs_length (cs ! k)"
proof (induction cs arbitrary: i ptr k)
  case (Cons c cs)
  then show ?case by (cases k) (simp_all add: add.assoc)
qed simp

lemma piece_of_request:
  assumes "map request_of reqs = requests n i ptr cs" and "k < length cs"
  shows "wq_addr (reqs ! k) = ptr + total_length (take k cs) \<and> wq_length (reqs ! k) = rs_length (cs ! k)"
proof -
  have "length reqs = length cs" by (metis assms(1) length_map requests_length)
  then have "request_of (reqs ! k) = requests n i ptr cs ! k"
    by (metis assms nth_map)
  then show ?thesis using requests_nth [OF assms(2), of n i ptr] by (metis fst_conv snd_conv request_of_def)
qed

lemma total_length_append [simp]: "total_length (xs @ ys) = total_length xs + total_length ys"
  by (simp add: total_length_def)

lemma total_length_take:
  assumes "j < k" and "k \<le> length cs"
  shows "total_length (take j cs) + unat (rs_length (cs ! j)) \<le> total_length (take k cs)"
proof -
  have "take k cs = take (Suc j) cs @ drop (Suc j) (take k cs)"
    using assms by (metis Suc_leI append_take_drop_id min_absorb1 take_take)
  then have "total_length (take k cs) = total_length (take (Suc j) cs) + total_length (drop (Suc j) (take k cs))"
    by (metis total_length_append)
  then show ?thesis using assms by (simp add: take_Suc_conv_app_nth)
qed

lemma requests_placed:
  assumes "map request_of reqs = requests n 0 ptr cs"
  shows "\<forall>i<length cs. wq_addr (reqs ! i) = ptr + total_length (take i cs) \<and>
     wq_length (reqs ! i) = rs_length (cs ! i) \<and>
     wq_addr (reqs ! i) + unat (wq_length (reqs ! i)) \<le> ptr + total_length cs \<and>
     (\<forall>j<i. wq_addr (reqs ! j) + unat (wq_length (reqs ! j)) \<le> wq_addr (reqs ! i))"
  using piece_of_request [OF assms] total_length_take [of _ _ cs] total_length_take [of _ "length cs" cs]
  by (simp add: add.assoc)

text \<open>Every part only extends the history.\<close>

lemma emits_set_vector [emits_intros]: "emits A (set_vector k v)"
  unfolding set_vector_def by (intro emits_intros) simp

lemma emits_read_loop [emits_intros]: "emits UNIV (read_loop env cs i ptr tref wr)"
proof (induction cs arbitrary: i ptr tref wr)
  case (Cons c cs)
  show ?case unfolding read_loop.simps by (intro emits_intros Cons.IH) simp_all
qed (simp add: emits_stop)

lemma emits_unref_times [emits_intros]: "emits UNIV (unref_times env n)"
  by (induction n) (auto intro: emits_intros)

lemma emits_reads_out [emits_intros]: "emits UNIV (reads_out env ret list wr tref)"
  unfolding reads_out_def by (intro emits_intros UNIV_I)

lemma emits_read_block [emits_intros]: "emits UNIV (read_block env peer readch ptr)"
  unfolding read_block_def post_reads_def
  by (intro emits_intros UNIV_I) (auto split: prod.split intro!: emits_intros)

lemma wp_grows: "emits UNIV m \<Longrightarrow> wp m (\<lambda>r t. prefix (calls s) (calls t)) s"
  by (auto simp: emits_def wp_def grown_def prefix_def)

text \<open>The function depends on the past only through the answers.\<close>

lemma relocates_set_vector [relocates_intros]: "relocates (\<lambda>env. set_vector k v)"
  unfolding set_vector_def by (intro relocates_intros) simp_all

lemma relocates_chunk_scan [relocates_intros]: "relocates (\<lambda>env. chunk_scan cs i sz)"
  by (induction cs arbitrary: i sz) (auto intro!: relocates_intros)

lemma relocates_read_loop [relocates_intros]: "relocates (\<lambda>env. read_loop env cs i ptr tref wr)"
proof (induction cs arbitrary: i ptr tref wr)
  case (Cons c cs)
  show ?case unfolding read_loop.simps by (intro relocates_intros Cons.IH) simp_all
qed (simp add: relocates_stop)

lemma relocates_unref_times [relocates_intros]: "relocates (\<lambda>env. unref_times env n)"
  by (induction n) (auto intro!: relocates_intros)

lemma relocates_reads_out [relocates_intros]: "relocates (\<lambda>env. reads_out env ret list wr tref)"
  unfolding reads_out_def by (intro relocates_intros)

lemma relocates_do_reads: "relocates (\<lambda>env. fs_rdma_do_reads env peer readch)"
  unfolding fs_rdma_do_reads_def read_block_def post_reads_def by (intro relocates_intros) simp_all

lemma behind_reads [simp]:
  "refs (behind h s) = count_calls is_ref h + refs s"
  "unrefs (behind h s) = count_calls is_unref h + unrefs s"
  "pc_reads (behind h s) = pc_reads s" "pc_count (behind h s) = pc_count s" "pc_vector (behind h s) = pc_vector s"
  by (simp_all add: behind_def account_defs)

section \<open>Properties\<close>



text \<open>C10: the function always returns when the chunk list is terminated and the post's vector has
  room for its chunks, whatever the calls answer.\<close>

theorem do_reads_returns:
  assumes "terminated readch" and "c_int (int (length (chunks_of readch)))"
    and "room s (length (chunks_of readch))"
  shows "\<exists>x\<in>{0, - 1}. fst (fs_rdma_do_reads env peer readch s) = Ret x"
proof -
  obtain r t where run: "fs_rdma_do_reads env peer readch s = (r, t)" by fastforce
  have "do_result peer (chunks_of readch) s r t"
    using wpD [OF wp_do_reads [OF assms(1,2)] run] .
  then show ?thesis
    using assms(3) by (cases r) (auto simp: run do_result_def posted_def split: if_splits)
qed

text \<open>C11: the buffer is as large as the chunks and the requests stay inside it.  The sum of the
  32-bit lengths never wraps in the 64-bit size and the first call asks for a buffer of exactly
  that sum; and whatever requests a run posts, on any path, request \<open>i\<close> reads as many bytes as chunk
  \<open>i\<close> has into the place of that buffer behind the chunks before it, inside the buffer, and no two
  requests read into overlapping places.\<close>

theorem do_reads_buffer_fits:
  assumes "fs_rdma_do_reads env peer readch s = (r, t)" and "terminated readch"
    and "c_int (int (length (chunks_of readch)))" and "cs = chunks_of readch" and "cs \<noteq> []"
  shows "(\<exists>xs. made s t (Iobuf_get2 (of_nat (total_length cs)) # xs)) \<and>
    unat (of_nat (total_length cs) :: 64 word) = total_length cs \<and>
    (\<forall>qp reqs q. (Ibv_post_send qp reqs, q) \<in> set (since s t) \<longrightarrow>
       length reqs = length cs \<and>
       (\<exists>ptr. buffer_at cs ptr (since s t) \<and>
          (\<forall>i<length cs. wq_addr (reqs ! i) = ptr + total_length (take i cs) \<and>
             wq_length (reqs ! i) = rs_length (cs ! i) \<and>
             wq_addr (reqs ! i) + unat (wq_length (reqs ! i)) \<le> ptr + total_length cs \<and>
             (\<forall>j<i. wq_addr (reqs ! j) + unat (wq_length (reqs ! j)) \<le> wq_addr (reqs ! i)))))"
proof -
  let ?get = "Iobuf_get2 (of_nat (total_length cs))" and ?s = "s\<lparr>calls := []\<rparr>"
  let ?P = "\<lambda>t. \<exists>xs. made s t (?get # xs)"
  have tail: "wp m (\<lambda>r t. ?P t) (s\<lparr>pc_reads := n, calls := calls s @ [(?get, q)]\<rparr>)"
    if "emits UNIV m" for m :: "(reads_state, int) cmd" and n q
    by (rule wp_mono [OF wp_grows [OF that]]) (auto simp: made_def prefix_def)
  have "wp (fs_rdma_do_reads env peer readch) (\<lambda>r t. ?P t) s"
    unfolding fs_rdma_do_reads_def wp_bind [of "chunk_scan readch 0 0"]
      wp_def [of "chunk_scan readch 0 0"] chunk_scan_run [OF assms(2,3)] fst_conv snd_conv after_Ret
      prod.case
    by (simp add: assms(4) [symmetric] assms(5) wp_then wp_bind [of "call_ptr env (Iobuf_get2 sz)" for sz],
        intro wp_calls) (auto intro!: tail emits_intros)
  then have get: "?P t" using assms(1) by (auto simp: wp_def)
  obtain u where u: "fs_rdma_do_reads (seen (calls s) env) peer readch ?s = (r, u)" "calls u = since s t"
    by (rule relocated [OF relocates_do_reads assms(1)])
  have only: "sent u = filter (\<lambda>x. is_sent (fst x)) (since s t)" by (simp add: sent_def u(2))
  have done_reads: "do_result peer cs ?s r u" using wpD [OF wp_do_reads [OF assms(2,3)] u(1)] by (simp add: assms(4))
  have "length reqs = length cs \<and> (\<exists>ptr. buffer_at cs ptr (since s t) \<and>
          (\<forall>i<length cs. wq_addr (reqs ! i) = ptr + total_length (take i cs) \<and>
             wq_length (reqs ! i) = rs_length (cs ! i) \<and>
             wq_addr (reqs ! i) + unat (wq_length (reqs ! i)) \<le> ptr + total_length cs \<and>
             (\<forall>j<i. wq_addr (reqs ! j) + unat (wq_length (reqs ! j)) \<le> wq_addr (reqs ! i))))"
    if "(Ibv_post_send qp reqs, q) \<in> set (since s t)" for qp reqs q
  proof -
    have "(Ibv_post_send qp reqs, q) \<in> set (sent u)" using that by (simp add: only)
    then obtain ptr where "buffer_at cs ptr (calls u)" "map request_of reqs = requests (length cs) 0 ptr cs"
      using done_reads by (cases r) (auto simp: do_result_def posted_def sent_def [of ?s])
    moreover have "length reqs = length cs" by (metis calculation(2) length_map requests_length)
    ultimately show ?thesis unfolding u(2) by (intro conjI exI [of _ ptr] requests_placed)
  qed
  then show ?thesis
    using get total_length_fits [of cs] assms(3) by (simp add: assms(4))
qed

section \<open>Concrete runs\<close>

definition chunk :: "nat \<Rightarrow> nat \<Rightarrow> nat \<Rightarrow> read_chunk" where
  "chunk h l off = \<lparr>rc_discrim = 1, rs_handle = of_nat h, rs_length = of_nat l, rs_offset = of_nat off\<rparr>"

definition last_chunk :: read_chunk where
  "last_chunk = \<lparr>rc_discrim = 0, rs_handle = 0, rs_length = 0, rs_offset = 0\<rparr>"

definition two_chunks :: "read_chunk list" where
  "two_chunks = [chunk 7 10 4000, chunk 8 20 5000, last_chunk]"

definition post_with :: "(addr \<times> 64 word) list \<Rightarrow> reads_state" where
  "post_with vs = \<lparr>calls = [], pc_reads = 0, pc_iobref = NULL, pc_count = 0, pc_vector = vs\<rparr>"

definition up_peer :: read_peer where
  "up_peer = \<lparr>rp_connected = 1, rp_qp = 3\<rparr>"

definition reads_host :: "rcall env" where
  "reads_host tr c = resp0\<lparr>r_ptr := 100 + length tr\<rparr>"

text \<open>An adapter that accepts the first request only.\<close>

definition second_bad_host :: "rcall env" where
  "second_bad_host tr c = (case c of
       Ibv_post_send _ _ \<Rightarrow> resp0\<lparr>r_int := 12, r_ptr := 1, r_out := 1\<rparr>
     | _ \<Rightarrow> reads_host tr c)"

lemmas reads_defs = fs_rdma_do_reads_def read_block_def post_reads_def reads_out_def set_vector_def
  end_chain_def cmd_defs Let_def two_chunks_def chunk_def last_chunk_def post_with_def up_peer_def
  reads_host_def second_bad_host_def resp0_def c_int_def

lemma two_chunks_of: "chunks_of two_chunks = [chunk 7 10 4000, chunk 8 20 5000]" "terminated two_chunks"
  by (simp_all add: two_chunks_def chunk_def last_chunk_def)

lemma two_chunks_fit: "c_int (int (length (chunks_of two_chunks)))"
  by (simp add: two_chunks_of c_int_def)



theorem do_reads_returns_witness:
  "\<exists>x\<in>{0, - 1}. fst (fs_rdma_do_reads second_bad_host up_peer two_chunks (post_with [(0, 0), (0, 0)])) = Ret x"
  by (rule do_reads_returns [OF two_chunks_of(2) two_chunks_fit])
    (simp add: room_def c_int_def two_chunks_of post_with_def)

theorem do_reads_buffer_fits_witness:
  "\<exists>t ptr reqs q. fs_rdma_do_reads reads_host up_peer two_chunks (post_with [(0, 0), (0, 0)]) = (Ret 0, t) \<and>
     (Ibv_post_send 3 reqs, q) \<in> set (calls t) \<and> buffer_at (chunks_of two_chunks) ptr (calls t) \<and>
     wq_addr (reqs ! 1) = ptr + 10 \<and> wq_length (reqs ! 1) = 20"
proof -
  let ?m = "fs_rdma_do_reads reads_host up_peer two_chunks (post_with [(0, 0), (0, 0)])"
  have "fst ?m = Ret 0 \<and> (\<exists>reqs q. (Ibv_post_send 3 reqs, q) \<in> set (calls (snd ?m)))"
    by (simp add: reads_defs)
  then obtain t reqs q where t: "?m = (Ret 0, t)" "(Ibv_post_send 3 reqs, q) \<in> set (calls t)"
    by (metis prod.collapse)
  have all: "since (post_with [(0, 0), (0, 0)]) t = calls t" by (simp add: since_def post_with_def)
  have "chunks_of two_chunks \<noteq> []" by (simp add: two_chunks_of)
  from do_reads_buffer_fits [OF t(1) two_chunks_of(2) two_chunks_fit refl this, unfolded all] t(2)
  obtain ptr where "buffer_at (chunks_of two_chunks) ptr (calls t)"
      "\<forall>i<length (chunks_of two_chunks). wq_addr (reqs ! i) = ptr + total_length (take i (chunks_of two_chunks)) \<and>
         wq_length (reqs ! i) = rs_length (chunks_of two_chunks ! i)"
    by blast
  then have "buffer_at (chunks_of two_chunks) ptr (calls t) \<and> wq_addr (reqs ! 1) = ptr + 10 \<and> wq_length (reqs ! 1) = 20"
    by (simp add: two_chunks_of chunk_def)
  with t show ?thesis by blast
qed

text \<open>The function does not check the post's vector for room.  With one free entry and two
  chunks it writes behind the vector, after the first chunk's reference was taken.\<close>

theorem do_reads_overruns_vector:
  "fst (fs_rdma_do_reads reads_host up_peer two_chunks (post_with [(0, 0)])) = Stop (Faulted Out_Of_Bounds) \<and>
   refs (snd (fs_rdma_do_reads reads_host up_peer two_chunks (post_with [(0, 0)]))) = 1 \<and>
   unrefs (snd (fs_rdma_do_reads reads_host up_peer two_chunks (post_with [(0, 0)]))) = 0"
  by (simp add: reads_defs account_defs)

end
