(* ===== verification/Bounded_Retry.thy ===== *)
theory Bounded_Retry
  imports Extern
begin

text \<open>
  Loops that try something a bounded number of times, the shape of the three retry loops of
  \<open>src/src/Connection.cc\<close>: an attempt either settles the loop's result or asks for another turn.
  The locale \<open>retrying\<close> states what an attempt may cost; the bounds on a whole loop follow.
\<close>

text \<open>\<open>retry n att ex\<close>: \<open>n\<close> attempts are left; \<open>att\<close> is told how many.  With none left \<open>ex\<close> runs.\<close>

fun retry :: "nat \<Rightarrow> (nat \<Rightarrow> ('s, 'r option) cmd) \<Rightarrow> ('s, 'r) cmd \<Rightarrow> ('s, 'r) cmd" where
  "retry 0 att ex = ex"
| "retry (Suc n) att ex = bindM (att (Suc n))
     (\<lambda>r. case r of None \<Rightarrow> retry n att ex | Some x \<Rightarrow> retM x)"

lemma retry_numeral [cmd_defs]: "retry (numeral n) att ex = bindM (att (numeral n))
     (\<lambda>r. case r of None \<Rightarrow> retry (pred_numeral n) att ex | Some x \<Rightarrow> retM x)"
  by (simp add: numeral_eq_Suc)

text \<open>An invariant of the attempts holds when the loop is over.\<close>

lemma wp_retry:
  assumes "I n s"
    and "\<And>k t. k < n \<Longrightarrow> I (Suc k) t \<Longrightarrow> wp (att (Suc k))
      (\<lambda>r u. case r of Ret None \<Rightarrow> I k u | Ret (Some x) \<Rightarrow> Q (Ret x) u | Stop e \<Rightarrow> Q (Stop e) u) t"
    and "\<And>t. I 0 t \<Longrightarrow> wp ex Q t"
  shows "wp (retry n att ex) Q s"
  using assms
proof (induction n arbitrary: s)
  case (Suc n)
  have more: "wp (retry n att ex) Q u" if "I n u" for u
    by (rule Suc.IH [OF that]) (use Suc.prems in auto)
  show ?case
    unfolding retry.simps wp_bind
    by (rule wp_mono [OF Suc.prems(2) [OF lessI Suc.prems(1)]])
      (auto simp: after_def more split: outcome.splits option.splits)
qed simp

section \<open>The contract of an attempt\<close>

text \<open>\<open>tries\<close> counts attempts: each adds at most one, an attempt that asks for another turn
  exactly one, and running out adds none.\<close>

locale retrying =
  fixes att :: "nat \<Rightarrow> ('s, 'r option) cmd" and ex :: "('s, 'r) cmd" and tries :: "'s \<Rightarrow> nat"
  assumes att_tries: "att k s = (r, t) \<Longrightarrow>
      tries s \<le> tries t \<and> tries t \<le> Suc (tries s) \<and> (r = Ret None \<longrightarrow> tries t = Suc (tries s))"
    and ex_tries: "ex s = (q, t) \<Longrightarrow> tries t = tries s"
begin

text \<open>How a loop ends, and how many attempts that took: with \<open>k\<close> left, at most \<open>n - k + 1\<close>.\<close>

lemma retry_ends:
  "retry n att ex s = (r, t) \<Longrightarrow>
     (\<exists>u. ex u = (r, t)) \<and> tries t = tries s + n \<or>
     (\<exists>k u a. 0 < k \<and> k \<le> n \<and> att k u = (a, t) \<and> tries t + k \<le> tries s + n + 1 \<and>
        ((\<exists>x. a = Ret (Some x) \<and> r = Ret x) \<or> (\<exists>e. a = Stop e \<and> r = Stop e)))"
proof (induction n arbitrary: s)
  case 0
  then show ?case by (auto simp: ex_tries)
next
  case (Suc n)
  obtain a v where a: "att (Suc n) s = (a, v)" by fastforce
  consider e where "a = Stop e" | x where "a = Ret (Some x)" | "a = Ret None"
    by (metis outcome.exhaust option.exhaust)
  then show ?case
  proof cases
    case 1
    then show ?thesis
      using Suc.prems a att_tries [OF a]
      by (intro disjI2 exI [of _ "Suc n"] exI [of _ s] exI [of _ a]) (simp add: bindM_def)
  next
    case 2
    then show ?thesis
      using Suc.prems a att_tries [OF a]
      by (intro disjI2 exI [of _ "Suc n"] exI [of _ s] exI [of _ a]) (simp add: bindM_def retM_def)
  next
    case 3
    then have run: "retry n att ex v = (r, t)" using Suc.prems a by (simp add: bindM_def)
    have v: "tries v = Suc (tries s)" using att_tries [OF a] 3 by simp
    consider (out) "\<exists>u. ex u = (r, t)" "tries t = tries v + n"
      | (settled) k u b where "0 < k" "k \<le> n" "att k u = (b, t)" "tries t + k \<le> tries v + n + 1"
          "(\<exists>x. b = Ret (Some x) \<and> r = Ret x) \<or> (\<exists>e. b = Stop e \<and> r = Stop e)"
      using Suc.IH [OF run] by blast
    then show ?thesis
    proof cases
      case out
      with v show ?thesis by simp
    next
      case settled
      with v show ?thesis
        by (intro disjI2 exI [of _ k] exI [of _ u] exI [of _ b]) simp
    qed
  qed
qed

lemma retry_bound: "retry n att ex s = (r, t) \<Longrightarrow> tries t \<le> tries s + n"
  using retry_ends [of n s r t] by auto

end

end
