(* ===== verification/Perftest_Connection.thy ===== *)
theory Perftest_Connection
  imports Bounded_Retry Verbs
begin

text \<open>
  The blocking connection setup of \<open>src/src/Connection.cc\<close>: \<open>establish_connection\<close>,
  \<open>rdma_client_connect\<close>, \<open>rdma_server_connect\<close>, \<open>ctx_close_connection\<close> and
  \<open>retry_rdma_connect\<close>.

  The file relies on the perftest package, which is not in the repository: its macros are the
  constants of the record \<open>perftest\<close>; its helpers (\<open>check_add_port\<close>, \<open>alloc_ctx\<close>, \<open>ctx_init\<close>,
  \<open>post_one_recv_wqe\<close>, \<open>post_recv_to_get_ah\<close>, \<open>create_ah_from_wc_recv\<close>,
  \<open>create_rdma_resources\<close>, \<open>destroy_rdma_resources\<close>, \<open>ctx_hand_shake\<close>) are calls whose effect on
  the context and the parameters is the function \<open>pt_hook\<close>.  The members used of
  \<open>struct pingpong_context\<close> and \<open>struct perftest_parameters\<close> form the two records below.  The
  structures that the pointers \<open>cm_id\<close> and \<open>qp[0]\<close> point to belong to the libraries: reading \<open>verbs\<close> or
  \<open>qp_num\<close> there faults for a null pointer and is a call otherwise; \<open>qp[0]\<close> itself faults where the
  array \<open>ctx->qp\<close> is null or empty.  In
  \<open>rdma_client_connect\<close> a block comment swallows the brace that ends the \<open>UD\<close> branch; it is read
  as ending in front of the last acknowledgement.  A successful \<open>rdma_get_cm_event\<close> delivers an
  event, as librdmacm documents.  Diagnostic output is not modelled.
\<close>

section \<open>Data\<close>

datatype TestType = LAT | BW | TestType_other int

record pingpong_context =
  pp_cm_id :: addr
  pp_cm_id_control :: addr
  pp_cm_channel :: addr
  pp_context :: addr
  pp_pd :: addr
  pp_ah :: parr
  pp_qp :: parr

record perftest_parameters =
  pf_machine :: MachineType
  pf_verb :: VerbType
  pf_connection_type :: ConnectionType
  pf_tst :: TestType
  pf_duplex :: int
  pf_port :: int
  pf_servername :: "string option"
  pf_out_reads :: int
  pf_retry_count :: int
  pf_work_rdma_cm :: int
  pf_use_rdma_cm :: int
  pf_sockfd :: int
  pf_rem_ud_qpn :: "32 word"
  pf_rem_ud_qkey :: "32 word"

datatype pcall =
    Vc vcall
  | Check_add_port int "string option" addrinfo_hints
  | Alloc_ctx
  | Ctx_init
  | Post_one_recv_wqe
  | Post_recv_to_get_ah
  | Create_ah_from_wc_recv
  | Create_rdma_resources
  | Destroy_rdma_resources
  | Ctx_hand_shake
  | Read_verbs addr
  | Read_qp_num addr
  | Ibv_create_ah addr addr
  | Write_done int
  | Close_fd int
  | Usleep int

record perf_state = "pcall world" +
  ctx :: pingpong_context
  user_param :: perftest_parameters

text \<open>What the file takes from outside: the answers, the effect of the helpers, the macros.\<close>

record perftest =
  pt_env :: "pcall env"
  pt_hook :: "pcall \<Rightarrow> resp \<Rightarrow> pingpong_context \<times> perftest_parameters
    \<Rightarrow> pingpong_context \<times> perftest_parameters"
  pt_ON :: int
  pt_OFF :: int
  pt_SUCCESS :: int
  pt_FAILURE :: int
  pt_NUM_OF_RETRIES :: nat

section \<open>Access and helper calls\<close>

definition cx :: "(pingpong_context \<Rightarrow> 'a) \<Rightarrow> (perf_state, 'a) cmd" where
  "cx f = getM (\<lambda>s. f (ctx s))"

definition set_cx :: "(pingpong_context \<Rightarrow> pingpong_context) \<Rightarrow> (perf_state, unit) cmd" where
  "set_cx f = modifyM (\<lambda>s. s\<lparr>ctx := f (ctx s)\<rparr>)"

definition up :: "(perftest_parameters \<Rightarrow> 'a) \<Rightarrow> (perf_state, 'a) cmd" where
  "up f = getM (\<lambda>s. f (user_param s))"

definition set_up :: "(perftest_parameters \<Rightarrow> perftest_parameters) \<Rightarrow> (perf_state, unit) cmd" where
  "set_up f = modifyM (\<lambda>s. s\<lparr>user_param := f (user_param s)\<rparr>)"

text \<open>A call of a perftest helper, with its effect.\<close>

definition helper :: "perftest \<Rightarrow> pcall \<Rightarrow> (perf_state, int) cmd" where
  "helper pt c = bindM (ext (pt_env pt) c) (\<lambda>r.
     thenM (modifyM (\<lambda>s. let (x, y) = pt_hook pt c r (ctx s, user_param s)
       in s\<lparr>ctx := x, user_param := y\<rparr>))
     (retM (r_int r)))"

definition vint :: "perftest \<Rightarrow> vcall \<Rightarrow> (perf_state, int) cmd" where
  "vint pt c = call_int (pt_env pt) (Vc c)"

declare cx_def [cmd_defs] set_cx_def [cmd_defs] up_def [cmd_defs] set_up_def [cmd_defs]
  helper_def [cmd_defs] vint_def [cmd_defs]

definition get_event :: "perftest \<Rightarrow> (perf_state, resp) cmd" where
  "get_event pt = bindM (cx pp_cm_channel) (\<lambda>ch. ext (pt_env pt) (Vc (Rdma_get_cm_event ch)))"

definition ack_event :: "perftest \<Rightarrow> resp \<Rightarrow> (perf_state, unit) cmd" where
  "ack_event pt e = call_void (pt_env pt) (Vc (Rdma_ack_cm_event (ev_addr (r_event e))))"

text \<open>\<open>ctx->context = ctx->cm_id->verbs\<close>.\<close>

definition take_verbs :: "perftest \<Rightarrow> (perf_state, unit) cmd" where
  "take_verbs pt = bindM (cx pp_cm_id) (\<lambda>i.
     if i = NULL then stopM (Faulted Null_Deref)
     else bindM (call_ptr (pt_env pt) (Read_verbs i)) (\<lambda>v. set_cx (\<lambda>c. c\<lparr>pp_context := v\<rparr>)))"

text \<open>\<open>ctx->qp[0]->qp_num\<close>.\<close>

fun first_qp :: "parr \<Rightarrow> (perf_state, addr) cmd" where
  "first_qp Null_arr = stopM (Faulted Null_Deref)"
| "first_qp (Arr b []) = stopM (Faulted Out_Of_Bounds)"
| "first_qp (Arr b (q # qs)) = retM q"

definition qp_number :: "perftest \<Rightarrow> (perf_state, 32 word) cmd" where
  "qp_number pt = bindM (cx pp_qp) (\<lambda>qp. bindM (first_qp qp) (\<lambda>q.
     if q = NULL then stopM (Faulted Null_Deref)
     else bindM (ext (pt_env pt) (Read_qp_num q)) (\<lambda>r. retM (word_of_int (r_out r)))))"

declare qp_number_def [cmd_defs] get_event_def [cmd_defs] ack_event_def [cmd_defs] take_verbs_def [cmd_defs]

definition tcp_hints :: "bool \<Rightarrow> addrinfo_hints" where
  "tcp_hints passive = \<lparr>ai_passive = passive, ai_inet = True, ai_stream = True\<rparr>"

text \<open>\<open>PF_INET\<close> is 2; \<open>htons((unsigned short) port)\<close>.\<close>

definition PF_INET :: int where "PF_INET = 2"

definition with_port :: "sockaddr_in \<Rightarrow> int \<Rightarrow> sockaddr_in" where
  "with_port sa p = sa\<lparr>sin_port := htons (word_of_int p)\<rparr>"

text \<open>The connection parameters; \<open>out_reads\<close> and \<open>retry_count\<close> are stored in one byte each.\<close>

definition perf_conn_param :: "perftest_parameters \<Rightarrow> rdma_conn_param" where
  "perf_conn_param u =
     (if pf_verb u = READ \<or> pf_verb u = ATOMIC
      then conn_param0\<lparr>responder_resources := word_of_int (pf_out_reads u),
        initiator_depth := word_of_int (pf_out_reads u)\<rparr>
      else conn_param0)
     \<lparr>cp_retry_count := word_of_int (pf_retry_count u), rnr_retry_count := 7\<rparr>"

section \<open>The client\<close>

text \<open>A turn of the first loop, with \<open>n\<close> retries left: \<open>None\<close> after an \<open>ADDR_ERROR\<close>, \<open>Some (Inr n)\<close>
  for the \<open>break\<close>, \<open>Some (Inl v)\<close> for \<open>return v\<close>.\<close>

definition addr_attempt :: "perftest \<Rightarrow> sockaddr_in \<Rightarrow> nat \<Rightarrow> (perf_state, (int + nat) option) cmd" where
  "addr_attempt pt sin n =
     bindM (cx pp_cm_id) (\<lambda>i.
     bindM (vint pt (Rdma_resolve_addr i sin 2000)) (\<lambda>r.
     if r \<noteq> 0 then retM (Some (Inl (pt_FAILURE pt)))
     else bindM (get_event pt) (\<lambda>e.
       if r_int e \<noteq> 0 then retM (Some (Inl (pt_FAILURE pt)))
       else if ev_type (r_event e) = RDMA_CM_EVENT_ADDR_ERROR
         then thenM (ack_event pt e) (retM None)
       else if ev_type (r_event e) \<noteq> RDMA_CM_EVENT_ADDR_RESOLVED
         then thenM (ack_event pt e) (retM (Some (Inl (pt_FAILURE pt))))
       else thenM (ack_event pt e) (retM (Some (Inr n))))))"

definition route_attempt :: "perftest \<Rightarrow> nat \<Rightarrow> (perf_state, (int + nat) option) cmd" where
  "route_attempt pt n =
     bindM (cx pp_cm_id) (\<lambda>i.
     bindM (vint pt (Rdma_resolve_route i 2000)) (\<lambda>r.
     if r \<noteq> 0 then retM (Some (Inl (pt_FAILURE pt)))
     else bindM (get_event pt) (\<lambda>e.
       if r_int e \<noteq> 0 then retM (Some (Inl (pt_FAILURE pt)))
       else if ev_type (r_event e) = RDMA_CM_EVENT_ROUTE_ERROR
         then thenM (ack_event pt e) (retM None)
       else if ev_type (r_event e) \<noteq> RDMA_CM_EVENT_ROUTE_RESOLVED
         then thenM (ack_event pt e) (retM (Some (Inl (pt_FAILURE pt))))
       else thenM (ack_event pt e) (retM (Some (Inr n))))))"

text \<open>Both loops count down the same \<open>num_of_retry\<close>.\<close>

definition resolve_loops :: "perftest \<Rightarrow> sockaddr_in \<Rightarrow> (perf_state, int + nat) cmd" where
  "resolve_loops pt sin =
     bindM (retry (pt_NUM_OF_RETRIES pt) (addr_attempt pt sin) (retM (Inl (pt_FAILURE pt)))) (\<lambda>x.
     case x of
       Inl v \<Rightarrow> retM (Inl v)
     | Inr n \<Rightarrow> retry n (route_attempt pt) (retM (Inl (pt_FAILURE pt))))"

text \<open>From \<open>rdma_connect\<close> to the end.  \<open>!ctx->ah\<close> tests the array, not the handle just stored.\<close>

definition client_finish :: "perftest \<Rightarrow> rdma_conn_param \<Rightarrow> (perf_state, int) cmd" where
  "client_finish pt cp =
     bindM (cx pp_cm_id) (\<lambda>i.
     bindM (vint pt (Rdma_connect i cp)) (\<lambda>r.
     if r \<noteq> 0 then retM (pt_FAILURE pt)
     else bindM (get_event pt) (\<lambda>e.
       if r_int e \<noteq> 0 then retM (pt_FAILURE pt)
       else if ev_type (r_event e) \<noteq> RDMA_CM_EVENT_ESTABLISHED
         then thenM (ack_event pt e) (retM (pt_FAILURE pt))
       else bindM (up pf_connection_type) (\<lambda>ct.
         if ct = UD then
           thenM (set_up (\<lambda>u. u\<lparr>pf_rem_ud_qpn := ev_qp_num (r_event e),
             pf_rem_ud_qkey := ev_qkey (r_event e)\<rparr>))
           (bindM (cx pp_pd) (\<lambda>pd.
            bindM (call_ptr (pt_env pt) (Ibv_create_ah pd (ev_ah_attr (r_event e)))) (\<lambda>a.
            bindM (cx pp_ah) (\<lambda>ah.
            bindM (arr_set ah 0 a) (\<lambda>ah'.
            thenM (set_cx (\<lambda>c. c\<lparr>pp_ah := ah'\<rparr>))
            (if ah' = Null_arr then retM (pt_FAILURE pt)
             else thenM (ack_event pt e) (retM (pt_SUCCESS pt))))))))
         else thenM (ack_event pt e) (retM (pt_SUCCESS pt))))))"

text \<open>From the resolved route to the connection.\<close>

definition client_setup :: "perftest \<Rightarrow> (perf_state, int) cmd" where
  "client_setup pt =
     thenM (take_verbs pt)
     (bindM (up pf_work_rdma_cm) (\<lambda>temp.
      thenM (set_up (\<lambda>u. u\<lparr>pf_work_rdma_cm := pt_ON pt\<rparr>))
      (bindM (helper pt Ctx_init) (\<lambda>x.
       if x \<noteq> 0 then retM (pt_FAILURE pt)
       else thenM (set_up (\<lambda>u. u\<lparr>pf_work_rdma_cm := temp\<rparr>))
         (bindM (up perf_conn_param) (\<lambda>cp.
          bindM (up pf_work_rdma_cm) (\<lambda>w.
          if w = pt_OFF pt then
            bindM (helper pt Post_one_recv_wqe) (\<lambda>x.
              if x \<noteq> 0 then retM 1 else client_finish pt cp)
          else client_finish pt cp)))))))"

definition rdma_client_connect :: "perftest \<Rightarrow> (perf_state, int) cmd" where
  "rdma_client_connect pt =
     bindM (up (\<lambda>u. u)) (\<lambda>u.
     bindM (ext (pt_env pt) (Check_add_port (pf_port u) (pf_servername u) (tcp_hints False))) (\<lambda>res.
     if r_int res \<noteq> 0 then retM (pt_FAILURE pt)
     else if sin_family (r_sock res) \<noteq> PF_INET then retM (pt_FAILURE pt)
     else bindM (resolve_loops pt (with_port (r_sock res) (pf_port u))) (\<lambda>x.
       case x of Inl v \<Rightarrow> retM v | Inr _ \<Rightarrow> client_setup pt)))"

section \<open>The server\<close>

text \<open>The tests that surround \<open>post_recv_to_get_ah\<close> and \<open>create_ah_from_wc_recv\<close>.\<close>

definition needs_ah :: "perftest_parameters \<Rightarrow> bool" where
  "needs_ah u \<longleftrightarrow> pf_tst u = LAT \<or> (pf_tst u = BW \<and> pf_duplex u \<noteq> 0)"

definition server_receive :: "perftest \<Rightarrow> (perf_state, int) cmd" where
  "server_receive pt = bindM (up (\<lambda>u. u)) (\<lambda>u.
     if pf_work_rdma_cm u = pt_OFF pt then helper pt Post_one_recv_wqe
     else if pf_connection_type u = UD \<and> needs_ah u then helper pt Post_recv_to_get_ah
     else retM 0)"

definition server_address :: "perftest \<Rightarrow> (perf_state, int) cmd" where
  "server_address pt = bindM (up (\<lambda>u. u)) (\<lambda>u.
     if pf_work_rdma_cm u \<noteq> 0 \<and> pf_connection_type u = UD \<and> needs_ah u
     then helper pt Create_ah_from_wc_recv else retM 0)"

text \<open>From the event to \<open>rdma_accept\<close> and what follows it: \<open>Some v\<close> for \<open>return v\<close>.\<close>

definition server_accept :: "perftest \<Rightarrow> rdma_conn_param \<Rightarrow> (perf_state, int option) cmd" where
  "server_accept pt cp =
     bindM (server_receive pt) (\<lambda>x.
     if x \<noteq> 0 then retM (Some 1)
     else bindM (cx pp_cm_id) (\<lambda>i.
       bindM (vint pt (Rdma_accept i cp)) (\<lambda>a.
       if a \<noteq> 0 then retM (Some 1)
       else bindM (server_address pt) (\<lambda>x.
         if x \<noteq> 0 then retM (Some 1) else retM None))))"

definition server_setup :: "perftest \<Rightarrow> resp \<Rightarrow> (perf_state, int option) cmd" where
  "server_setup pt e =
     thenM (set_cx (\<lambda>c. c\<lparr>pp_cm_id := ev_id (r_event e)\<rparr>))
     (thenM (take_verbs pt)
     (bindM (up pf_work_rdma_cm) (\<lambda>w.
      thenM (whenM (w = pt_ON pt) (bindM (helper pt Alloc_ctx) (\<lambda>_. retM ())))
      (bindM (up pf_work_rdma_cm) (\<lambda>temp.
       thenM (set_up (\<lambda>u. u\<lparr>pf_work_rdma_cm := pt_ON pt\<rparr>))
       (bindM (helper pt Ctx_init) (\<lambda>x.
        if x \<noteq> 0 then retM (Some (pt_FAILURE pt))
        else bindM (up (\<lambda>u. u)) (\<lambda>u.
          bindM (if pf_connection_type u = UD then qp_number pt else retM 0) (\<lambda>qpn.
          thenM (set_up (\<lambda>u. u\<lparr>pf_work_rdma_cm := temp\<rparr>))
          (server_accept pt ((perf_conn_param u)\<lparr>cp_qp_num := qpn\<rparr>)))))))))))"

text \<open>The end of a server that accepted.\<close>

definition server_done :: "perftest \<Rightarrow> resp \<Rightarrow> (perf_state, int) cmd" where
  "server_done pt e =
     thenM (ack_event pt e)
     (bindM (cx pp_cm_id_control) (\<lambda>ic.
      thenM (call_void (pt_env pt) (Vc (Rdma_destroy_id ic)))
      (thenM (call_void (pt_env pt) (Vc Freeaddrinfo))
      (retM 0))))"

definition rdma_server_connect :: "perftest \<Rightarrow> (perf_state, int) cmd" where
  "rdma_server_connect pt =
     bindM (up (\<lambda>u. u)) (\<lambda>u.
     bindM (ext (pt_env pt) (Check_add_port (pf_port u) (pf_servername u) (tcp_hints True))) (\<lambda>res.
     if r_int res \<noteq> 0 then retM (pt_FAILURE pt)
     else if sin_family (r_sock res) \<noteq> PF_INET then retM (pt_FAILURE pt)
     else bindM (cx pp_cm_id_control) (\<lambda>ic.
       bindM (vint pt (Rdma_bind_addr ic (with_port (r_sock res) (pf_port u)))) (\<lambda>b.
       if b \<noteq> 0 then retM 1
       else bindM (vint pt (Rdma_listen ic 0)) (\<lambda>l.
         if l \<noteq> 0 then retM 1
         else bindM (get_event pt) (\<lambda>e.
           if r_int e \<noteq> 0 then retM 1
           else if ev_type (r_event e) \<noteq> RDMA_CM_EVENT_CONNECT_REQUEST then retM 1
           else bindM (server_setup pt e) (\<lambda>j.
             case j of Some v \<Rightarrow> retM v | None \<Rightarrow> server_done pt e)))))))"

section \<open>The other operations\<close>

definition establish_connection :: "perftest \<Rightarrow> (perf_state, int) cmd" where
  "establish_connection pt =
     bindM (up pf_machine) (\<lambda>m.
     if m = CLIENT
     then bindM (rdma_client_connect pt) (\<lambda>x. if x \<noteq> 0 then retM 1 else retM 0)
     else bindM (rdma_server_connect pt) (\<lambda>x. if x \<noteq> 0 then retM 1 else retM 0))"

text \<open>\<open>sizeof "done"\<close> counts the terminating zero: 5.\<close>

definition ctx_close_connection :: "perftest \<Rightarrow> (perf_state, int) cmd" where
  "ctx_close_connection pt =
     bindM (helper pt Ctx_hand_shake) (\<lambda>x.
     if x \<noteq> 0 then retM 1
     else bindM (up (\<lambda>u. u)) (\<lambda>u.
       if pf_use_rdma_cm u = 0 \<and> pf_work_rdma_cm u = 0 then
         bindM (call_int (pt_env pt) (Write_done (pf_sockfd u))) (\<lambda>w.
         if w \<noteq> 5 then retM (- 1)
         else thenM (call_void (pt_env pt) (Close_fd (pf_sockfd u))) (retM 0))
       else retM 0))"

definition reconnect_attempt :: "perftest \<Rightarrow> nat \<Rightarrow> (perf_state, int option) cmd" where
  "reconnect_attempt pt n =
     bindM (helper pt Create_rdma_resources) (\<lambda>x.
     if x \<noteq> 0 then retM (Some (pt_FAILURE pt))
     else bindM (rdma_client_connect pt) (\<lambda>c.
       if c = pt_SUCCESS pt then retM (Some (pt_SUCCESS pt))
       else bindM (helper pt Destroy_rdma_resources) (\<lambda>d.
         if d \<noteq> 0 then retM (Some (pt_FAILURE pt))
         else thenM (call_void (pt_env pt) (Usleep 100000)) (retM None))))"

definition retry_rdma_connect :: "perftest \<Rightarrow> (perf_state, int) cmd" where
  "retry_rdma_connect pt = retry 10 (reconnect_attempt pt) (retM (pt_FAILURE pt))"

end
