(* ===== verification/Perftest_Returns.thy ===== *)
theory Perftest_Returns
  imports Perftest_Connection
begin

text \<open>
  Proof rules for the accessors and helper calls of \<open>Perftest_Connection\<close>, and how the functions of
  \<open>src/src/Connection.cc\<close> end: they return, or fault over a null \<open>ctx->cm_id\<close> or, for a datagram
  connection, over an array \<open>ctx->ah\<close> or \<open>ctx->qp\<close> without a usable first entry.
\<close>

section \<open>Rules for the accessors\<close>

lemma wp_perf [simp]:
  "wp (cx f) P s = P (Ret (f (ctx s))) s"
  "wp (up g) R s = R (Ret (g (user_param s))) s"
  "wp (set_cx h) Q s = Q (Ret ()) (s\<lparr>ctx := h (ctx s)\<rparr>)"
  "wp (set_up k) Q s = Q (Ret ()) (s\<lparr>user_param := k (user_param s)\<rparr>)"
  by (simp_all add: cx_def up_def set_cx_def set_up_def)

lemma wp_helper:
  "(\<And>r x y. pt_hook pt c r (ctx s, user_param s) = (x, y) \<Longrightarrow>
     Q (Ret (r_int r)) (s\<lparr>calls := calls s @ [(c, r)], ctx := x, user_param := y\<rparr>)) \<Longrightarrow>
   wp (helper pt c) Q s"
  unfolding helper_def by (auto simp: wp_simps Let_def split: prod.split intro!: wp_calls)

lemma wp_vint: "(\<And>r. Q (Ret (r_int r)) (s\<lparr>calls := calls s @ [(Vc c, r)]\<rparr>)) \<Longrightarrow> wp (vint pt c) Q s"
  unfolding vint_def by (rule wp_call_int)

lemma wp_get_event:
  "(\<And>r. Q (Ret r) (s\<lparr>calls := calls s @ [(Vc (Rdma_get_cm_event (pp_cm_channel (ctx s))), r)]\<rparr>)) \<Longrightarrow>
   wp (get_event pt) Q s"
  unfolding get_event_def by (auto simp: wp_simps intro: wp_calls)

lemma wp_ack_event:
  "(\<And>r. Q (Ret ()) (s\<lparr>calls := calls s @ [(Vc (Rdma_ack_cm_event (ev_addr (r_event e))), r)]\<rparr>)) \<Longrightarrow>
   wp (ack_event pt e) Q s"
  unfolding ack_event_def by (rule wp_call_void)

lemma wp_take_verbs:
  "(\<And>r. Q (Ret ()) (s\<lparr>calls := calls s @ [(Read_verbs (pp_cm_id (ctx s)), r)],
      ctx := (ctx s)\<lparr>pp_context := r_ptr r\<rparr>\<rparr>)) \<Longrightarrow>
   Q (Stop (Faulted Null_Deref)) s \<Longrightarrow> wp (take_verbs pt) Q s"
  unfolding take_verbs_def by (auto simp: wp_simps intro!: wp_calls)

lemma wp_qp_number:
  "(\<And>q r. Q (Ret (word_of_int (r_out r))) (s\<lparr>calls := calls s @ [(Read_qp_num q, r)]\<rparr>)) \<Longrightarrow>
   (\<And>f. Q (Stop (Faulted f)) s) \<Longrightarrow> wp (qp_number pt) Q s"
  unfolding qp_number_def
  by (cases "pp_qp (ctx s)" rule: first_qp.cases) (auto simp: wp_simps intro!: wp_calls)

lemmas perf_rules = wp_calls wp_helper wp_vint wp_get_event wp_ack_event wp_take_verbs wp_qp_number

lemma emits_perf [emits_intros]:
  "emits A (cx f)" "emits A (up g)" "emits A (set_cx h)" "emits A (set_up k)"
  by (simp_all add: cx_def up_def set_cx_def set_up_def emits_get emits_modify)

lemma emits_helper [emits_intros]: "c \<in> A \<Longrightarrow> emits A (helper pt c)"
  unfolding helper_def by (intro emits_intros) (simp_all add: Let_def split: prod.split)

lemma emits_vint [emits_intros]: "Vc c \<in> A \<Longrightarrow> emits A (vint pt c)"
  unfolding vint_def by (rule emits_call_int)

lemma emits_retry [emits_intros]:
  "(\<And>k. emits A (att k)) \<Longrightarrow> emits A ex \<Longrightarrow> emits A (retry n att ex)"
  by (induction n) (auto intro!: emits_intros)

text \<open>Reading the number of the first queue pair.\<close>

lemma emits_first_qp [emits_intros]: "emits A (first_qp a)"
  by (cases a rule: first_qp.cases) (simp_all add: emits_ret emits_stop)

lemma emits_qp_number [emits_intros]: "(\<And>q. Read_qp_num q \<in> A) \<Longrightarrow> emits A (qp_number pt)"
  unfolding qp_number_def by (intro emits_intros)

section \<open>How the functions end\<close>

text \<open>An array whose first entry cannot be accessed, with the fault that trying it is.\<close>

fun no_first :: "parr \<Rightarrow> fault \<Rightarrow> bool" where
  "no_first Null_arr f = (f = Null_Deref)"
| "no_first (Arr b []) f = (f = Out_Of_Bounds)"
| "no_first (Arr b (x # xs)) f = False"

text \<open>What a client and a server can trip over in the context: a null identifier; for a datagram
  connection, no room for the address handle, or no first queue pair.\<close>

definition client_stuck :: "pingpong_context \<Rightarrow> perftest_parameters \<Rightarrow> fault \<Rightarrow> bool" where
  "client_stuck c u f \<longleftrightarrow> pp_cm_id c = NULL \<and> f = Null_Deref \<or>
     pf_connection_type u = UD \<and> no_first (pp_ah c) f"

definition server_stuck :: "pingpong_context \<Rightarrow> perftest_parameters \<Rightarrow> fault \<Rightarrow> bool" where
  "server_stuck c u f \<longleftrightarrow> pp_cm_id c = NULL \<and> f = Null_Deref \<or>
     pf_connection_type u = UD \<and> (no_first (pp_qp c) f \<or>
       f = Null_Deref \<and> (\<exists>b qs. pp_qp c = Arr b (NULL # qs)))"

text \<open>\<open>ends_in S m\<close>: from any state, whatever the answers, \<open>m\<close> returns or faults over a context and
  parameters that \<open>S\<close> blames for the fault.\<close>

definition ends :: "(pingpong_context \<Rightarrow> perftest_parameters \<Rightarrow> fault \<Rightarrow> bool) \<Rightarrow> 'a outcome
    \<Rightarrow> perf_state \<Rightarrow> bool" where
  "ends S r t \<longleftrightarrow> (\<exists>x. r = Ret x) \<or> (\<exists>f. r = Stop (Faulted f) \<and> S (ctx t) (user_param t) f)"

definition ends_in :: "(pingpong_context \<Rightarrow> perftest_parameters \<Rightarrow> fault \<Rightarrow> bool)
    \<Rightarrow> (perf_state, 'a) cmd \<Rightarrow> bool" where
  "ends_in S m \<longleftrightarrow> (\<forall>s. wp m (ends S) s)"

named_theorems ends_intros \<open>closure of ends_in under the command formers\<close>

lemma ends_ret [simp]: "ends S (Ret x) t"
  by (simp add: ends_def)

lemma ends_stop [simp]:
  "ends S (Stop e) t \<longleftrightarrow> (\<exists>f. e = Faulted f \<and> S (ctx t) (user_param t) f)"
  by (simp add: ends_def)

lemma ends_inD: "ends_in S m \<Longrightarrow> wp m (ends S) s"
  by (simp add: ends_in_def)

lemma ends_bind [ends_intros]: "ends_in S m \<Longrightarrow> (\<And>x. ends_in S (f x)) \<Longrightarrow> ends_in S (bindM m f)"
  unfolding ends_in_def wp_bind
  by (intro allI, drule spec, erule wp_mono) (auto simp: after_def split: outcome.split)

lemma ends_then [ends_intros]: "ends_in S m \<Longrightarrow> ends_in S n \<Longrightarrow> ends_in S (thenM m n)"
  by (simp add: thenM_def ends_bind)

lemma ends_when [ends_intros]: "ends_in S m \<Longrightarrow> ends_in S (whenM b m)"
  by (simp add: whenM_def ends_in_def)

lemma ends_if [ends_intros]: "ends_in S m \<Longrightarrow> ends_in S n \<Longrightarrow> ends_in S (if b then m else n)"
  by simp

lemma ends_case_sum [ends_intros]:
  "(\<And>x. ends_in S (f x)) \<Longrightarrow> (\<And>y. ends_in S (g y)) \<Longrightarrow> ends_in S (case r of Inl x \<Rightarrow> f x | Inr y \<Rightarrow> g y)"
  by (cases r) simp_all

lemma ends_case_option [ends_intros]:
  "ends_in S m \<Longrightarrow> (\<And>x. ends_in S (f x)) \<Longrightarrow> ends_in S (case r of None \<Rightarrow> m | Some x \<Rightarrow> f x)"
  by (cases r) simp_all

lemma ends_basic [ends_intros]:
  "ends_in S (retM x)" "ends_in S (cx f)" "ends_in S (up g)" "ends_in S (set_cx h)" "ends_in S (set_up k)"
  "ends_in S (ext env c)" "ends_in S (call_int env c)" "ends_in S (call_ptr env c)"
  "ends_in S (call_void env c)" "ends_in S (vint pt v)" "ends_in S (get_event pt)"
  "ends_in S (ack_event pt e)" "ends_in S (helper pt c)"
  by (auto simp: ends_in_def intro!: perf_rules)

lemma ends_retry [ends_intros]:
  "(\<And>k. ends_in S (att k)) \<Longrightarrow> ends_in S ex \<Longrightarrow> ends_in S (retry n att ex)"
  by (induction n) (auto intro!: ends_intros)

text \<open>The three places that can fault.\<close>

lemma ends_take_verbs [ends_intros]:
  "ends_in client_stuck (take_verbs pt)" "ends_in server_stuck (take_verbs pt)"
  unfolding ends_in_def take_verbs_def
  by (auto simp: wp_simps client_stuck_def server_stuck_def intro!: wp_calls)

lemma ends_client_finish [ends_intros]: "ends_in client_stuck (client_finish pt cp)"
proof -
  have none: "no_first (Arr b xs) Out_Of_Bounds" if "xs = []" for b xs
    using that by simp
  show ?thesis
    unfolding ends_in_def client_finish_def
    by (auto simp: wp_simps wp_arr_set client_stuck_def none intro!: perf_rules split: parr.split)
qed

lemma ends_qp_number:
  "pf_connection_type (user_param s) = UD \<Longrightarrow> wp (qp_number pt) (ends server_stuck) s"
  unfolding qp_number_def
  by (cases "pp_qp (ctx s)" rule: first_qp.cases)
    (auto simp: wp_simps server_stuck_def intro!: wp_calls)

lemma ends_datagram_number [ends_intros]:
  "(\<And>u q. ends_in server_stuck (f u q)) \<Longrightarrow>
   ends_in server_stuck (bindM (up (\<lambda>u. u)) (\<lambda>u. bindM (if pf_connection_type u = UD then qp_number pt else retM 0) (f u)))"
  unfolding ends_in_def
  by (auto simp: wp_simps after_def intro!: wp_mono [OF ends_qp_number] split: outcome.split)

text \<open>The functions.\<close>

lemma ends_client [ends_intros]: "ends_in client_stuck (rdma_client_connect pt)"
  unfolding rdma_client_connect_def resolve_loops_def addr_attempt_def route_attempt_def client_setup_def
  by (intro ends_intros)

lemma ends_server: "ends_in server_stuck (rdma_server_connect pt)"
  unfolding rdma_server_connect_def server_setup_def server_accept_def server_receive_def
    server_address_def server_done_def
  by (intro ends_intros)

lemma ends_reconnect: "ends_in client_stuck (retry_rdma_connect pt)"
  unfolding retry_rdma_connect_def reconnect_attempt_def by (intro ends_intros)

end
