(* ===== verification/Perftest_Properties.thy ===== *)
theory Perftest_Properties
  imports Perftest_Returns
begin

text \<open>
  What the connection setup of \<open>src/src/Connection.cc\<close> guarantees whatever the libraries and the
  perftest helpers answer: bounds on the retries, the accounts of events and of the resolved
  address list, the parameters it changes on the way, and what success means.
\<close>

section \<open>Accounts\<close>

fun delivers :: "pcall \<times> resp \<Rightarrow> bool" where
  "delivers (Vc (Rdma_get_cm_event _), r) = (r_int r = 0)"
| "delivers _ = False"

fun is_perf_get :: "pcall \<Rightarrow> bool" where
  "is_perf_get (Vc (Rdma_get_cm_event _)) = True"
| "is_perf_get _ = False"

fun is_perf_ack :: "pcall \<Rightarrow> bool" where
  "is_perf_ack (Vc (Rdma_ack_cm_event _)) = True"
| "is_perf_ack _ = False"

fun is_resolve_addr :: "pcall \<Rightarrow> bool" where
  "is_resolve_addr (Vc (Rdma_resolve_addr _ _ _)) = True"
| "is_resolve_addr _ = False"

fun is_resolve_route :: "pcall \<Rightarrow> bool" where
  "is_resolve_route (Vc (Rdma_resolve_route _ _)) = True"
| "is_resolve_route _ = False"

definition delivered :: "perf_state \<Rightarrow> nat" where
  "delivered s = length (filter delivers (calls s))"

definition perf_acks :: "perf_state \<Rightarrow> nat" where
  "perf_acks s = count_calls is_perf_ack (calls s)"

definition addr_tries :: "perf_state \<Rightarrow> nat" where
  "addr_tries s = count_calls is_resolve_addr (calls s)"

definition route_tries :: "perf_state \<Rightarrow> nat" where
  "route_tries s = count_calls is_resolve_route (calls s)"

definition frees_list :: "perf_state \<Rightarrow> nat" where
  "frees_list s = count_calls (\<lambda>c. c = Vc Freeaddrinfo) (calls s)"

definition creates :: "perf_state \<Rightarrow> nat" where
  "creates s = count_calls (\<lambda>c. c = Create_rdma_resources) (calls s)"

definition destroyed :: "perf_state \<Rightarrow> nat" where
  "destroyed s = count_calls (\<lambda>c. c = Destroy_rdma_resources) (calls s)"

lemmas perf_counts = delivered_def perf_acks_def addr_tries_def route_tries_def frees_list_def
  creates_def destroyed_def

section \<open>The client's loops\<close>

lemma wp_addr_attempt:
  "wp (addr_attempt pt sin n) (\<lambda>r t. addr_tries t = Suc (addr_tries s) \<and> route_tries t = route_tries s \<and>
     delivered t + perf_acks s = delivered s + perf_acks t \<and> frees_list t = frees_list s \<and>
     user_param t = user_param s \<and>
     (r = Ret None \<or> r = Ret (Some (Inl (pt_FAILURE pt))) \<or> r = Ret (Some (Inr n)))) s"
  unfolding addr_attempt_def by (auto simp: wp_simps perf_counts intro!: perf_rules)

lemma wp_route_attempt:
  "wp (route_attempt pt n) (\<lambda>r t. route_tries t = Suc (route_tries s) \<and> addr_tries t = addr_tries s \<and>
     delivered t + perf_acks s = delivered s + perf_acks t \<and> frees_list t = frees_list s \<and>
     user_param t = user_param s \<and>
     (r = Ret None \<or> r = Ret (Some (Inl (pt_FAILURE pt))) \<or> r = Ret (Some (Inr n)))) s"
  unfolding route_attempt_def by (auto simp: wp_simps perf_counts intro!: perf_rules)

interpretation addr: retrying "addr_attempt pt sin" "retM (Inl (pt_FAILURE pt))" addr_tries for pt sin
  by unfold_locales (auto dest: wpD [OF wp_addr_attempt] simp: retM_def)

interpretation route: retrying "route_attempt pt" "retM (Inl (pt_FAILURE pt))" route_tries for pt
  by unfold_locales (auto dest: wpD [OF wp_route_attempt] simp: retM_def)

text \<open>What the two loops leave alone.\<close>

definition loops_keep :: "perf_state \<Rightarrow> perf_state \<Rightarrow> bool" where
  "loops_keep s t \<longleftrightarrow> delivered t + perf_acks s = delivered s + perf_acks t \<and>
     frees_list t = frees_list s \<and> user_param t = user_param s"

lemma wp_addr_loop:
  "wp (retry n (addr_attempt pt sin) (retM (Inl (pt_FAILURE pt)))) (\<lambda>r t. loops_keep s t \<and>
     route_tries t = route_tries s \<and>
     (\<exists>m. r = Ret (Inl (pt_FAILURE pt)) \<and> addr_tries t \<le> addr_tries s + n \<or>
          r = Ret (Inr m) \<and> addr_tries t + m \<le> addr_tries s + n + 1)) s"
proof -
  let ?m = "retry n (addr_attempt pt sin) (retM (Inl (pt_FAILURE pt)))"
  have keep: "wp ?m (\<lambda>r t. loops_keep s t \<and> route_tries t = route_tries s) s"
    by (rule wp_retry [where I = "\<lambda>_ t. loops_keep s t \<and> route_tries t = route_tries s"])
      (auto simp: loops_keep_def intro!: wp_mono [OF wp_addr_attempt])
  show ?thesis
  proof (rule wpI)
    fix r t
    assume run: "?m s = (r, t)"
    have "\<exists>m. r = Ret (Inl (pt_FAILURE pt)) \<and> addr_tries t \<le> addr_tries s + n \<or>
        r = Ret (Inr m) \<and> addr_tries t + m \<le> addr_tries s + n + 1"
      using addr.retry_ends [OF run] addr.retry_bound [OF run]
      by (auto dest!: wpD [OF wp_addr_attempt] simp: retM_def)
    with wpD [OF keep run] show "loops_keep s t \<and> route_tries t = route_tries s \<and>
        (\<exists>m. r = Ret (Inl (pt_FAILURE pt)) \<and> addr_tries t \<le> addr_tries s + n \<or>
          r = Ret (Inr m) \<and> addr_tries t + m \<le> addr_tries s + n + 1)"
      by simp
  qed
qed

lemma wp_route_loop:
  "wp (retry n (route_attempt pt) (retM (Inl (pt_FAILURE pt)))) (\<lambda>r t. loops_keep s t \<and>
     addr_tries t = addr_tries s \<and> route_tries t \<le> route_tries s + n \<and>
     (\<exists>m. r = Ret (Inl (pt_FAILURE pt)) \<or> r = Ret (Inr m))) s"
proof -
  let ?m = "retry n (route_attempt pt) (retM (Inl (pt_FAILURE pt)))"
  have keep: "wp ?m (\<lambda>r t. loops_keep s t \<and> addr_tries t = addr_tries s \<and>
      (\<exists>m. r = Ret (Inl (pt_FAILURE pt)) \<or> r = Ret (Inr m))) s"
    by (rule wp_retry [where I = "\<lambda>_ t. loops_keep s t \<and> addr_tries t = addr_tries s"])
      (auto simp: loops_keep_def intro!: wp_mono [OF wp_route_attempt])
  show ?thesis
    by (rule wpI) (use wpD [OF keep] route.retry_bound in auto)
qed

definition loops_end :: "perftest \<Rightarrow> perf_state \<Rightarrow> (int + nat) outcome \<Rightarrow> perf_state \<Rightarrow> bool" where
  "loops_end pt s r t \<longleftrightarrow> loops_keep s t \<and>
     addr_tries t + route_tries t \<le> addr_tries s + route_tries s + pt_NUM_OF_RETRIES pt + 1 \<and>
     (\<exists>m. r = Ret (Inl (pt_FAILURE pt)) \<or> r = Ret (Inr m))"

lemma wp_resolve_loops: "wp (resolve_loops pt sin) (loops_end pt s) s"
proof -
  have second: "wp (retry m (route_attempt pt) (retM (Inl (pt_FAILURE pt)))) (loops_end pt s) u"
    if "loops_keep s u" "route_tries u = route_tries s"
      "addr_tries u + m \<le> Suc (addr_tries s + pt_NUM_OF_RETRIES pt)" for m u
    by (rule wp_mono [OF wp_route_loop]) (use that in \<open>auto simp: loops_keep_def loops_end_def\<close>)
  show ?thesis
    unfolding resolve_loops_def wp_bind
    by (rule wp_mono [OF wp_addr_loop]) (auto simp: loops_end_def intro: second)
qed

section \<open>The whole client\<close>

text \<open>\<open>client_post s r t\<close>: from \<open>s\<close> on every event delivered by a returning call was acknowledged,
  the address list was not freed, and no resolving was started.\<close>

definition client_post :: "perf_state \<Rightarrow> int outcome \<Rightarrow> perf_state \<Rightarrow> bool" where
  "client_post s r t \<longleftrightarrow> frees_list t = frees_list s \<and> addr_tries t = addr_tries s \<and>
     route_tries t = route_tries s \<and>
     (\<forall>x. r = Ret x \<longrightarrow> delivered t + perf_acks s = delivered s + perf_acks t)"

lemma wp_client_finish: "wp (client_finish pt cp) (client_post s) s"
  unfolding client_finish_def client_post_def
  by (auto simp: wp_simps wp_arr_set perf_counts intro!: perf_rules split: parr.split)

lemma wp_client_setup: "wp (client_setup pt) (client_post s) s"
proof -
  have finish: "wp (client_finish pt cp) (client_post s) u"
    if "frees_list u = frees_list s" "addr_tries u = addr_tries s" "route_tries u = route_tries s"
      "delivered u + perf_acks s = delivered s + perf_acks u" for u cp
    by (rule wp_mono [OF wp_client_finish]) (use that in \<open>auto simp: client_post_def\<close>)
  show ?thesis
    unfolding client_setup_def
    by (auto simp: wp_simps intro!: perf_rules finish)
      (auto simp: client_post_def perf_counts)
qed

definition client_end :: "perftest \<Rightarrow> perf_state \<Rightarrow> int outcome \<Rightarrow> perf_state \<Rightarrow> bool" where
  "client_end pt s r t \<longleftrightarrow> frees_list t = frees_list s \<and>
     addr_tries t + route_tries t \<le> addr_tries s + route_tries s + pt_NUM_OF_RETRIES pt + 1 \<and>
     (\<forall>x. r = Ret x \<longrightarrow> delivered t + perf_acks s = delivered s + perf_acks t)"

lemma wp_client_connect: "wp (rdma_client_connect pt) (client_end pt s) s"
proof -
  have loops: "wp (resolve_loops pt sin) (after (\<lambda>x. case x of Inl v \<Rightarrow> retM v | Inr _ \<Rightarrow> client_setup pt)
      (client_end pt s)) (s\<lparr>calls := calls s @ [(Check_add_port a b c, res)]\<rparr>)" for sin a b c res
  proof (rule wp_mono [OF wp_resolve_loops])
    fix r t
    assume e: "loops_end pt (s\<lparr>calls := calls s @ [(Check_add_port a b c, res)]\<rparr>) r t"
    then have t: "delivered t + perf_acks s = delivered s + perf_acks t" "frees_list t = frees_list s"
      "addr_tries t + route_tries t \<le> addr_tries s + route_tries s + pt_NUM_OF_RETRIES pt + 1"
      by (simp_all add: loops_end_def loops_keep_def perf_counts)
    have more: "wp (client_setup pt) (client_end pt s) t"
      by (rule wp_mono [OF wp_client_setup]) (use t in \<open>auto simp: client_post_def client_end_def\<close>)
    have "client_end pt s (Ret v) t" for v using t by (simp add: client_end_def)
    then show "after (\<lambda>x. case x of Inl v \<Rightarrow> retM v | Inr _ \<Rightarrow> client_setup pt) (client_end pt s) r t"
      using e more by (auto simp: loops_end_def)
  qed
  have early: "client_end pt s (Ret v) (s\<lparr>calls := calls s @ [(Check_add_port a b c, res)]\<rparr>)" for v a b c res
    by (simp add: client_end_def perf_counts)
  show ?thesis
    unfolding rdma_client_connect_def by (auto simp: wp_simps loops early intro!: wp_calls)
qed

text \<open>The perftest helpers leave the mode switch alone.\<close>

definition mode_kept :: "perftest \<Rightarrow> bool" where
  "mode_kept pt \<longleftrightarrow> (\<forall>c r x y. pf_work_rdma_cm (snd (pt_hook pt c r (x, y))) = pf_work_rdma_cm y)"

lemma mode_keptD: "mode_kept pt \<Longrightarrow> pt_hook pt c r (x, y) = (x', y') \<Longrightarrow>
    pf_work_rdma_cm y' = pf_work_rdma_cm y"
  unfolding mode_kept_def by (metis snd_conv)

definition mode_post :: "perftest \<Rightarrow> int \<Rightarrow> int outcome \<Rightarrow> perf_state \<Rightarrow> bool" where
  "mode_post pt m r t \<longleftrightarrow> pf_work_rdma_cm (user_param t) = m \<or>
     pf_work_rdma_cm (user_param t) = pt_ON pt \<and> r = Ret (pt_FAILURE pt) \<and> fst (last (calls t)) = Ctx_init"

lemma wp_finish_mode:
  "pf_work_rdma_cm (user_param s) = m \<Longrightarrow> wp (client_finish pt cp) (mode_post pt m) s"
  unfolding client_finish_def mode_post_def
  by (auto simp: wp_simps wp_arr_set intro!: perf_rules split: parr.split)

lemma wp_setup_mode:
  assumes "mode_kept pt" and "pf_work_rdma_cm (user_param s) = m"
  shows "wp (client_setup pt) (mode_post pt m) s"
  unfolding client_setup_def
  using assms(2) by (auto simp: wp_simps dest!: mode_keptD [OF assms(1)] intro!: perf_rules wp_finish_mode)
    (auto simp: mode_post_def)

text \<open>The answer to the last request for an event, and what a successful finish saw there.\<close>

definition last_event :: "perf_state \<Rightarrow> resp" where
  "last_event t = snd (last (filter (\<lambda>x. is_perf_get (fst x)) (calls t)))"

definition established :: "perf_state \<Rightarrow> bool" where
  "established t \<longleftrightarrow> r_int (last_event t) = 0 \<and>
     ev_type (r_event (last_event t)) = RDMA_CM_EVENT_ESTABLISHED \<and>
     fst (last (calls t)) = Vc (Rdma_ack_cm_event (ev_addr (r_event (last_event t)))) \<and>
     (pf_connection_type (user_param t) = UD \<longrightarrow>
        pf_rem_ud_qpn (user_param t) = ev_qp_num (r_event (last_event t)) \<and>
        pf_rem_ud_qkey (user_param t) = ev_qkey (r_event (last_event t)))"

lemma wp_finish_established:
  assumes "pt_SUCCESS pt \<noteq> pt_FAILURE pt"
  shows "wp (client_finish pt cp) (\<lambda>r t. r = Ret (pt_SUCCESS pt) \<longrightarrow> established t) s"
  unfolding client_finish_def
  using assms by (auto simp: wp_simps wp_arr_set established_def last_event_def intro!: perf_rules split: parr.split)

lemma wp_setup_established:
  assumes "pt_SUCCESS pt \<noteq> pt_FAILURE pt" and "pt_SUCCESS pt \<noteq> 1"
  shows "wp (client_setup pt) (\<lambda>r t. r = Ret (pt_SUCCESS pt) \<longrightarrow> established t) s"
  unfolding client_setup_def
  using assms by (auto simp: wp_simps intro!: perf_rules wp_finish_established)

section \<open>The server and the reconnecting loop\<close>

text \<open>The server's path makes no acknowledgement and frees nothing before it is done.\<close>

definition no_release :: "pcall set" where
  "no_release = {c. \<not> is_perf_ack c \<and> c \<noteq> Vc Freeaddrinfo}"

lemma emits_take_verbs: "emits no_release (take_verbs pt)"
  unfolding take_verbs_def by (intro emits_intros) (simp_all add: no_release_def)

lemma emits_server_setup: "emits no_release (server_setup pt e)"
  unfolding server_setup_def server_accept_def server_receive_def server_address_def
  by (intro emits_intros emits_take_verbs) (simp_all add: no_release_def)

lemma no_release_counts:
  assumes "emits no_release m" and "m s = (r, t)"
  shows "perf_acks t = perf_acks s" and "frees_list t = frees_list s"
  unfolding perf_acks_def frees_list_def
  by (rule emits_count [OF assms(1) _ assms(2)], simp add: no_release_def)+

lemma wp_server_receive: "(\<And>x u. Q (Ret x) u) \<Longrightarrow> wp (server_receive pt) Q s"
  and wp_server_address: "(\<And>x u. Q (Ret x) u) \<Longrightarrow> wp (server_address pt) Q s"
  unfolding server_receive_def server_address_def by (auto simp: wp_simps intro!: perf_rules)

lemma wp_server_setup_result:
  assumes "pt_FAILURE pt \<noteq> 0"
  shows "wp (server_setup pt e) (\<lambda>r t. \<forall>v. r = Ret (Some v) \<longrightarrow> v \<noteq> 0) s"
  unfolding server_setup_def server_accept_def
  using assms by (auto simp: wp_simps intro!: perf_rules wp_server_receive wp_server_address)

definition server_post :: "perf_state \<Rightarrow> int outcome \<Rightarrow> perf_state \<Rightarrow> bool" where
  "server_post s r t \<longleftrightarrow> (\<forall>x. r = Ret x \<longrightarrow>
     (if x = 0 then perf_acks t = Suc (perf_acks s) \<and> frees_list t = Suc (frees_list s)
      else perf_acks t = perf_acks s \<and> frees_list t = frees_list s))"

lemma wp_server_finish:
  assumes "pt_FAILURE pt \<noteq> 0" and "perf_acks u = perf_acks s" and "frees_list u = frees_list s"
  shows "wp (server_setup pt e) (after (\<lambda>j. case j of Some v \<Rightarrow> retM v | None \<Rightarrow> server_done pt e)
    (server_post s)) u"
proof (rule wpI)
  fix r t
  assume run: "server_setup pt e u = (r, t)"
  have t: "perf_acks t = perf_acks s" "frees_list t = frees_list s"
    using no_release_counts [OF emits_server_setup run] assms(2,3) by simp_all
  have finish: "wp (server_done pt e) (server_post s) t"
    unfolding server_done_def
    using t by (auto simp: wp_simps server_post_def perf_counts intro!: perf_rules)
  show "after (\<lambda>j. case j of Some v \<Rightarrow> retM v | None \<Rightarrow> server_done pt e) (server_post s) r t"
    using wpD [OF wp_server_setup_result [OF assms(1)] run] t finish
    by (cases r) (auto simp: server_post_def after_def split: option.split)
qed

lemma wp_server_connect:
  assumes "pt_FAILURE pt \<noteq> 0"
  shows "wp (rdma_server_connect pt) (server_post s) s"
  unfolding rdma_server_connect_def
  using assms by (auto simp: wp_simps intro!: perf_rules wp_server_finish)
    (auto simp: server_post_def perf_counts)

text \<open>One turn of the reconnecting loop.\<close>

definition only_client :: "pcall set" where
  "only_client = {c. c \<noteq> Create_rdma_resources \<and> c \<noteq> Destroy_rdma_resources}"

lemma emits_client: "emits only_client (rdma_client_connect pt)"
  unfolding rdma_client_connect_def resolve_loops_def addr_attempt_def route_attempt_def
    client_setup_def client_finish_def take_verbs_def get_event_def ack_event_def
  by (intro emits_intros) (simp_all add: only_client_def)

lemma client_counts:
  assumes "rdma_client_connect pt s = (r, t)"
  shows "creates t = creates s" and "destroyed t = destroyed s"
  unfolding creates_def destroyed_def
  by (rule emits_count [OF emits_client _ assms], simp add: only_client_def)+

lemma wp_client_counts:
  "creates s = c \<Longrightarrow> destroyed s = d \<Longrightarrow>
     wp (rdma_client_connect pt) (\<lambda>_ t. creates t = c \<and> destroyed t = d) s"
  by (rule wpI) (simp add: client_counts)

definition attempt_post :: "perftest \<Rightarrow> perf_state \<Rightarrow> int option outcome \<Rightarrow> perf_state \<Rightarrow> bool" where
  "attempt_post pt s r t \<longleftrightarrow> creates t = Suc (creates s) \<and>
     (case r of Ret None \<Rightarrow> destroyed t = Suc (destroyed s)
      | Ret (Some x) \<Rightarrow> x = pt_SUCCESS pt \<and> destroyed t = destroyed s \<or>
          x = pt_FAILURE pt \<and> destroyed t \<in> {destroyed s, Suc (destroyed s)}
      | Stop e \<Rightarrow> destroyed t = destroyed s)"

lemma wp_reconnect_attempt: "wp (reconnect_attempt pt n) (attempt_post pt s) s"
proof -
  have client: "wp (rdma_client_connect pt) (after f (attempt_post pt s)) u"
    if "creates u = Suc (creates s)" "destroyed u = destroyed s"
      "\<And>x v. creates v = Suc (creates s) \<Longrightarrow> destroyed v = destroyed s \<Longrightarrow> wp (f x) (attempt_post pt s) v"
    for f u
    by (rule wp_mono [OF wp_client_counts [OF that(1,2)]])
      (auto simp: after_def attempt_post_def that(3) split: outcome.split)
  show ?thesis
    unfolding reconnect_attempt_def
    by (auto simp: wp_simps intro!: perf_rules client) (auto simp: attempt_post_def perf_counts)
qed

interpretation reconnect: retrying "reconnect_attempt pt" "retM (pt_FAILURE pt)" creates for pt
  by unfold_locales
    (auto dest!: wpD [OF wp_reconnect_attempt] simp: retM_def attempt_post_def)

section \<open>Properties\<close>

text \<open>C21: the client's retries are bounded by one shared budget.  However \<open>rdma_client_connect\<close>
  ends, address and route resolutions together are at most \<open>NUM_OF_RETRIES + 1\<close>; every event it
  was delivered has been acknowledged when it returns; and the resolved address list is never
  freed, on success or failure.\<close>

theorem client_connect_accounts:
  assumes "rdma_client_connect pt s = (r, t)"
  shows "addr_tries t + route_tries t \<le> addr_tries s + route_tries s + pt_NUM_OF_RETRIES pt + 1 \<and>
    (\<forall>x. r = Ret x \<longrightarrow> delivered t + perf_acks s = delivered s + perf_acks t) \<and>
    frees_list t = frees_list s"
  using wpD [OF wp_client_connect assms] by (simp add: client_end_def)

text \<open>C22: success means established.  When \<open>establish_connection\<close> of a client returns 0, the last
  event asked for was delivered and is \<open>RDMA_CM_EVENT_ESTABLISHED\<close>, the last call made was its
  acknowledgement, and for a datagram connection the remote queue pair number and key are those
  the event carried.\<close>

theorem establish_connection_established:
  assumes "establish_connection pt s = (Ret 0, t)" and "pf_machine (user_param s) = CLIENT"
    and "pt_SUCCESS pt = 0" and "pt_FAILURE pt \<noteq> 0"
  shows "r_int (last_event t) = 0 \<and> ev_type (r_event (last_event t)) = RDMA_CM_EVENT_ESTABLISHED \<and>
    fst (last (calls t)) = Vc (Rdma_ack_cm_event (ev_addr (r_event (last_event t)))) \<and>
    (pf_connection_type (user_param t) = UD \<longrightarrow>
       pf_rem_ud_qpn (user_param t) = ev_qp_num (r_event (last_event t)) \<and>
       pf_rem_ud_qkey (user_param t) = ev_qkey (r_event (last_event t)))"
proof -
  have setup_est: "wp (client_setup pt) (\<lambda>r t. r = Ret 0 \<longrightarrow> established t) u" for u
    using wp_setup_established [of pt u] assms(3,4) by simp
  have loops: "wp (resolve_loops pt sin) (after (\<lambda>x. case x of Inl v \<Rightarrow> retM v | Inr _ \<Rightarrow> client_setup pt)
      (\<lambda>r t. r = Ret 0 \<longrightarrow> established t)) u" for sin u
    by (rule wp_mono [OF wp_resolve_loops])
      (auto simp: loops_end_def assms(4) intro: setup_est)
  have "wp (rdma_client_connect pt) (\<lambda>r t. r = Ret 0 \<longrightarrow> established t) s"
    unfolding rdma_client_connect_def using assms(4) by (auto simp: wp_simps loops intro!: wp_calls)
  then have "wp (establish_connection pt) (\<lambda>r t. r = Ret 0 \<longrightarrow> established t) s"
    unfolding establish_connection_def using assms(2)
    by (auto simp: wp_simps after_def elim!: wp_mono split: outcome.split)
  then show ?thesis using assms(1) by (simp add: wp_def established_def)
qed

text \<open>C23: how \<open>establish_connection\<close> ends, whatever the libraries, the helpers, the network and the
  other side do: it returns 0 or 1, or it faults, and then the context it stopped with is to blame.
  A client faults over a null identifier, or over an array for the address handle that is null or
  empty, which it only touches for a datagram connection; a server over a null identifier in the
  connect request, or, for a datagram connection only, over a null or empty array of queue pairs or
  a null first one.  No other memory is accessed wrongly, no loop runs for ever and nothing ends the
  process.\<close>

theorem establish_connection_returns:
  "let (r, t) = establish_connection pt s; c = ctx t; u = user_param t in
   r = Ret 0 \<or> r = Ret 1 \<or>
   (\<exists>f. r = Stop (Faulted f) \<and>
     (pp_cm_id c = NULL \<and> f = Null_Deref \<or>
      pf_connection_type u = UD \<and>
       (if pf_machine (user_param s) = CLIENT then no_first (pp_ah c) f
        else no_first (pp_qp c) f \<or> f = Null_Deref \<and> (\<exists>b qs. pp_qp c = Arr b (NULL # qs)))))"
proof -
  let ?S = "if pf_machine (user_param s) = CLIENT then client_stuck else server_stuck"
  have "wp (establish_connection pt) (\<lambda>r t. r = Ret 0 \<or> r = Ret 1 \<or>
      (\<exists>f. r = Stop (Faulted f) \<and> ?S (ctx t) (user_param t) f)) s"
    unfolding establish_connection_def
    by (auto simp: wp_simps after_def ends_def intro!: wp_mono [OF ends_inD [OF ends_client]]
        wp_mono [OF ends_inD [OF ends_server]] split: outcome.split)
  then show ?thesis
    by (auto simp: wp_def Let_def client_stuck_def server_stuck_def split_beta split: if_splits)
qed

text \<open>The mode switch \<open>work_rdma_cm\<close>, set to \<open>ON\<close> while the resources are created, is back at its
  old value when the client returns; the one exception is a failing \<open>ctx_init\<close>, after which the
  function returns at once and leaves it at \<open>ON\<close>.\<close>

theorem client_restores_mode:
  assumes "rdma_client_connect pt s = (Ret x, t)" and "mode_kept pt"
  shows "pf_work_rdma_cm (user_param t) = pf_work_rdma_cm (user_param s) \<or>
    pf_work_rdma_cm (user_param t) = pt_ON pt \<and> x = pt_FAILURE pt \<and> fst (last (calls t)) = Ctx_init"
proof -
  let ?m = "pf_work_rdma_cm (user_param s)"
  have loops: "wp (resolve_loops pt sin) (after (\<lambda>x. case x of Inl v \<Rightarrow> retM v | Inr _ \<Rightarrow> client_setup pt)
      (mode_post pt ?m)) u" if "user_param u = user_param s" for sin u
    by (rule wp_mono [OF wp_resolve_loops])
      (use that in \<open>auto simp: loops_end_def loops_keep_def mode_post_def [of _ _ "Ret v" for v]
        intro!: wp_setup_mode [OF assms(2)]\<close>)
  have "wp (rdma_client_connect pt) (mode_post pt ?m) s"
    unfolding rdma_client_connect_def
    by (auto simp: wp_simps intro!: wp_calls loops) (auto simp: mode_post_def)
  then show ?thesis using assms(1) by (simp add: wp_def mode_post_def)
qed

text \<open>C24: the server cleans up only when it succeeds.  \<open>rdma_server_connect\<close> acknowledges the
  connect request and frees the address list exactly when it returns 0; every error return, also
  those after the event was delivered, leaves both undone.\<close>

theorem server_cleans_up_only_on_success:
  assumes "rdma_server_connect pt s = (Ret x, t)" and "pt_FAILURE pt \<noteq> 0"
  shows "perf_acks t = perf_acks s + (if x = 0 then 1 else 0) \<and>
    frees_list t = frees_list s + (if x = 0 then 1 else 0)"
  using wpD [OF wp_server_connect [OF assms(2)] assms(1)] by (simp add: server_post_def)

text \<open>C25: reconnecting is bounded and does not pile up resources.  Whatever any call answers,
  \<open>retry_rdma_connect\<close> returns \<open>SUCCESS\<close> or \<open>FAILURE\<close>, or faults over the context its last attempt
  left: a null identifier, or, for a datagram connection, a null or empty array for the address
  handle.  On every one of these ends it created resources at most ten times and never holds more
  than one set that it has not asked to destroy; unless it returns \<open>FAILURE\<close> it holds exactly one.\<close>

theorem retry_connect_bounded:
  "let (r, t) = retry_rdma_connect pt s; held = int (creates t) - int (destroyed t) - (int (creates s) - int (destroyed s))
   in (r \<in> {Ret (pt_SUCCESS pt), Ret (pt_FAILURE pt)} \<or>
       (\<exists>f. r = Stop (Faulted f) \<and> (pp_cm_id (ctx t) = NULL \<and> f = Null_Deref \<or>
          pf_connection_type (user_param t) = UD \<and> no_first (pp_ah (ctx t)) f))) \<and>
      creates t \<le> creates s + 10 \<and> held \<in> {0, 1} \<and>
      (r = Ret (pt_FAILURE pt) \<or> held = 1)"
proof -
  let ?d = "\<lambda>t k. creates t + destroyed s = destroyed t + creates s + k"
  let ?Q = "\<lambda>r t. r \<in> {Ret (pt_SUCCESS pt), Ret (pt_FAILURE pt)} \<and> ?d t 0 \<and> r = Ret (pt_FAILURE pt) \<or>
    (r \<in> {Ret (pt_SUCCESS pt), Ret (pt_FAILURE pt)} \<or> (\<exists>e. r = Stop e)) \<and> ?d t 1"
  obtain r t where run: "retry_rdma_connect pt s = (r, t)" by fastforce
  have "wp (retry 10 (reconnect_attempt pt) (retM (pt_FAILURE pt))) ?Q s"
  proof (rule wp_retry [where I = "\<lambda>_ t. ?d t 0"])
    fix k u
    assume u: "?d u 0"
    show "wp (reconnect_attempt pt (Suc k)) (\<lambda>r t. case r of Ret None \<Rightarrow> ?d t 0
        | Ret (Some x) \<Rightarrow> ?Q (Ret x) t | Stop e \<Rightarrow> ?Q (Stop e) t) u"
      by (rule wp_mono [OF wp_reconnect_attempt])
        (use u in \<open>auto simp: attempt_post_def split: outcome.split option.split\<close>)
  qed simp_all
  then have "?Q r t" using run by (simp add: wp_def retry_rdma_connect_def)
  moreover have "ends client_stuck r t" using wpD [OF ends_inD [OF ends_reconnect] run] .
  moreover have "creates t \<le> creates s + 10"
    using reconnect.retry_bound run by (simp add: retry_rdma_connect_def)
  ultimately show ?thesis
    unfolding run by (auto simp: Let_def ends_def client_stuck_def)
qed

text \<open>Closing a connection.  Only after a successful hand shake of two plain verbs peers is the
  socket told \<open>done\<close> and closed; a short write returns \<open>-1\<close> and leaves it open.\<close>

theorem close_connection_cases:
  assumes "ctx_close_connection pt s = (r, t)" and "pt_hook pt = (\<lambda>_ _ x. x)"
  shows "let u = user_param s; plain = (pf_use_rdma_cm u = 0 \<and> pf_work_rdma_cm u = 0);
      hs = pt_env pt (calls s) Ctx_hand_shake; s' = calls s @ [(Ctx_hand_shake, hs)];
      w = r_int (pt_env pt s' (Write_done (pf_sockfd u)))
    in if r_int hs \<noteq> 0 then r = Ret 1 \<and> made s t [Ctx_hand_shake]
       else if \<not> plain then r = Ret 0 \<and> made s t [Ctx_hand_shake]
       else if w \<noteq> 5 then r = Ret (- 1) \<and> made s t [Ctx_hand_shake, Write_done (pf_sockfd u)]
       else r = Ret 0 \<and> made s t [Ctx_hand_shake, Write_done (pf_sockfd u), Close_fd (pf_sockfd u)]"
proof -
  have "fst (ctx_close_connection pt s) = r" "snd (ctx_close_connection pt s) = t"
    using assms(1) by simp_all
  then show ?thesis
    unfolding ctx_close_connection_def helper_def up_def
    by (auto simp: Let_def assms(2) made_def bindM_def thenM_def ext_def call_int_def call_void_def
        retM_def modifyM_def getM_def)
qed

section \<open>Concrete runs\<close>

text \<open>A peer that connects: each request for an event gets the one that fits what was last called.
  A helper does not touch the context or the parameters.\<close>

definition answer_type :: "pcall trace \<Rightarrow> cm_event_type" where
  "answer_type tr = (case map fst (rev tr) of
       Vc (Rdma_resolve_addr _ _ _) # _ \<Rightarrow> RDMA_CM_EVENT_ADDR_RESOLVED
     | Vc (Rdma_resolve_route _ _) # _ \<Rightarrow> RDMA_CM_EVENT_ROUTE_RESOLVED
     | Vc (Rdma_listen _ _) # _ \<Rightarrow> RDMA_CM_EVENT_CONNECT_REQUEST
     | _ \<Rightarrow> RDMA_CM_EVENT_ESTABLISHED)"

definition willing :: "pcall env" where
  "willing tr c = resp0\<lparr>r_ptr := 100 + length tr, r_out := 5,
     r_event := event0\<lparr>ev_addr := 33, ev_type := answer_type tr, ev_id := 9, ev_qp_num := 77\<rparr>\<rparr>"

definition perf :: "pcall env \<Rightarrow> perftest" where
  "perf env = \<lparr>pt_env = env, pt_hook = (\<lambda>_ _ x. x), pt_ON = 1, pt_OFF = 0, pt_SUCCESS = 0,
     pt_FAILURE = 1, pt_NUM_OF_RETRIES = 10\<rparr>"

definition perf_start :: "MachineType \<Rightarrow> perf_state" where
  "perf_start m = \<lparr>calls = [], ctx = \<lparr>pp_cm_id = 7, pp_cm_id_control = 8, pp_cm_channel = 5,
     pp_context = 0, pp_pd = 4, pp_ah = Arr 50 [0], pp_qp = Arr 60 [61]\<rparr>,
   user_param = \<lparr>pf_machine = m, pf_verb = READ, pf_connection_type = UD, pf_tst = BW, pf_duplex = 1,
     pf_port = 19875, pf_servername = None, pf_out_reads = 16, pf_retry_count = 7,
     pf_work_rdma_cm = 0, pf_use_rdma_cm = 0, pf_sockfd = 3, pf_rem_ud_qpn = 0, pf_rem_ud_qkey = 0\<rparr>\<rparr>"

definition no_ctx :: "pcall env" where
  "no_ctx tr c = (if c = Ctx_init then resp0\<lparr>r_int := 1\<rparr> else willing tr c)"

lemmas perf_defs = establish_connection_def rdma_client_connect_def resolve_loops_def
  addr_attempt_def route_attempt_def client_setup_def client_finish_def rdma_server_connect_def
  server_setup_def server_accept_def server_receive_def server_address_def server_done_def
  cmd_defs Let_def PF_INET_def perf_def perf_start_def willing_def no_ctx_def answer_type_def resp0_def event0_def

lemma client_runs:
  "fst (rdma_client_connect (perf willing) (perf_start CLIENT)) = Ret 0"
  "fst (rdma_client_connect (perf no_ctx) (perf_start CLIENT)) = Ret 1"
  by (simp_all add: perf_defs)

lemma other_runs:
  "fst (establish_connection (perf willing) (perf_start CLIENT)) = Ret 0"
  "fst (rdma_server_connect (perf willing) (perf_start SERVER)) = Ret 0"
  "fst (rdma_server_connect (perf no_ctx) (perf_start SERVER)) = Ret 1"
  "fst (retry_rdma_connect (perf willing) (perf_start CLIENT)) = Ret 0"
  by (simp_all add: perf_defs retry_rdma_connect_def reconnect_attempt_def)

lemma perf_simps [simp]:
  "pt_SUCCESS (perf env) = 0" "pt_FAILURE (perf env) = 1" "pt_ON (perf env) = 1"
  "pt_NUM_OF_RETRIES (perf env) = 10" "pt_hook (perf env) = (\<lambda>_ _ x. x)" "pt_env (perf env) = env"
  by (simp_all add: perf_def)

lemma perf_start_simps [simp]:
  "calls (perf_start m) = []" "pf_machine (user_param (perf_start m)) = m"
  "pf_work_rdma_cm (user_param (perf_start m)) = 0" "pf_use_rdma_cm (user_param (perf_start m)) = 0"
  "pf_sockfd (user_param (perf_start m)) = 3"
  by (simp_all add: perf_start_def)

theorem client_connect_accounts_witness:
  "\<exists>t. rdma_client_connect (perf willing) (perf_start CLIENT) = (Ret 0, t) \<and>
     addr_tries t + route_tries t \<le> 11 \<and> delivered t = perf_acks t \<and> frees_list t = 0"
proof -
  obtain t where t: "rdma_client_connect (perf willing) (perf_start CLIENT) = (Ret 0, t)"
    using client_runs(1) by (metis prod.collapse)
  show ?thesis using client_connect_accounts [OF t] t by (simp add: perf_counts)
qed

theorem establish_connection_established_witness:
  "\<exists>t. establish_connection (perf willing) (perf_start CLIENT) = (Ret 0, t) \<and>
     ev_type (r_event (last_event t)) = RDMA_CM_EVENT_ESTABLISHED"
proof -
  obtain t where t: "establish_connection (perf willing) (perf_start CLIENT) = (Ret 0, t)"
    using other_runs(1) by (metis prod.collapse)
  show ?thesis using establish_connection_established [OF t] t by simp
qed

theorem client_restores_mode_witness:
  "\<exists>t. rdma_client_connect (perf no_ctx) (perf_start CLIENT) = (Ret 1, t) \<and>
     (pf_work_rdma_cm (user_param t) = 0 \<or> pf_work_rdma_cm (user_param t) = 1)"
proof -
  obtain t where t: "rdma_client_connect (perf no_ctx) (perf_start CLIENT) = (Ret 1, t)"
    using client_runs(2) by (metis prod.collapse)
  show ?thesis using client_restores_mode [OF t] t by (auto simp: mode_kept_def)
qed

theorem server_cleans_up_only_on_success_witness:
  "\<exists>t u. rdma_server_connect (perf willing) (perf_start SERVER) = (Ret 0, t) \<and>
     rdma_server_connect (perf no_ctx) (perf_start SERVER) = (Ret 1, u) \<and>
     perf_acks t = 1 \<and> frees_list t = 1 \<and> perf_acks u = 0 \<and> frees_list u = 0"
proof -
  obtain t where t: "rdma_server_connect (perf willing) (perf_start SERVER) = (Ret 0, t)"
    using other_runs(2) by (metis prod.collapse)
  obtain u where u: "rdma_server_connect (perf no_ctx) (perf_start SERVER) = (Ret 1, u)"
    using other_runs(3) by (metis prod.collapse)
  show ?thesis
    using server_cleans_up_only_on_success [OF t] server_cleans_up_only_on_success [OF u] t u
    by (simp add: perf_counts)
qed

text \<open>A context without an address handle array, for which the loop of a datagram client ends in the
  fault, and the server whose first queue pair is null.\<close>

lemma stuck_runs:
  "fst (retry_rdma_connect (perf willing) (perf_start CLIENT\<lparr>ctx := (ctx (perf_start CLIENT))\<lparr>pp_ah := Null_arr\<rparr>\<rparr>)) =
     Stop (Faulted Null_Deref)"
  "fst (establish_connection (perf willing) (perf_start SERVER\<lparr>ctx := (ctx (perf_start SERVER))\<lparr>pp_qp := Arr 60 [0]\<rparr>\<rparr>)) =
     Stop (Faulted Null_Deref)"
  by (simp_all add: perf_defs retry_rdma_connect_def reconnect_attempt_def)

theorem retry_connect_bounded_witness:
  "\<exists>t. retry_rdma_connect (perf willing) (perf_start CLIENT\<lparr>ctx := (ctx (perf_start CLIENT))\<lparr>pp_ah := Null_arr\<rparr>\<rparr>) =
      (Stop (Faulted Null_Deref), t) \<and> creates t = destroyed t + 1"
proof -
  let ?s = "perf_start CLIENT\<lparr>ctx := (ctx (perf_start CLIENT))\<lparr>pp_ah := Null_arr\<rparr>\<rparr>"
  obtain t where t: "retry_rdma_connect (perf willing) ?s = (Stop (Faulted Null_Deref), t)"
    using stuck_runs(1) by (metis prod.collapse)
  show ?thesis
    using retry_connect_bounded [of "perf willing" ?s] unfolding t by (auto simp: Let_def perf_counts)
qed

theorem establish_connection_returns_witness:
  "\<exists>t. establish_connection (perf willing) (perf_start SERVER\<lparr>ctx := (ctx (perf_start SERVER))\<lparr>pp_qp := Arr 60 [0]\<rparr>\<rparr>) =
      (Stop (Faulted Null_Deref), t) \<and> (pp_cm_id (ctx t) = NULL \<or> pf_connection_type (user_param t) = UD)"
proof -
  let ?s = "perf_start SERVER\<lparr>ctx := (ctx (perf_start SERVER))\<lparr>pp_qp := Arr 60 [0]\<rparr>\<rparr>"
  obtain t where t: "establish_connection (perf willing) ?s = (Stop (Faulted Null_Deref), t)"
    using stuck_runs(2) by (metis prod.collapse)
  show ?thesis
    using establish_connection_returns [of "perf willing" ?s] unfolding t by (auto simp: Let_def)
qed

theorem close_connection_cases_witness:
  "\<exists>t. ctx_close_connection (perf willing) (perf_start CLIENT) = (Ret (- 1), t) \<and>
     made (perf_start CLIENT) t [Ctx_hand_shake, Write_done 3]"
proof -
  obtain r t where t: "ctx_close_connection (perf willing) (perf_start CLIENT) = (r, t)" by fastforce
  show ?thesis
    using close_connection_cases [OF t] t by (simp add: Let_def willing_def resp0_def)
qed

end
