(* ===== verification/Gluster_Transport.thy ===== *)
theory Gluster_Transport
  imports Event_Loop
begin

text \<open>
  The parts of the C++ side written against GlusterFS: \<open>gf_rdma_create_qp\<close> of \<open>src/src/Qp.cc\<close>,
  and the event loop \<open>gf_rdma_cm_event_handler\<close>, \<open>init\<close> and \<open>Transport::Listen\<close> of
  \<open>src/src/Transport.cc\<close> with the members its constructor sets, over the structures of \<open>src/src/Peer.h\<close> and \<open>src/src/Transport.h\<close>.

  GlusterFS itself is not in the repository: its functions (\<open>gf_rdma_cm_handle_*\<close>, \<open>gf_rdma_init\<close>,
  \<open>gf_rdma_get_device\<close>, \<open>gf_rdma_register_peer\<close>, \<open>__gf_rdma_destroy_qp\<close>, ...) are calls, and what
  such a call does to the transport's memory is the function \<open>gf_hook\<close> of the call, its answer and
  the memory before.  Taking the lock has such an effect too: what other threads wrote before.
  \<open>Transport::Listen\<close> jumps to a label it does not have and ends without a value; it is read as
  ending there.  Log messages are not modelled, a dereference that computes one is.
\<close>

section \<open>Structures, calls and state\<close>

text \<open>\<open>struct __gf_rdma_peer\<close> without its queue and its thread, and \<open>struct __gf_rdma_ctx\<close>, whose lock
  is known by the address of the structure.\<close>

record gf_rdma_peer =
  pe_trans :: addr
  pe_cm_id :: addr
  pe_qp :: addr
  pe_quota_set :: int
  pe_recv_count :: int
  pe_send_count :: int
  pe_recv_size :: int
  pe_send_size :: int
  pe_quota :: int
  pe_local_lid :: int
  pe_local_psn :: int
  pe_local_qpn :: int
  pe_remote_lid :: int
  pe_remote_psn :: int
  pe_remote_qpn :: int

record gf_rdma_ctx =
  gx_device :: addr
  gx_event_channel :: addr
  gx_dlcount :: int

text \<open>What the functions read and write: \<open>this->private\<close> and through it the peer, the device and the
  backlog; \<open>this->dl_handle\<close>; \<open>this->ctx->ib\<close> with what it points to; \<open>this->ctx->iobuf_pool\<close> and
  whether it has the registration functions.\<close>

record gf_memory =
  gm_private :: addr
  gm_peer :: gf_rdma_peer
  gm_device :: addr
  gm_backlog :: int
  gm_dl_handle :: addr
  gm_ib :: addr
  gm_ctx :: gf_rdma_ctx
  gm_pool :: addr
  gm_pool_hooks :: bool

datatype gcall =
    Gc_get_cm_event addr
  | Gc_ack_cm_event addr
  | Gc_read_context addr
  | Gc_read_verbs addr
  | Gf_handle_addr_resolved addr
  | Gf_handle_route_resolved addr
  | Gf_handle_connect_request addr
  | Gf_handle_connect_init addr
  | Gf_handle_event_error addr
  | Gf_handle_disconnect addr
  | Gf_handle_device_removal addr
  | Gc_get_device_name addr
  | Gf_get_device addr "string"
  | Gc_create_qp addr addr "addr list" "int list"
  | Gf_register_peer addr int
  | Gf_destroy_qp
  | Gf_calloc_private
  | Gf_free addr
  | Gf_init
  | Mutex_lock addr
  | Mutex_unlock addr
  | Gf_register_iobuf_pool addr addr
  | Gc_bind_addr addr
  | Gc_listen addr int

record gf_state = "gcall world" +
  gs_mem :: gf_memory

text \<open>What is outside: the answers, and the effects of the calls that work on the transport.\<close>

record glusterfs =
  gf_env :: "gcall env"
  gf_hook :: "gcall \<Rightarrow> resp \<Rightarrow> gf_memory \<Rightarrow> gf_memory"

definition gm :: "(gf_memory \<Rightarrow> 'a) \<Rightarrow> (gf_state, 'a) cmd" where
  "gm f = getM (\<lambda>s. f (gs_mem s))"

definition set_gm :: "(gf_memory \<Rightarrow> gf_memory) \<Rightarrow> (gf_state, unit) cmd" where
  "set_gm f = modifyM (\<lambda>s. s\<lparr>gs_mem := f (gs_mem s)\<rparr>)"

definition gf_call :: "glusterfs \<Rightarrow> gcall \<Rightarrow> (gf_state, resp) cmd" where
  "gf_call gf c = bindM (ext (gf_env gf) c) (\<lambda>r. thenM (set_gm (gf_hook gf c r)) (retM r))"

definition gf_void :: "glusterfs \<Rightarrow> gcall \<Rightarrow> (gf_state, unit) cmd" where
  "gf_void gf c = bindM (gf_call gf c) (\<lambda>_. retM ())"

declare gm_def [cmd_defs] set_gm_def [cmd_defs] gf_call_def [cmd_defs] gf_void_def [cmd_defs]

lemma wp_gm [simp]:
  "wp (gm f) P s = P (Ret (f (gs_mem s))) s"
  "wp (set_gm h) Q s = Q (Ret ()) (s\<lparr>gs_mem := h (gs_mem s)\<rparr>)"
  by (simp_all add: gm_def set_gm_def)

lemma wp_gf_call:
  "(\<And>r. Q (Ret r) (s\<lparr>calls := calls s @ [(c, r)], gs_mem := gf_hook gf c r (gs_mem s)\<rparr>)) \<Longrightarrow>
   wp (gf_call gf c) Q s"
  unfolding gf_call_def by (auto simp: wp_simps intro!: wp_calls)

lemma wp_gf_void:
  "(\<And>r. Q (Ret ()) (s\<lparr>calls := calls s @ [(c, r)], gs_mem := gf_hook gf c r (gs_mem s)\<rparr>)) \<Longrightarrow>
   wp (gf_void gf c) Q s"
  unfolding gf_void_def by (auto simp: wp_simps intro!: wp_gf_call)

lemmas gf_rules = wp_calls wp_gf_call wp_gf_void

section \<open>Creating a queue pair (Qp.cc)\<close>

text \<open>The device structure the lookup returns is GlusterFS memory: the answer's cells 0 to 3 are
  its \<open>send_cq\<close>, \<open>recv_cq\<close>, \<open>srq\<close> and \<open>pd\<close>.  \<open>rdma_create_qp\<close> stores the queue pair in the
  identifier (\<open>r_ptr\<close>), whose number is \<open>r_out\<close>.  \<open>qp_attr\<close> is the call with its attributes.\<close>

definition qp_attr :: "gf_rdma_peer \<Rightarrow> resp \<Rightarrow> gcall" where
  "qp_attr p d = Gc_create_qp (pe_cm_id p) (r_cells d 3) [r_cells d 0, r_cells d 1, r_cells d 2]
     [pe_send_count p, pe_recv_count p, 2, 1]"

text \<open>The identifier of the peer and its device context, \<open>peer->cm_id->verbs\<close>.\<close>

definition peer_verbs :: "glusterfs \<Rightarrow> (gf_state, addr) cmd" where
  "peer_verbs gf =
     bindM (gm (\<lambda>m. pe_cm_id (gm_peer m))) (\<lambda>i.
     if i = NULL then stopM (Faulted Null_Deref) else call_ptr (gf_env gf) (Gc_read_verbs i))"

definition gf_create_body :: "glusterfs \<Rightarrow> (gf_state, int) cmd" where
  "gf_create_body gf =
     bindM (gm gm_private) (\<lambda>priv.
     if priv = NULL then stopM (Faulted Null_Deref)
     else bindM (peer_verbs gf) (\<lambda>v.
     if v = NULL then stopM (Faulted Null_Deref)
     else bindM (ext (gf_env gf) (Gc_get_device_name v)) (\<lambda>n.
     case r_str n of
       None \<Rightarrow> retM (- 1)
     | Some device_name \<Rightarrow>
       bindM (gf_call gf (Gf_get_device v device_name)) (\<lambda>d.
       if r_ptr d = NULL then retM (- 1)
       else thenM (set_gm (\<lambda>m. if gm_device m = NULL then m\<lparr>gm_device := r_ptr d\<rparr> else m))
         (bindM (gm gm_peer) (\<lambda>p.
          if pe_cm_id p = NULL then stopM (Faulted Null_Deref)
          else bindM (ext (gf_env gf) (qp_attr p d)) (\<lambda>q.
          if r_int q \<noteq> 0
          then (if pe_trans p = NULL then stopM (Faulted Null_Deref) else retM (- 1))
          else thenM (set_gm (\<lambda>m. m\<lparr>gm_peer := (gm_peer m)\<lparr>pe_qp := r_ptr q\<rparr>\<rparr>))
            (if r_ptr q = NULL then stopM (Faulted Null_Deref)
             else bindM (gf_call gf (Gf_register_peer (r_ptr d) (r_out q))) (\<lambda>r.
               retM (r_int r))))))))))"

definition gf_rdma_create_qp :: "glusterfs \<Rightarrow> (gf_state, int) cmd" where
  "gf_rdma_create_qp gf =
     bindM (gf_create_body gf) (\<lambda>ret.
     thenM (whenM (ret = - 1) (gf_void gf Gf_destroy_qp)) (retM ret))"

section \<open>The event loop (Transport.cc)\<close>

definition gf_ack :: "glusterfs \<Rightarrow> cm_event \<Rightarrow> (gf_state, unit) cmd" where
  "gf_ack gf ev = call_void (gf_env gf) (Gc_ack_cm_event (ev_addr ev))"

text \<open>\<open>this = event->id->context\<close>, then a log message that reads \<open>this->name\<close>.\<close>

definition gf_this :: "glusterfs \<Rightarrow> cm_event \<Rightarrow> (gf_state, addr) cmd" where
  "gf_this gf ev =
     (if ev_id ev = NULL then stopM (Faulted Null_Deref)
      else bindM (call_ptr (gf_env gf) (Gc_read_context (ev_id ev))) (\<lambda>this.
        if this = NULL then stopM (Faulted Null_Deref) else retM this))"

definition gf_error_turn :: "glusterfs \<Rightarrow> cm_event \<Rightarrow> (gf_state, addr option) cmd" where
  "gf_error_turn gf ev =
     bindM (gf_this gf ev) (\<lambda>this.
     thenM (gf_ack gf ev)
     (thenM (gf_void gf (Gf_handle_event_error this)) (retM (Some NULL))))"

definition gf_break :: "glusterfs \<Rightarrow> gcall \<Rightarrow> cm_event \<Rightarrow> (gf_state, addr option) cmd" where
  "gf_break gf h ev =
     thenM (gf_void gf h) (thenM (gf_ack gf ev) (retM (Some (ev_addr ev))))"

definition gf_turn :: "glusterfs \<Rightarrow> addr \<Rightarrow> addr \<Rightarrow> (gf_state, addr option) cmd" where
  "gf_turn gf event_channel event =
     bindM (ext (gf_env gf) (Gc_get_cm_event event_channel)) (\<lambda>r.
     let ev = r_event r in
     if r_int r \<noteq> 0 then retM None
     else if ev_addr ev = NULL then stopM (Faulted Null_Deref)
     else (case ev_type ev of
         RDMA_CM_EVENT_ADDR_RESOLVED \<Rightarrow> gf_break gf (Gf_handle_addr_resolved (ev_addr ev)) ev
       | RDMA_CM_EVENT_ROUTE_RESOLVED \<Rightarrow> gf_break gf (Gf_handle_route_resolved (ev_addr ev)) ev
       | RDMA_CM_EVENT_CONNECT_REQUEST \<Rightarrow> gf_break gf (Gf_handle_connect_request (ev_addr ev)) ev
       | RDMA_CM_EVENT_ESTABLISHED \<Rightarrow> gf_break gf (Gf_handle_connect_init (ev_addr ev)) ev
       | RDMA_CM_EVENT_ADDR_ERROR \<Rightarrow> gf_error_turn gf ev
       | RDMA_CM_EVENT_ROUTE_ERROR \<Rightarrow> gf_error_turn gf ev
       | RDMA_CM_EVENT_CONNECT_ERROR \<Rightarrow> gf_error_turn gf ev
       | RDMA_CM_EVENT_UNREACHABLE \<Rightarrow> gf_error_turn gf ev
       | RDMA_CM_EVENT_REJECTED \<Rightarrow> gf_error_turn gf ev
       | RDMA_CM_EVENT_DISCONNECTED \<Rightarrow>
           bindM (gf_this gf ev) (\<lambda>this.
           thenM (gf_ack gf ev)
           (thenM (gf_void gf (Gf_handle_disconnect this)) (retM (Some NULL))))
       | RDMA_CM_EVENT_DEVICE_REMOVAL \<Rightarrow> gf_break gf (Gf_handle_device_removal (ev_addr ev)) ev
       | RDMA_CM_EVENT_OTHER _ \<Rightarrow> thenM (gf_ack gf ev) (retM (Some (ev_addr ev)))))"

definition gf_rdma_cm_event_handler :: "glusterfs \<Rightarrow> nat \<Rightarrow> addr \<Rightarrow> (gf_state, unit) cmd" where
  "gf_rdma_cm_event_handler gf fuel event_channel = forever fuel (gf_turn gf event_channel) NULL"

section \<open>Loading the transport (Transport.cc)\<close>

text \<open>\<open>init\<close>.  The lock is taken through \<open>rdma_ctx\<close> in front of the test whether it is null.  The
  pool's two members are set before \<open>gf_rdma_register_iobuf_pool_with_device\<close> is called.\<close>

definition count_load :: "glusterfs \<Rightarrow> (gf_state, unit) cmd" where
  "count_load gf =
     bindM (gm (\<lambda>m. gx_dlcount (gm_ctx m))) (\<lambda>k.
     if \<not> c_int (k + 1) then stopM (Faulted Signed_Overflow)
     else thenM (set_gm (\<lambda>m. m\<lparr>gm_ctx := (gm_ctx m)\<lparr>gx_dlcount := k + 1\<rparr>\<rparr>))
       (whenM (k + 1 = 1)
         (bindM (gm gm_pool) (\<lambda>pool.
          if pool = NULL then stopM (Faulted Null_Deref)
          else thenM (set_gm (\<lambda>m. m\<lparr>gm_pool_hooks := True\<rparr>))
            (bindM (gm (\<lambda>m. gx_device (gm_ctx m))) (\<lambda>d.
             gf_void gf (Gf_register_iobuf_pool d pool)))))))"

definition load_locked :: "glusterfs \<Rightarrow> addr \<Rightarrow> (gf_state, int) cmd" where
  "load_locked gf ib =
     bindM (gm gm_dl_handle) (\<lambda>h.
     thenM (whenM (h \<noteq> NULL) (count_load gf))
     (thenM (call_void (gf_env gf) (Mutex_unlock ib)) (retM 0)))"

definition transport_init :: "glusterfs \<Rightarrow> (gf_state, int) cmd" where
  "transport_init gf =
     bindM (call_ptr (gf_env gf) Gf_calloc_private) (\<lambda>priv.
     if priv = NULL then retM (- 1)
     else thenM (set_gm (\<lambda>m. m\<lparr>gm_private := priv\<rparr>))
       (bindM (gf_call gf Gf_init) (\<lambda>x.
        if r_int x \<noteq> 0 then thenM (set_gm (\<lambda>m. m\<lparr>gm_private := NULL\<rparr>))
          (thenM (call_void (gf_env gf) (Gf_free priv)) (retM (- 1)))
        else bindM (gm gm_ib) (\<lambda>ib.
          if ib = NULL then stopM (Faulted Null_Deref)
          else thenM (gf_void gf (Mutex_lock ib)) (load_locked gf ib)))))"

text \<open>\<open>Transport::Listen\<close>; \<open>True\<close> when the jump to \<open>err\<close> was taken.\<close>

definition Transport_Listen :: "glusterfs \<Rightarrow> (gf_state, bool) cmd" where
  "Transport_Listen gf =
     bindM (gm (\<lambda>m. pe_cm_id (gm_peer m))) (\<lambda>i.
     bindM (call_int (gf_env gf) (Gc_bind_addr i)) (\<lambda>b.
     if b \<noteq> 0 then retM True
     else bindM (gm gm_backlog) (\<lambda>n.
       bindM (call_int (gf_env gf) (Gc_listen i n)) (\<lambda>l.
       if l \<noteq> 0 then retM True else retM False))))"

text \<open>The constructor's initial members.  \<open>INVALID_SOCKET\<close> is declared nowhere (the file defines
  \<open>INVALID_SOCKET_FD\<close>) and is a parameter; only three of the members are declared in
  \<open>src/src/Transport.h\<close>, the others have the types of their initial values.\<close>

record transport_members =
  tm_host :: string
  tm_port :: int
  tm_sock_fd :: int
  tm_peerPort :: int
  tm_connTimeout :: int
  tm_sendTimeout :: int
  tm_recvTimeout :: int
  tm_keepAlive :: bool
  tm_lingerOn :: int
  tm_lingerVal :: int
  tm_noDelay :: int
  tm_maxRecvRetries :: int

definition Transport_members :: "int \<Rightarrow> string \<Rightarrow> int \<Rightarrow> transport_members" where
  "Transport_members INVALID_SOCKET host port =
     \<lparr>tm_host = host, tm_port = port, tm_sock_fd = INVALID_SOCKET, tm_peerPort = 0, tm_connTimeout = 0,
      tm_sendTimeout = 0, tm_recvTimeout = 0, tm_keepAlive = False, tm_lingerOn = 1, tm_lingerVal = 0,
      tm_noDelay = 1, tm_maxRecvRetries = 5\<rparr>"

section \<open>The loop's accounts\<close>

fun gf_delivers :: "gcall \<times> resp \<Rightarrow> addr list" where
  "gf_delivers (Gc_get_cm_event _, r) = [ev_addr (r_event r)]"
| "gf_delivers _ = []"

fun gf_acknowledges :: "gcall \<times> resp \<Rightarrow> addr list" where
  "gf_acknowledges (Gc_ack_cm_event a, _) = [a]"
| "gf_acknowledges _ = []"

definition gf_got :: "gf_state \<Rightarrow> addr list" where "gf_got s = noted gf_delivers (calls s)"
definition gf_acked :: "gf_state \<Rightarrow> addr list" where "gf_acked s = noted gf_acknowledges (calls s)"

text \<open>One turn: what it adds to the accounts, and how it can end.\<close>

definition gf_turn_end :: "glusterfs \<Rightarrow> addr \<Rightarrow> gf_state \<Rightarrow> addr option outcome \<Rightarrow> gf_state \<Rightarrow> bool" where
  "gf_turn_end gf ch s r t \<longleftrightarrow> (\<exists>a. gf_got t = gf_got s @ [a] \<and>
     (case r of
        Ret (Some _) \<Rightarrow> gf_acked t = gf_acked s @ [a]
      | Ret None \<Rightarrow> gf_acked t = gf_acked s \<and> gs_mem t = gs_mem s \<and>
          r_int (gf_env gf (calls s) (Gc_get_cm_event ch)) \<noteq> 0 \<and>
          calls t = calls s @ [(Gc_get_cm_event ch, gf_env gf (calls s) (Gc_get_cm_event ch))]
      | Stop x \<Rightarrow> gf_acked t = gf_acked s \<and> x = Faulted Null_Deref))"

lemma wp_gf_turn: "wp (gf_turn gf ch e) (gf_turn_end gf ch s) s"
  unfolding gf_turn_def gf_break_def gf_error_turn_def gf_this_def gf_ack_def gf_got_def gf_acked_def
    gf_turn_end_def Let_def
  by (cases "ev_type (r_event (gf_env gf (calls s) (Gc_get_cm_event ch)))")
    (auto simp: wp_simps wp_ext_eq intro!: gf_rules)

interpretation gml: ack_loop "gf_turn gf ch" gf_got gf_acked for gf ch
proof unfold_locales
  show "\<exists>a. gf_got t = gf_got s @ [a] \<and> gf_acked t = gf_acked s @ [a]"
    if "gf_turn gf ch e s = (Ret (Some e'), t)" for gf ch e s e' t
    using wpD [OF wp_gf_turn that] by (auto simp: gf_turn_end_def)
  show "\<exists>a. gf_got t = gf_got s @ [a] \<and> gf_acked t \<in> {gf_acked s, gf_acked s @ [a]}"
    if "gf_turn gf ch e s = (r, t)" for gf ch e s r t
    using wpD [OF wp_gf_turn that] by (cases r) (auto simp: gf_turn_end_def split: option.split_asm)
qed

section \<open>Properties\<close>

text \<open>C29: the GlusterFS event loop returns exactly by a failing \<open>rdma_get_cm_event\<close>.  However it
  ends, the events were acknowledged in the order of their delivery, each exactly once, except the
  answer to the last request when that failed or when handling it dereferenced null; with its fuel
  used up, one event was handled per turn.\<close>

theorem gf_event_loop_accounts:
  assumes "gf_rdma_cm_event_handler gf fuel ch s = (r, t)"
  shows "\<exists>as. gf_acked t = gf_acked s @ as \<and>
    (if r = Stop Out_Of_Fuel then length as = fuel \<and> gf_got t = gf_got s @ as
     else (\<exists>a. gf_got t = gf_got s @ as @ [a]) \<and> (r = Ret () \<or> r = Stop (Faulted Null_Deref)) \<and>
       (r = Ret () \<longrightarrow> (\<exists>tr. r_int (gf_env gf tr (Gc_get_cm_event ch)) \<noteq> 0 \<and>
          calls t = tr @ [(Gc_get_cm_event ch, gf_env gf tr (Gc_get_cm_event ch))])))"
proof -
  have run: "forever fuel (gf_turn gf ch) NULL s = (r, t)"
    using assms by (simp add: gf_rdma_cm_event_handler_def)
  obtain k e u where k: "k \<le> fuel" "turns (gf_turn gf ch) k NULL s e u"
    "loop_end (gf_turn gf ch) (fuel - k) e u r t"
    using forever_end [OF run] by blast
  obtain as where as: "length as = k" "gf_got u = gf_got s @ as" "gf_acked u = gf_acked s @ as"
    using gml.turns_acks [OF k(2)] by blast
  from k(3) show ?thesis
  proof cases
    case no_fuel
    with k(1) as show ?thesis by (intro exI [of _ as]) simp
  next
    case broken
    have "gf_turn_end gf ch u (Ret None) t" by (rule wpD [OF wp_gf_turn broken(3)])
    then show ?thesis using as broken(2) by (intro exI [of _ as]) (auto simp: gf_turn_end_def)
  next
    case (stopped x)
    have "gf_turn_end gf ch u (Stop x) t" by (rule wpD [OF wp_gf_turn stopped(3)])
    then show ?thesis using as stopped(2) by (intro exI [of _ as]) (auto simp: gf_turn_end_def)
  qed
qed

text \<open>The calls of \<open>gf_rdma_create_qp\<close> with the answers \<open>a\<close> (verbs), \<open>b\<close> (name), \<open>d\<close> (device), \<open>q\<close>
  (queue pair) and \<open>p\<close> (registration), from the memory \<open>m\<close>; how many of them are made, up to the
  first that fails; and the memory they leave.\<close>

definition qp_steps :: "glusterfs \<Rightarrow> gf_memory \<Rightarrow> resp \<Rightarrow> resp \<Rightarrow> resp \<Rightarrow> resp \<Rightarrow> resp \<Rightarrow> gcall trace" where
  "qp_steps gf m a b d q p =
     (let v = r_ptr a; find = Gf_get_device v (the (r_str b)) in
      [(Gc_read_verbs (pe_cm_id (gm_peer m)), a), (Gc_get_device_name v, b), (find, d),
       (qp_attr (gm_peer (gf_hook gf find d m)) d, q), (Gf_register_peer (r_ptr d) (r_out q), p)])"

definition qp_made :: "resp \<Rightarrow> resp \<Rightarrow> resp \<Rightarrow> nat" where
  "qp_made b d q = (if r_str b = None then 2 else if r_ptr d = NULL then 3 else if r_int q \<noteq> 0 then 4 else 5)"

definition qp_memory :: "glusterfs \<Rightarrow> gf_memory \<Rightarrow> resp \<Rightarrow> resp \<Rightarrow> resp \<Rightarrow> resp \<Rightarrow> resp \<Rightarrow> gf_memory" where
  "qp_memory gf m a b d q p =
     (let k = qp_made b d q;
          m1 = gf_hook gf (Gf_get_device (r_ptr a) (the (r_str b))) d m;
          m2 = m1\<lparr>gm_device := if gm_device m1 = NULL then r_ptr d else gm_device m1\<rparr> in
      if k = 2 then m else if k = 3 then m1 else if k = 4 then m2
      else gf_hook gf (Gf_register_peer (r_ptr d) (r_out q)) p (m2\<lparr>gm_peer := (gm_peer m2)\<lparr>pe_qp := r_ptr q\<rparr>\<rparr>))"

definition body_end :: "glusterfs \<Rightarrow> gf_state \<Rightarrow> int outcome \<Rightarrow> gf_state \<Rightarrow> bool" where
  "body_end gf s r t \<longleftrightarrow> (\<forall>ret. r = Ret ret \<longrightarrow> (\<exists>a b d q p. let k = qp_made b d q in
     ret = (if k = 5 then r_int p else - 1) \<and> (k = 5 \<longrightarrow> r_ptr q \<noteq> NULL) \<and>
     calls t = calls s @ take k (qp_steps gf (gs_mem s) a b d q p) \<and>
     gs_mem t = qp_memory gf (gs_mem s) a b d q p))"

lemma body_endI:
  assumes "calls t = calls s @ take (qp_made b d q) (qp_steps gf (gs_mem s) a b d q p)"
    and "gs_mem t = qp_memory gf (gs_mem s) a b d q p"
    and "ret = (if qp_made b d q = 5 then r_int p else - 1)" and "qp_made b d q = 5 \<Longrightarrow> r_ptr q \<noteq> NULL"
  shows "body_end gf s (Ret ret) t"
  using assms unfolding body_end_def Let_def by blast

lemma body_end_stop: "body_end gf s (Stop x) t"
  by (simp add: body_end_def)

lemmas qp_defs = qp_made_def qp_steps_def qp_memory_def Let_def

lemma wp_gf_body: "wp (gf_create_body gf) (body_end gf s) s"
proof -
  let ?m = "gs_mem s" and ?h = "\<lambda>v n d. gf_hook gf (Gf_get_device v n) d (gs_mem s)"
  let ?find = "\<lambda>a y n d. calls s @ [(Gc_read_verbs (pe_cm_id (gm_peer ?m)), a), (Gc_get_device_name (r_ptr a), y),
      (Gf_get_device (r_ptr a) n, d)]"
  let ?pair = "\<lambda>a y n d q. calls s @ [(Gc_read_verbs (pe_cm_id (gm_peer ?m)), a), (Gc_get_device_name (r_ptr a), y),
      (Gf_get_device (r_ptr a) n, d), (qp_attr (gm_peer (?h (r_ptr a) n d)) d, q)]"
  let ?all = "\<lambda>a y n d q p. calls s @ [(Gc_read_verbs (pe_cm_id (gm_peer ?m)), a), (Gc_get_device_name (r_ptr a), y),
      (Gf_get_device (r_ptr a) n, d), (qp_attr (gm_peer (?h (r_ptr a) n d)) d, q),
      (Gf_register_peer (r_ptr d) (r_out q), p)]"
  have two: "body_end gf s (Ret (- 1)) (s\<lparr>calls := calls s @
      [(Gc_read_verbs (pe_cm_id (gm_peer ?m)), a), (Gc_get_device_name (r_ptr a), y)]\<rparr>)"
    if "r_str y = None" for a y
    by (rule body_endI [where a = a and b = y]) (use that in \<open>simp_all add: qp_defs\<close>)
  have three: "body_end gf s (Ret (- 1)) (s\<lparr>calls := ?find a y n d, gs_mem := ?h (r_ptr a) n d\<rparr>)"
    if "r_str y = Some n" "r_ptr d = NULL" for a y n d
    by (rule body_endI [where a = a and b = y and d = d]) (use that in \<open>simp_all add: qp_defs\<close>)
  have four: "body_end gf s (Ret (- 1)) t"
    if "calls t = ?pair a y n d q" "gs_mem t = qp_memory gf ?m a y d q resp0"
      "r_str y = Some n" "r_ptr d \<noteq> NULL" "r_int q \<noteq> 0" for a y n d q t
    by (rule body_endI [where a = a and b = y and d = d and q = q and p = resp0])
      (use that in \<open>simp_all add: qp_made_def qp_steps_def Let_def\<close>)
  have all: "body_end gf s (Ret (r_int p)) t"
    if "calls t = ?all a y n d q p" "gs_mem t = qp_memory gf ?m a y d q p"
      "r_str y = Some n" "r_ptr d \<noteq> NULL" "r_int q = 0" "r_ptr q \<noteq> NULL" for a y n d q p t
    by (rule body_endI [where a = a and b = y and d = d and q = q and p = p])
      (use that in \<open>simp_all add: qp_made_def qp_steps_def Let_def\<close>)
  show ?thesis
    unfolding gf_create_body_def peer_verbs_def
    by (auto simp: wp_simps body_end_stop two three split: option.split intro!: gf_rules)
      (auto simp: qp_memory_def qp_made_def Let_def intro!: four all)
qed

lemma wp_destroy_after:
  "wp (thenM (whenM (x = - 1) (gf_void gf Gf_destroy_qp)) (retM x))
     (\<lambda>r t. r = Ret x \<and> (if x = - 1 then \<exists>z. calls t = calls u @ [(Gf_destroy_qp, z)] \<and>
        gs_mem t = gf_hook gf Gf_destroy_qp z (gs_mem u) else t = u)) u"
  by (auto simp: wp_simps intro!: gf_rules)

text \<open>C30: every result of \<open>gf_rdma_create_qp\<close>, from the answers to its calls.  It makes its five calls in
  order up to the first that fails, and returns \<open>-1\<close> when one before the last failed and the answer of
  \<open>gf_rdma_register_peer\<close> otherwise; exactly on \<open>-1\<close> it then calls \<open>__gf_rdma_destroy_qp\<close>, so a
  registration error other than \<open>-1\<close> keeps the queue pair.  The pair was made with the queues and
  domain of the device found, also where the transport already had another one, and the memory is the
  one the calls leave, with the device stored only in an empty place.\<close>

theorem gf_create_qp_cases:
  assumes "gf_rdma_create_qp gf s = (Ret ret, t)"
  shows "\<exists>a b d q p zs. let k = qp_made b d q; m = qp_memory gf (gs_mem s) a b d q p in
    ret = (if k = 5 then r_int p else - 1) \<and> (k = 5 \<longrightarrow> r_ptr q \<noteq> NULL) \<and>
    calls t = calls s @ take k (qp_steps gf (gs_mem s) a b d q p) @ zs \<and>
    (if ret = - 1 then \<exists>z. zs = [(Gf_destroy_qp, z)] \<and> gs_mem t = gf_hook gf Gf_destroy_qp z m
     else zs = [] \<and> gs_mem t = m)"
proof -
  obtain x u where body: "gf_create_body gf s = (Ret x, u)" and
    rest: "thenM (whenM (x = - 1) (gf_void gf Gf_destroy_qp)) (retM x) u = (Ret ret, t)"
    using assms unfolding gf_rdma_create_qp_def by (auto simp: bindM_def split: prod.splits outcome.splits)
  have x: "x = ret" and t: "if ret = - 1 then \<exists>z. calls t = calls u @ [(Gf_destroy_qp, z)] \<and>
      gs_mem t = gf_hook gf Gf_destroy_qp z (gs_mem u) else t = u"
    using wpD [OF wp_destroy_after rest] by auto
  obtain zs where zs: "calls t = calls u @ zs"
    "if ret = - 1 then \<exists>z. zs = [(Gf_destroy_qp, z)] \<and> gs_mem t = gf_hook gf Gf_destroy_qp z (gs_mem u)
     else zs = [] \<and> gs_mem t = gs_mem u"
    using t by (cases "ret = - 1") auto
  obtain a b d q p where "ret = (if qp_made b d q = 5 then r_int p else - 1)" "qp_made b d q = 5 \<longrightarrow> r_ptr q \<noteq> NULL"
    "calls u = calls s @ take (qp_made b d q) (qp_steps gf (gs_mem s) a b d q p)"
    "gs_mem u = qp_memory gf (gs_mem s) a b d q p"
    using wpD [OF wp_gf_body body] x unfolding body_end_def Let_def by blast
  with zs show ?thesis unfolding Let_def by (metis append.assoc)
qed

text \<open>What \<open>init\<close> does from the memory \<open>m2\<close> it finds under the lock: nothing for a transport that
  was not loaded dynamically; otherwise the count is raised, and the first to raise it registers
  the pool (with answer \<open>g\<close>).\<close>

definition first_load :: "gf_memory \<Rightarrow> bool" where
  "first_load m \<longleftrightarrow> gm_dl_handle m \<noteq> NULL \<and> gx_dlcount (gm_ctx m) = 0"

definition register_call :: "gf_memory \<Rightarrow> gcall" where
  "register_call m = Gf_register_iobuf_pool (gx_device (gm_ctx m)) (gm_pool m)"

definition loaded :: "glusterfs \<Rightarrow> resp \<Rightarrow> gf_memory \<Rightarrow> gf_memory" where
  "loaded gf g m =
     (let m' = m\<lparr>gm_ctx := (gm_ctx m)\<lparr>gx_dlcount := gx_dlcount (gm_ctx m) + 1\<rparr>\<rparr> in
      if gm_dl_handle m = NULL then m
      else if first_load m then gf_hook gf (register_call m) g (m'\<lparr>gm_pool_hooks := True\<rparr>)
      else m')"

text \<open>Why \<open>init\<close> does not return: the lock of a null context, the count at the largest \<open>int\<close>, or a
  null pool.\<close>

definition init_faults :: "gf_memory \<Rightarrow> fault \<Rightarrow> bool" where
  "init_faults m f \<longleftrightarrow> gm_dl_handle m \<noteq> NULL \<and>
     (f = Signed_Overflow \<and> \<not> c_int (gx_dlcount (gm_ctx m) + 1) \<or>
      f = Null_Deref \<and> first_load m \<and> gm_pool m = NULL)"

text \<open>The memory \<open>gf_rdma_init\<close> leaves, the shared context in it, and the memory found under the lock,
  for the answers \<open>priv\<close>, \<open>x\<close> and \<open>l\<close> of the three calls up to there.\<close>

abbreviation (input) ready_mem :: "glusterfs \<Rightarrow> gf_memory \<Rightarrow> addr \<Rightarrow> resp \<Rightarrow> gf_memory" where
  "ready_mem gf m priv x \<equiv> gf_hook gf Gf_init x (m\<lparr>gm_private := priv\<rparr>)"

abbreviation (input) shared_ib :: "glusterfs \<Rightarrow> gf_memory \<Rightarrow> addr \<Rightarrow> resp \<Rightarrow> addr" where
  "shared_ib gf m priv x \<equiv> gm_ib (ready_mem gf m priv x)"

abbreviation (input) locked_mem :: "glusterfs \<Rightarrow> gf_memory \<Rightarrow> addr \<Rightarrow> resp \<Rightarrow> resp \<Rightarrow> gf_memory" where
  "locked_mem gf m priv x l \<equiv> gf_hook gf (Mutex_lock (shared_ib gf m priv x)) l (ready_mem gf m priv x)"

definition init_end :: "glusterfs \<Rightarrow> gf_state \<Rightarrow> int outcome \<Rightarrow> gf_state \<Rightarrow> bool" where
  "init_end gf s r t \<longleftrightarrow> (\<exists>a x l g z.
     let ib = shared_ib gf (gs_mem s) (r_ptr a) x; m2 = locked_mem gf (gs_mem s) (r_ptr a) x l;
         steps = [(Gf_calloc_private, a), (Gf_init, x), (Mutex_lock ib, l)]
     in if r_ptr a = NULL then r = Ret (- 1) \<and> calls t = calls s @ take 1 steps \<and> gs_mem t = gs_mem s
        else if r_int x \<noteq> 0 then r = Ret (- 1) \<and> calls t = calls s @ take 2 steps @ [(Gf_free (r_ptr a), z)] \<and>
          gs_mem t = (ready_mem gf (gs_mem s) (r_ptr a) x)\<lparr>gm_private := NULL\<rparr>
        else if ib = NULL then r = Stop (Faulted Null_Deref) \<and> calls t = calls s @ take 2 steps
        else if \<exists>f. init_faults m2 f
        then (\<exists>f. r = Stop (Faulted f) \<and> init_faults m2 f) \<and> calls t = calls s @ steps
        else r = Ret 0 \<and> gs_mem t = loaded gf g m2 \<and>
          calls t = calls s @ steps @ (if first_load m2 then [(register_call m2, g)] else []) @ [(Mutex_unlock ib, z)])"

lemma init_end_none:
  "r_ptr a = NULL \<Longrightarrow> init_end gf s (Ret (- 1)) (s\<lparr>calls := calls s @ [(Gf_calloc_private, a)]\<rparr>)"
  unfolding init_end_def Let_def by (rule exI [of _ a]) simp

lemma init_end_freed:
  "r_ptr a \<noteq> NULL \<Longrightarrow> r_int x \<noteq> 0 \<Longrightarrow>
   init_end gf s (Ret (- 1)) (s\<lparr>gs_mem := (ready_mem gf (gs_mem s) (r_ptr a) x)\<lparr>gm_private := NULL\<rparr>,
     calls := calls s @ [(Gf_calloc_private, a), (Gf_init, x), (Gf_free (r_ptr a), z)]\<rparr>)"
  unfolding init_end_def Let_def by (rule exI [of _ a], rule exI [of _ x]) simp

lemma init_end_null:
  assumes "r_ptr a \<noteq> NULL" and "r_int x = 0" and "shared_ib gf (gs_mem s) (r_ptr a) x = NULL"
  shows "init_end gf s (Stop (Faulted Null_Deref)) (s\<lparr>calls := calls s @ [(Gf_calloc_private, a), (Gf_init, x)],
     gs_mem := ready_mem gf (gs_mem s) (r_ptr a) x\<rparr>)"
  unfolding init_end_def Let_def by (rule exI [of _ a], rule exI [of _ x]) (simp add: assms)

text \<open>From the lock on: \<open>u\<close> is a state in which the lock was just taken.\<close>

definition under_lock :: "glusterfs \<Rightarrow> gf_state \<Rightarrow> resp \<Rightarrow> resp \<Rightarrow> resp \<Rightarrow> gf_state \<Rightarrow> bool" where
  "under_lock gf s a x l u \<longleftrightarrow> r_ptr a \<noteq> NULL \<and> r_int x = 0 \<and> shared_ib gf (gs_mem s) (r_ptr a) x \<noteq> NULL \<and>
     calls u = calls s @ [(Gf_calloc_private, a), (Gf_init, x), (Mutex_lock (shared_ib gf (gs_mem s) (r_ptr a) x), l)] \<and>
     gs_mem u = locked_mem gf (gs_mem s) (r_ptr a) x l"

lemma init_end_fault:
  assumes "under_lock gf s a x l u" and "calls t = calls u" and "init_faults (gs_mem u) f"
  shows "init_end gf s (Stop (Faulted f)) t"
  unfolding init_end_def Let_def
  by (rule exI [of _ a], rule exI [of _ x], rule exI [of _ l]) (use assms in \<open>auto simp: under_lock_def\<close>)

lemma init_end_ok:
  assumes "under_lock gf s a x l u"
    and "calls t = calls u @ (if first_load (gs_mem u) then [(register_call (gs_mem u), g)] else []) @
      [(Mutex_unlock (shared_ib gf (gs_mem s) (r_ptr a) x), z)]"
    and "gs_mem t = loaded gf g (gs_mem u)" and "\<nexists>f. init_faults (gs_mem u) f"
  shows "init_end gf s (Ret 0) t"
  unfolding init_end_def Let_def
  by (rule exI [of _ a], rule exI [of _ x], rule exI [of _ l], rule exI [of _ g], rule exI [of _ z])
    (use assms in \<open>simp add: under_lock_def\<close>)

lemma static_load: "gm_dl_handle m = NULL \<Longrightarrow> loaded gf g m = m \<and> \<not> first_load m \<and> \<not> init_faults m f"
  by (simp add: loaded_def first_load_def init_faults_def)

lemma wp_count_load:
  "wp (count_load gf) (\<lambda>r t. let m = gs_mem s in
     (case r of
        Ret _ \<Rightarrow> (\<exists>g. calls t = calls s @ (if gx_dlcount (gm_ctx m) = 0 then [(register_call m, g)] else []) \<and>
          (gm_dl_handle m \<noteq> NULL \<longrightarrow> gs_mem t = loaded gf g m) \<and> (\<nexists>f. init_faults m f))
      | Stop x \<Rightarrow> calls t = calls s \<and> (\<exists>f. x = Faulted f \<and> (gm_dl_handle m \<noteq> NULL \<longrightarrow> init_faults m f)))) s"
  unfolding count_load_def Let_def
  by (auto simp: wp_simps loaded_def first_load_def register_call_def init_faults_def Let_def intro!: gf_rules)

lemma count_load_end:
  assumes "gm_dl_handle m \<noteq> NULL" and "gs_mem u = m"
  shows "wp (count_load gf) (\<lambda>r t.
     (case r of
        Ret _ \<Rightarrow> (\<exists>g. calls t = calls u @ (if first_load m then [(register_call m, g)] else []) \<and>
          gs_mem t = loaded gf g m \<and> (\<nexists>f. init_faults m f))
      | Stop x \<Rightarrow> calls t = calls u \<and> (\<exists>f. x = Faulted f \<and> init_faults m f))) u"
  using wp_count_load [of gf u] assms
  by (auto simp: Let_def first_load_def elim!: wp_mono split: outcome.splits)

lemma init_end_counted:
  assumes u: "under_lock gf s a x l u" and h: "gm_dl_handle (gs_mem u) \<noteq> NULL"
  shows "wp (count_load gf) (after (\<lambda>_. thenM (call_void (gf_env gf)
    (Mutex_unlock (shared_ib gf (gs_mem s) (r_ptr a) x))) (retM 0)) (init_end gf s)) u"
proof (rule wp_mono [OF count_load_end [OF h refl]])
  let ?m = "gs_mem u" and ?unlock = "Mutex_unlock (shared_ib gf (gs_mem s) (r_ptr a) x)"
  fix r :: "unit outcome" and t :: gf_state
  assume e: "case r of
      Ret _ \<Rightarrow> (\<exists>g. calls t = calls u @ (if first_load ?m then [(register_call ?m, g)] else []) \<and>
        gs_mem t = loaded gf g ?m \<and> (\<nexists>f. init_faults ?m f))
    | Stop e \<Rightarrow> calls t = calls u \<and> (\<exists>f. e = Faulted f \<and> init_faults ?m f)"
  show "after (\<lambda>_. thenM (call_void (gf_env gf) ?unlock) (retM 0)) (init_end gf s) r t"
  proof (cases r)
    case (Ret y)
    with e obtain g where "calls t = calls u @ (if first_load ?m then [(register_call ?m, g)] else [])"
      "gs_mem t = loaded gf g ?m" "\<nexists>f. init_faults ?m f" by auto
    then have "init_end gf s (Ret 0) (t\<lparr>calls := calls t @ [(?unlock, z)]\<rparr>)" for z
      by (intro init_end_ok [OF u, where g = g and z = z]) auto
    then show ?thesis using Ret by (auto simp: wp_simps intro!: wp_calls)
  next
    case (Stop e')
    then show ?thesis using e init_end_fault [OF u] by auto
  qed
qed

lemma init_end_uncounted:
  assumes "under_lock gf s a x l u" and "gm_dl_handle (gs_mem u) = NULL"
  shows "init_end gf s (Ret 0) (u\<lparr>calls := calls u @ [(Mutex_unlock (shared_ib gf (gs_mem s) (r_ptr a) x), z)]\<rparr>)"
  by (rule init_end_ok [OF assms(1), where g = resp0 and z = z]) (use static_load [OF assms(2)] in auto)

lemma under_lockI:
  "r_ptr a \<noteq> NULL \<Longrightarrow> r_int x = 0 \<Longrightarrow> shared_ib gf (gs_mem s) (r_ptr a) x \<noteq> NULL \<Longrightarrow>
   under_lock gf s a x l (s\<lparr>calls := calls s @ [(Gf_calloc_private, a), (Gf_init, x),
      (Mutex_lock (shared_ib gf (gs_mem s) (r_ptr a) x), l)], gs_mem := locked_mem gf (gs_mem s) (r_ptr a) x l\<rparr>)"
  by (simp add: under_lock_def)

lemma wp_load_locked:
  assumes "under_lock gf s a x l u"
  shows "wp (load_locked gf (shared_ib gf (gs_mem s) (r_ptr a) x)) (init_end gf s) u"
  unfolding load_locked_def
  using init_end_counted [OF assms] init_end_uncounted [OF assms]
  by (auto simp: wp_simps intro!: wp_calls)

lemma wp_transport_init: "wp (transport_init gf) (init_end gf s) s"
  unfolding transport_init_def
  by (auto simp: wp_simps init_end_none init_end_freed intro!: gf_rules init_end_null wp_load_locked [OF under_lockI])

text \<open>C31: every way \<open>init\<close> ends, from the answers to its calls.  It registers the buffer pool exactly when
  the load count goes from 0 to 1, and only for a dynamically loaded transport, and holds the lock
  while it does; a failed \<open>gf_rdma_init\<close> clears and frees the private part and touches nothing else.
  The test for a null context never helps: with a null \<open>this->ctx->ib\<close> the run faults at the lock in
  front of it, and with the lock held it faults exactly when the count overflows or there is no pool
  to register.  Here \<open>m1\<close> is the memory \<open>gf_rdma_init\<close> leaves and \<open>m2\<close> the one found under the
  lock.\<close>

theorem transport_init_cases:
  assumes "transport_init gf s = (r, t)"
  shows "\<exists>a x l g z.
     let m1 = gf_hook gf Gf_init x ((gs_mem s)\<lparr>gm_private := r_ptr a\<rparr>); ib = gm_ib m1;
         m2 = gf_hook gf (Mutex_lock ib) l m1;
         steps = [(Gf_calloc_private, a), (Gf_init, x), (Mutex_lock ib, l)]
     in if r_ptr a = NULL then r = Ret (- 1) \<and> calls t = calls s @ take 1 steps \<and> gs_mem t = gs_mem s
        else if r_int x \<noteq> 0 then r = Ret (- 1) \<and> calls t = calls s @ take 2 steps @ [(Gf_free (r_ptr a), z)] \<and>
          gs_mem t = m1\<lparr>gm_private := NULL\<rparr>
        else if ib = NULL then r = Stop (Faulted Null_Deref) \<and> calls t = calls s @ take 2 steps
        else if \<exists>f. init_faults m2 f
        then (\<exists>f. r = Stop (Faulted f) \<and> init_faults m2 f) \<and> calls t = calls s @ steps
        else r = Ret 0 \<and> gs_mem t = loaded gf g m2 \<and>
          calls t = calls s @ steps @ (if first_load m2 then [(register_call m2, g)] else []) @ [(Mutex_unlock ib, z)]"
  using wpD [OF wp_transport_init assms] unfolding init_end_def Let_def .

section \<open>Concrete runs\<close>

definition peer0 :: gf_rdma_peer where
  "peer0 = \<lparr>pe_trans = 6, pe_cm_id = 7, pe_qp = 0, pe_quota_set = 0, pe_recv_count = 9, pe_send_count = 8,
     pe_recv_size = 0, pe_send_size = 0, pe_quota = 0, pe_local_lid = 0, pe_local_psn = 0, pe_local_qpn = 0,
     pe_remote_lid = 0, pe_remote_psn = 0, pe_remote_qpn = 0\<rparr>"

definition gf_start :: gf_state where
  "gf_start = \<lparr>calls = [], gs_mem = \<lparr>gm_private = 1, gm_peer = peer0, gm_device = 0, gm_backlog = 10,
     gm_dl_handle = 42, gm_ib = 0, gm_ctx = \<lparr>gx_device = 0, gx_event_channel = 0, gx_dlcount = 0\<rparr>,
     gm_pool = 43, gm_pool_hooks = False\<rparr>\<rparr>"

text \<open>Two events, a disconnect and an unknown one, then a failing request; \<open>gf_rdma_init\<close> makes the
  shared context.\<close>

definition gf_host :: "gcall env" where
  "gf_host tr c = (case c of
       Gc_get_cm_event _ \<Rightarrow>
         (if tr = [] then resp0\<lparr>r_event := event0\<lparr>ev_addr := 33, ev_type := RDMA_CM_EVENT_DISCONNECTED, ev_id := 7\<rparr>\<rparr>
          else if length tr = 4 then resp0\<lparr>r_event := event0\<lparr>ev_addr := 34\<rparr>\<rparr>
          else resp0\<lparr>r_int := - 1\<rparr>)
     | _ \<Rightarrow> resp0\<lparr>r_ptr := 100 + length tr, r_str := Some ''mlx5_0''\<rparr>)"

definition gf_effect :: "gcall \<Rightarrow> resp \<Rightarrow> gf_memory \<Rightarrow> gf_memory" where
  "gf_effect c r m = (if c = Gf_init then m\<lparr>gm_ib := 40, gm_ctx := (gm_ctx m)\<lparr>gx_device := 41\<rparr>\<rparr> else m)"

definition gluster :: glusterfs where
  "gluster = \<lparr>gf_env = gf_host, gf_hook = gf_effect\<rparr>"

lemmas gf_defs = gf_rdma_cm_event_handler_def gf_turn_def gf_break_def gf_error_turn_def gf_this_def
  gf_ack_def gf_rdma_create_qp_def gf_create_body_def peer_verbs_def qp_attr_def transport_init_def
  load_locked_def count_load_def cmd_defs Let_def gf_host_def gf_effect_def gluster_def gf_start_def
  peer0_def resp0_def event0_def c_int_def

theorem gf_event_loop_accounts_witness:
  "\<exists>t. gf_rdma_cm_event_handler gluster (Suc (Suc (Suc 0))) 5 gf_start = (Ret (), t) \<and>
     (\<exists>a. gf_got t = gf_acked t @ [a])"
proof -
  have "fst (gf_rdma_cm_event_handler gluster (Suc (Suc (Suc 0))) 5 gf_start) = Ret ()"
    by (simp add: gf_defs)
  then obtain t where t: "gf_rdma_cm_event_handler gluster (Suc (Suc (Suc 0))) 5 gf_start = (Ret (), t)"
    by (metis prod.collapse)
  from gf_event_loop_accounts [OF t] have "\<exists>a. gf_got t = gf_acked t @ [a]"
    by (auto simp: gf_got_def gf_acked_def gf_start_def)
  with t show ?thesis by blast
qed

theorem gf_create_qp_cases_witness:
  "\<exists>t a b d q p. gf_rdma_create_qp gluster gf_start = (Ret 0, t) \<and>
     calls t = take (qp_made b d q) (qp_steps gluster (gs_mem gf_start) a b d q p)"
proof -
  have "fst (gf_rdma_create_qp gluster gf_start) = Ret 0" by (simp add: gf_defs)
  then obtain t where t: "gf_rdma_create_qp gluster gf_start = (Ret 0, t)" by (metis prod.collapse)
  have "calls gf_start = []" by (simp add: gf_start_def)
  then show ?thesis using gf_create_qp_cases [OF t] t unfolding Let_def by force
qed

theorem transport_init_cases_witness:
  "\<exists>t. transport_init gluster gf_start = (Ret 0, t) \<and>
     made gf_start t [Gf_calloc_private, Gf_init, Mutex_lock 40, Gf_register_iobuf_pool 41 43, Mutex_unlock 40]"
proof -
  have "fst (transport_init gluster gf_start) = Ret 0" by (simp add: gf_defs)
  then obtain t where t: "transport_init gluster gf_start = (Ret 0, t)" by (metis prod.collapse)
  show ?thesis
    using transport_init_cases [OF t] t
    by (auto simp: Let_def made_def gluster_def gf_effect_def gf_start_def first_load_def register_call_def
        split: if_split_asm)
qed

end
