(* ===== verification/Thrift_Transport.thy ===== *)
theory Thrift_Transport
  imports Extern
begin

text \<open>
  The transport interface taken over from Thrift: the template \<open>readAll\<close>, the class \<open>TTransport\<close>
  and \<open>TTransportFactory\<close> of \<open>src/src/interface/TTransport.h\<close>, and \<open>TTransportDefaults\<close> and the
  template \<open>TVirtualTransport\<close> of \<open>src/src/interface/TVirtualTransport.h\<close>.

  A method is a command on the state of the object and of memory.  An object of a class is its
  table of virtual methods; \<open>this\<close> of an inherited method is such a table.  A class derived from
  \<open>TVirtualTransport\<close> is given by its own non-virtual methods, \<open>None\<close> where it declares none, and
  by its \<open>Super_\<close>.  The tables refer to themselves through \<open>this\<close>, so they are built for a bounded
  depth of nested calls; a call that exceeds the depth runs out of fuel.  The bound of \<open>readAll\<close>
  is its number of turns.

  \<open>T_VIRTUAL_CALL\<close>, a statistics macro of Thrift that is not in the repository, is left out, and
  so are constructors and destructors, which do nothing.  A pointer to bytes is an address; the
  exception that is thrown carries its type and message.
\<close>

section \<open>The template readAll\<close>

text \<open>The local \<open>have\<close> is \<open>got\<close> here, \<open>have\<close> being a keyword.\<close>

type_synonym 's reader = "addr \<Rightarrow> 32 word \<Rightarrow> ('s, 32 word) cmd"

fun readAll_from :: "nat \<Rightarrow> 's reader \<Rightarrow> addr \<Rightarrow> 32 word \<Rightarrow> 32 word \<Rightarrow> ('s, 32 word) cmd" where
  "readAll_from 0 read_m buf len got = stopM Out_Of_Fuel"
| "readAll_from (Suc n) read_m buf len got =
     (if got < len then
        bindM (read_m (buf + unat got) (len - got)) (\<lambda>get.
        if get \<le> 0 then stopM (Threw END_OF_FILE ''No more data to read.'')
        else readAll_from n read_m buf len (got + get))
      else retM got)"

definition readAll :: "nat \<Rightarrow> 's reader \<Rightarrow> addr \<Rightarrow> 32 word \<Rightarrow> ('s, 32 word) cmd" where
  "readAll fuel read_m buf len = readAll_from fuel read_m buf len 0"

section \<open>TTransport\<close>

record 's transport =
  vt_isOpen :: "('s, bool) cmd"
  vt_peek :: "('s, bool) cmd"
  vt_open :: "('s, unit) cmd"
  vt_close :: "('s, unit) cmd"
  vt_read_virt :: "'s reader"
  vt_readAll_virt :: "'s reader"
  vt_readEnd :: "('s, 32 word) cmd"
  vt_write_virt :: "addr \<Rightarrow> 32 word \<Rightarrow> ('s, unit) cmd"
  vt_writeEnd :: "('s, 32 word) cmd"
  vt_flush :: "('s, unit) cmd"
  vt_borrow_virt :: "addr \<Rightarrow> addr \<Rightarrow> ('s, addr) cmd"
  vt_consume_virt :: "32 word \<Rightarrow> ('s, unit) cmd"
  vt_getOrigin :: "('s, string) cmd"

definition not_open :: "string \<Rightarrow> ('s, 'a) cmd" where
  "not_open msg = stopM (Threw NOT_OPEN msg)"

definition TTransport_isOpen :: "('s, bool) cmd" where
  "TTransport_isOpen = retM False"

definition TTransport_peek :: "'s transport \<Rightarrow> ('s, bool) cmd" where
  "TTransport_peek this = vt_isOpen this"

definition TTransport_open :: "('s, unit) cmd" where
  "TTransport_open = not_open ''Cannot open base TTransport.''"

definition TTransport_close :: "('s, unit) cmd" where
  "TTransport_close = not_open ''Cannot close base TTransport.''"

definition TTransport_read :: "'s transport \<Rightarrow> 's reader" where
  "TTransport_read this buf len = vt_read_virt this buf len"

definition TTransport_read_virt :: "'s reader" where
  "TTransport_read_virt buf len = not_open ''Base TTransport cannot read.''"

definition TTransport_readAll :: "'s transport \<Rightarrow> 's reader" where
  "TTransport_readAll this buf len = vt_readAll_virt this buf len"

definition TTransport_readAll_virt :: "nat \<Rightarrow> 's transport \<Rightarrow> 's reader" where
  "TTransport_readAll_virt fuel this buf len = readAll fuel (TTransport_read this) buf len"

definition TTransport_readEnd :: "('s, 32 word) cmd" where
  "TTransport_readEnd = retM 0"

definition TTransport_write :: "'s transport \<Rightarrow> addr \<Rightarrow> 32 word \<Rightarrow> ('s, unit) cmd" where
  "TTransport_write this buf len = vt_write_virt this buf len"

definition TTransport_write_virt :: "addr \<Rightarrow> 32 word \<Rightarrow> ('s, unit) cmd" where
  "TTransport_write_virt buf len = not_open ''Base TTransport cannot write.''"

definition TTransport_writeEnd :: "('s, 32 word) cmd" where
  "TTransport_writeEnd = retM 0"

definition TTransport_flush :: "('s, unit) cmd" where
  "TTransport_flush = retM ()"

definition TTransport_borrow :: "'s transport \<Rightarrow> addr \<Rightarrow> addr \<Rightarrow> ('s, addr) cmd" where
  "TTransport_borrow this buf len = vt_borrow_virt this buf len"

definition TTransport_borrow_virt :: "addr \<Rightarrow> addr \<Rightarrow> ('s, addr) cmd" where
  "TTransport_borrow_virt buf len = retM NULL"

definition TTransport_consume :: "'s transport \<Rightarrow> 32 word \<Rightarrow> ('s, unit) cmd" where
  "TTransport_consume this len = vt_consume_virt this len"

definition TTransport_consume_virt :: "32 word \<Rightarrow> ('s, unit) cmd" where
  "TTransport_consume_virt len = not_open ''Base TTransport cannot consume.''"

definition TTransport_getOrigin :: "('s, string) cmd" where
  "TTransport_getOrigin = retM ''Unknown''"

definition TTransportFactory_getTransport :: "'s transport \<Rightarrow> 's transport" where
  "TTransportFactory_getTransport tr = tr"

section \<open>TTransportDefaults\<close>

text \<open>Each method calls the base implementation directly, not through the table.\<close>

definition Defaults_read :: "'s reader" where
  "Defaults_read buf len = TTransport_read_virt buf len"

definition Defaults_readAll :: "nat \<Rightarrow> 's transport \<Rightarrow> 's reader" where
  "Defaults_readAll fuel this buf len = TTransport_readAll_virt fuel this buf len"

definition Defaults_write :: "addr \<Rightarrow> 32 word \<Rightarrow> ('s, unit) cmd" where
  "Defaults_write buf len = TTransport_write_virt buf len"

definition Defaults_borrow :: "addr \<Rightarrow> addr \<Rightarrow> ('s, addr) cmd" where
  "Defaults_borrow buf len = TTransport_borrow_virt buf len"

definition Defaults_consume :: "32 word \<Rightarrow> ('s, unit) cmd" where
  "Defaults_consume len = TTransport_consume_virt len"

section \<open>TVirtualTransport\<close>

text \<open>The template's two arguments: the methods \<open>Transport_\<close> declares itself, and \<open>Super_\<close>.\<close>

datatype super = TTransportDefaults | TTransport_itself

record 's transport_class =
  cl_super :: super
  cl_read :: "'s reader option"
  cl_readAll :: "'s reader option"
  cl_write :: "(addr \<Rightarrow> 32 word \<Rightarrow> ('s, unit) cmd) option"
  cl_borrow :: "(addr \<Rightarrow> addr \<Rightarrow> ('s, addr) cmd) option"
  cl_consume :: "(32 word \<Rightarrow> ('s, unit) cmd) option"

text \<open>What the names \<open>read\<close>, \<open>write\<close>, \<open>borrow\<close>, \<open>consume\<close> and \<open>readAll\<close> mean in \<open>Transport_\<close>: its
  own method, else that of the closest base class that has one.  For \<open>readAll\<close> that is the one of
  \<open>TVirtualTransport\<close>, for the others the one of \<open>Super_\<close>.\<close>

definition static_read :: "'s transport_class \<Rightarrow> 's transport \<Rightarrow> 's reader" where
  "static_read c this buf len = (case cl_read c of Some f \<Rightarrow> f buf len
     | None \<Rightarrow> (case cl_super c of TTransportDefaults \<Rightarrow> Defaults_read buf len
         | TTransport_itself \<Rightarrow> TTransport_read this buf len))"

definition TVirtual_readAll :: "nat \<Rightarrow> 's transport_class \<Rightarrow> 's transport \<Rightarrow> 's reader" where
  "TVirtual_readAll fuel c this buf len = readAll fuel (static_read c this) buf len"

definition static_readAll :: "nat \<Rightarrow> 's transport_class \<Rightarrow> 's transport \<Rightarrow> 's reader" where
  "static_readAll fuel c this buf len = (case cl_readAll c of Some f \<Rightarrow> f buf len
     | None \<Rightarrow> TVirtual_readAll fuel c this buf len)"

definition static_write :: "'s transport_class \<Rightarrow> 's transport \<Rightarrow> addr \<Rightarrow> 32 word \<Rightarrow> ('s, unit) cmd" where
  "static_write c this buf len = (case cl_write c of Some f \<Rightarrow> f buf len
     | None \<Rightarrow> (case cl_super c of TTransportDefaults \<Rightarrow> Defaults_write buf len
         | TTransport_itself \<Rightarrow> TTransport_write this buf len))"

definition static_borrow :: "'s transport_class \<Rightarrow> 's transport \<Rightarrow> addr \<Rightarrow> addr \<Rightarrow> ('s, addr) cmd" where
  "static_borrow c this buf len = (case cl_borrow c of Some f \<Rightarrow> f buf len
     | None \<Rightarrow> (case cl_super c of TTransportDefaults \<Rightarrow> Defaults_borrow buf len
         | TTransport_itself \<Rightarrow> TTransport_borrow this buf len))"

definition static_consume :: "'s transport_class \<Rightarrow> 's transport \<Rightarrow> 32 word \<Rightarrow> ('s, unit) cmd" where
  "static_consume c this len = (case cl_consume c of Some f \<Rightarrow> f len
     | None \<Rightarrow> (case cl_super c of TTransportDefaults \<Rightarrow> Defaults_consume len
         | TTransport_itself \<Rightarrow> TTransport_consume this len))"

text \<open>The table of an object of the class: the five overrides of \<open>TVirtualTransport\<close> call the
  static methods, everything else is inherited from \<open>TTransport\<close>.\<close>

definition too_deep :: "'s transport" where
  "too_deep = \<lparr>vt_isOpen = stopM Out_Of_Fuel, vt_peek = stopM Out_Of_Fuel, vt_open = stopM Out_Of_Fuel,
     vt_close = stopM Out_Of_Fuel, vt_read_virt = (\<lambda>_ _. stopM Out_Of_Fuel),
     vt_readAll_virt = (\<lambda>_ _. stopM Out_Of_Fuel), vt_readEnd = stopM Out_Of_Fuel,
     vt_write_virt = (\<lambda>_ _. stopM Out_Of_Fuel), vt_writeEnd = stopM Out_Of_Fuel,
     vt_flush = stopM Out_Of_Fuel, vt_borrow_virt = (\<lambda>_ _. stopM Out_Of_Fuel),
     vt_consume_virt = (\<lambda>_. stopM Out_Of_Fuel), vt_getOrigin = stopM Out_Of_Fuel\<rparr>"

fun vtable :: "nat \<Rightarrow> nat \<Rightarrow> 's transport_class \<Rightarrow> 's transport" where
  "vtable 0 fuel c = too_deep"
| "vtable (Suc d) fuel c =
     (let this = vtable d fuel c in
      \<lparr>vt_isOpen = TTransport_isOpen, vt_peek = TTransport_peek this, vt_open = TTransport_open,
       vt_close = TTransport_close, vt_read_virt = static_read c this,
       vt_readAll_virt = static_readAll fuel c this, vt_readEnd = TTransport_readEnd,
       vt_write_virt = static_write c this, vt_writeEnd = TTransport_writeEnd,
       vt_flush = TTransport_flush, vt_borrow_virt = static_borrow c this,
       vt_consume_virt = static_consume c this, vt_getOrigin = TTransport_getOrigin\<rparr>)"

end
