(* ===== verification/Thrift_Properties.thy ===== *)
theory Thrift_Properties
  imports Thrift_Transport
begin

text \<open>
  What the Thrift interface promises: \<open>readAll\<close> over a method that reads from a stream delivers
  exactly the requested bytes or throws, in a bounded number of turns; a call through the base
  class and a direct call of the same method agree; and the base class alone only throws.
\<close>

section \<open>Byte sources\<close>

text \<open>Memory as the buffers see it, and \<open>xs\<close> stored from address \<open>b\<close> on.\<close>

record buffers =
  mem :: "addr \<Rightarrow> 8 word"

definition store :: "(addr \<Rightarrow> 8 word) \<Rightarrow> addr \<Rightarrow> 8 word list \<Rightarrow> addr \<Rightarrow> 8 word" where
  "store m b xs = (\<lambda>a. if b \<le> a \<and> a < b + length xs then xs ! (a - b) else m a)"

lemma store_Nil [simp]: "store m b [] = m"
  by (auto simp: store_def fun_eq_iff)

lemma store_append: "store (store m b xs) (b + length xs) ys = store m b (xs @ ys)"
  by (auto simp: store_def fun_eq_iff nth_append algebra_simps)

text \<open>
  The documented contract of \<open>read\<close>: it reads up to the requested number of bytes, returns how
  many it read, and reads none only at the end of the stream.  \<open>pending\<close> is what is still to come.
\<close>

definition byte_source :: "('z buffers_scheme) reader \<Rightarrow> ('z buffers_scheme \<Rightarrow> 8 word list) \<Rightarrow> bool" where
  "byte_source rd pending \<longleftrightarrow> (\<forall>b n s. 0 < n \<longrightarrow> (\<exists>k t. rd b n s = (Ret (of_nat k), t) \<and>
     k \<le> unat n \<and> k \<le> length (pending s) \<and> (k = 0 \<longleftrightarrow> pending s = []) \<and>
     pending t = drop k (pending s) \<and> mem t = store (mem s) b (take k (pending s))))"

lemma byte_sourceE:
  assumes "byte_source rd pending" and "0 < n"
  obtains k t where "rd b n s = (Ret (of_nat k), t)" "k \<le> unat n" "k \<le> length (pending s)"
    "k = 0 \<longleftrightarrow> pending s = []" "pending t = drop k (pending s)"
    "mem t = store (mem s) b (take k (pending s))"
  using assms unfolding byte_source_def by meson

section \<open>Words that count bytes\<close>

lemma unat_of_nat_le: "k \<le> unat (n :: 32 word) \<Longrightarrow> unat (of_nat k :: 32 word) = k"
  by (metis le_unat_uoi)

lemma unat_minus: "h < n \<Longrightarrow> unat (n - h) = unat n - unat h" for h n :: "32 word"
  by (simp add: unat_sub less_imp_le)

lemma unat_plus_get:
  fixes got len :: "32 word"
  assumes "got < len" and "k \<le> unat (len - got)"
  shows "unat (got + of_nat k) = unat got + k" and "got + of_nat k \<le> len"
proof -
  have k: "unat got + k \<le> unat len"
    using assms by (simp add: unat_minus word_less_nat_alt)
  have "unat len < 2 ^ LENGTH(32)" by (fact unsigned_less)
  then have "unat got + unat (of_nat k :: 32 word) < 2 ^ LENGTH(32)"
    using k unat_of_nat_le [OF assms(2)] by simp
  from iffD1 [OF unat_add_lem this] show *: "unat (got + of_nat k) = unat got + k"
    using unat_of_nat_le [OF assms(2)] by simp
  show "got + of_nat k \<le> len" using k by (simp add: word_le_nat_alt *)
qed

section \<open>readAll\<close>

text \<open>From \<open>have\<close> bytes on: either the rest is delivered or the stream ends.\<close>

definition delivered_all :: "('z buffers_scheme \<Rightarrow> 8 word list) \<Rightarrow> addr \<Rightarrow> 32 word \<Rightarrow> nat \<Rightarrow> 'z buffers_scheme
    \<Rightarrow> 32 word outcome \<times> 'z buffers_scheme \<Rightarrow> bool" where
  "delivered_all pending b len n s rt \<longleftrightarrow>
     (if n \<le> length (pending s)
      then fst rt = Ret len \<and> pending (snd rt) = drop n (pending s) \<and>
        mem (snd rt) = store (mem s) b (take n (pending s))
      else fst rt = Stop (Threw END_OF_FILE ''No more data to read.'') \<and> pending (snd rt) = [] \<and>
        mem (snd rt) = store (mem s) b (pending s))"

lemma readAll_from_delivers:
  assumes src: "byte_source rd pending"
  shows "got \<le> len \<Longrightarrow> unat len - unat got < fuel \<Longrightarrow>
    delivered_all pending (buf + unat got) len (unat len - unat got) s (readAll_from fuel rd buf len got s)"
proof (induction fuel arbitrary: got s)
  case (Suc fuel)
  show ?case
  proof (cases "got < len")
    case False
    with Suc.prems(1) have "got = len" by simp
    then show ?thesis by (simp add: delivered_all_def retM_def)
  next
    case True
    then have pos: "0 < len - got"
      by (simp add: word_less_nat_alt unat_minus)
    obtain k t where k: "rd (buf + unat got) (len - got) s = (Ret (of_nat k), t)"
      "k \<le> unat (len - got)" "k \<le> length (pending s)" "k = 0 \<longleftrightarrow> pending s = []"
      "pending t = drop k (pending s)" "mem t = store (mem s) (buf + unat got) (take k (pending s))"
      by (rule byte_sourceE [OF src pos])
    note u = unat_plus_get [OF True k(2)]
    have some: "unat got < unat len" using True by (simp add: word_less_nat_alt)
    show ?thesis
    proof (cases "k = 0")
      case True
      then show ?thesis
        using k some \<open>got < len\<close> by (auto simp: delivered_all_def bindM_def stopM_def)
    next
      case False
      have "(of_nat k :: 32 word) \<noteq> 0"
        using False unat_of_nat_le [OF k(2)] by (metis unat_0)
      then have step: "readAll_from (Suc fuel) rd buf len got s = readAll_from fuel rd buf len (got + of_nat k) t"
        using True k(1) by (simp add: bindM_def)
      have IH: "delivered_all pending (buf + unat (got + of_nat k)) len (unat len - unat (got + of_nat k)) t
          (readAll_from fuel rd buf len (got + of_nat k) t)"
        by (rule Suc.IH) (use u False some Suc.prems(2) in \<open>auto simp: word_le_nat_alt\<close>)
      have k_le: "k \<le> unat len - unat got" using k(2) True by (simp add: unat_minus)
      then obtain r where r: "unat len - unat got = k + r" "unat len - (unat got + k) = r"
        by (metis diff_diff_left le_add_diff_inverse)
      have mem_t: "store (mem t) (buf + (unat got + k)) ys =
          store (mem s) (buf + unat got) (take k (pending s) @ ys)" for ys
        using store_append [of "mem s" "buf + unat got" "take k (pending s)" ys] k(3,6)
        by (simp add: add.assoc)
      show ?thesis
        using IH k(3,5) unfolding step delivered_all_def u(1) mem_t r
        by (auto simp: take_add add.commute split: if_splits)
    qed
  qed
qed simp


text \<open>A method that never reports more than it was asked for ends the loop.\<close>

lemma readAll_from_ends:
  assumes le: "\<And>b n s r t. rd b n s = (Ret r, t) \<Longrightarrow> r \<le> n"
    and fuel_ok: "\<And>b n s. fst (rd b n s) \<noteq> Stop Out_Of_Fuel"
  shows "got \<le> len \<Longrightarrow> unat len - unat got < fuel \<Longrightarrow>
    (case fst (readAll_from fuel rd buf len got s) of Ret x \<Rightarrow> x = len | Stop e \<Rightarrow> e \<noteq> Out_Of_Fuel)"
proof (induction fuel arbitrary: got s)
  case (Suc fuel)
  show ?case
  proof (cases "got < len")
    case False
    with Suc.prems(1) show ?thesis by (simp add: retM_def)
  next
    case True
    obtain r t where rt: "rd (buf + unat got) (len - got) s = (r, t)" by fastforce
    show ?thesis
    proof (cases r)
      case (Stop e)
      with rt fuel_ok [of "buf + unat got" "len - got" s] True show ?thesis by (simp add: bindM_def)
    next
      case (Ret x)
      have x: "unat x \<le> unat (len - got)"
        using le [of "buf + unat got" "len - got" s x t] rt Ret by (simp add: word_le_nat_alt)
      note u = unat_plus_get [OF True x]
      show ?thesis
      proof (cases "x = 0")
        case True
        with rt Ret \<open>got < len\<close> show ?thesis by (simp add: bindM_def stopM_def)
      next
        case False
        then have "0 < unat x" by (simp add: unat_gt_0)
        then have "case fst (readAll_from fuel rd buf len (got + x) t) of Ret y \<Rightarrow> y = len
            | Stop e \<Rightarrow> e \<noteq> Out_Of_Fuel"
          by (intro Suc.IH) (use u True Suc.prems(2) in \<open>auto simp: word_less_nat_alt word_le_nat_alt\<close>)
        with rt Ret True False show ?thesis by (simp add: bindM_def)
      qed
    qed
  qed
qed simp

section \<open>Properties of readAll\<close>

text \<open>C32: \<open>readAll\<close> over a byte source, with one turn per byte and one more.  When the stream still
  holds the requested bytes, exactly these are stored at the buffer, in order, they are gone from
  the stream, and the request is returned; otherwise the rest of the stream is stored and the
  end-of-file exception thrown.  This holds however \<open>read\<close> cuts the stream into pieces, and a call
  of \<open>readAll\<close> through the base class of any class that declares this \<open>read\<close> and no \<open>readAll\<close> of its
  own is such a call.\<close>

theorem readAll_exact:
  assumes "byte_source rd pending" and "unat len < fuel"
  shows "TTransport_readAll (vtable (Suc d) fuel (c\<lparr>cl_read := Some rd, cl_readAll := None\<rparr>)) buf len s =
      readAll fuel rd buf len s \<and>
    (if unat len \<le> length (pending s)
     then \<exists>t. readAll fuel rd buf len s = (Ret len, t) \<and> pending t = drop (unat len) (pending s) \<and>
       mem t = store (mem s) buf (take (unat len) (pending s))
     else \<exists>t. readAll fuel rd buf len s = (Stop (Threw END_OF_FILE ''No more data to read.''), t) \<and>
       pending t = [] \<and> mem t = store (mem s) buf (pending s))"
proof -
  have virt: "TTransport_readAll (vtable (Suc d) fuel (c\<lparr>cl_read := Some rd, cl_readAll := None\<rparr>)) buf len s =
      readAll fuel rd buf len s"
  proof -
    have "static_read (c\<lparr>cl_read := Some rd, cl_readAll := None\<rparr>) this = rd" for this
      by (intro ext) (simp add: static_read_def)
    then show ?thesis
      by (simp add: TTransport_readAll_def static_readAll_def TVirtual_readAll_def Let_def)
  qed
  have "delivered_all pending (buf + unat (0 :: 32 word)) len (unat len - unat (0 :: 32 word)) s
      (readAll_from fuel rd buf len 0 s)"
    by (rule readAll_from_delivers [OF assms(1)]) (use assms(2) in simp_all)
  then show ?thesis
    unfolding virt delivered_all_def readAll_def
    by (cases "readAll_from fuel rd buf len 0 s"; cases "unat len \<le> length (pending s)") simp_all
qed

text \<open>C33: \<open>readAll\<close> ends.  If \<open>read\<close> never reports more bytes than requested, one turn per requested
  byte and one more are enough, and what is returned is the request itself, whatever else \<open>read\<close>
  does; the only other outcome is an exception.\<close>

theorem readAll_ends:
  assumes "\<And>b n s r t. rd b n s = (Ret r, t) \<Longrightarrow> r \<le> n"
    and "\<And>b n s. fst (rd b n s) \<noteq> Stop Out_Of_Fuel"
    and "unat len < fuel"
  shows "case fst (readAll fuel rd buf len s) of Ret x \<Rightarrow> x = len | Stop e \<Rightarrow> e \<noteq> Out_Of_Fuel"
  unfolding readAll_def by (rule readAll_from_ends [OF assms(1,2)]) (use assms(3) in simp_all)

text \<open>A run of reads: turn \<open>i\<close> was asked for what is missing after the reports before it, at the place
  behind them, and reported \<open>r i\<close> bytes.  The sums are those of 32-bit words.\<close>

definition reads_report :: "'s reader \<Rightarrow> addr \<Rightarrow> 32 word \<Rightarrow> nat \<Rightarrow> (nat \<Rightarrow> 32 word) \<Rightarrow> (nat \<Rightarrow> 's) \<Rightarrow> bool" where
  "reads_report rd buf len n r st \<longleftrightarrow> (\<forall>i<n. sum r {..<i} < len \<and> r i \<noteq> 0 \<and>
     rd (buf + unat (sum r {..<i})) (len - sum r {..<i}) (st i) = (Ret (r i), st (Suc i)))"

lemma readAll_from_reports:
  assumes "reads_report rd buf len n r st"
  shows "i + m \<le> n \<Longrightarrow> readAll_from (m + fuel) rd buf len (sum r {..<i}) (st i) =
    readAll_from fuel rd buf len (sum r {..<i + m}) (st (i + m))"
proof (induction m arbitrary: i)
  case (Suc m)
  then have i: "sum r {..<i} < len" "r i \<noteq> 0"
    "rd (buf + unat (sum r {..<i})) (len - sum r {..<i}) (st i) = (Ret (r i), st (Suc i))"
    using assms by (simp_all add: reads_report_def)
  have "readAll_from (Suc m + fuel) rd buf len (sum r {..<i}) (st i) =
      readAll_from (m + fuel) rd buf len (sum r {..<Suc i}) (st (Suc i))"
    using i by (simp add: bindM_def)
  also have "\<dots> = readAll_from fuel rd buf len (sum r {..<Suc i + m}) (st (Suc i + m))"
    by (rule Suc.IH) (use Suc.prems in simp)
  finally show ?case by simp
qed simp

lemma unat_sum_reports: "unat (sum r {..<n}) = (\<Sum>i<n. unat (r i)) mod 2 ^ 32" for r :: "nat \<Rightarrow> 32 word"
proof (induction n)
  case (Suc n)
  have "unat (sum r {..<Suc n}) = (unat (sum r {..<n}) + unat (r n)) mod 2 ^ 32"
    by (simp add: unat_word_ariths)
  then show ?case by (simp add: Suc mod_add_left_eq)
qed simp

text \<open>C34: \<open>readAll\<close> never checks a report.  After any run of reads with reports that are not zero,
  however large, the loop goes on as long as their sum, which wraps at 32 bits, is below the
  request, and otherwise returns this sum: so it can return more than was asked for, return although
  the wrap made it short of what was read, or go on for ever.\<close>

theorem readAll_trusts_read:
  assumes "reads_report rd buf len n r st"
  shows "unat (sum r {..<n}) = (\<Sum>i<n. unat (r i)) mod 2 ^ 32 \<and>
    (if sum r {..<n} < len then readAll n rd buf len (st 0) = (Stop Out_Of_Fuel, st n)
     else readAll (Suc (n + k)) rd buf len (st 0) = (Ret (sum r {..<n}), st n))"
  using readAll_from_reports [OF assms, of 0 n 0] readAll_from_reports [OF assms, of 0 n "Suc k"]
  by (simp add: readAll_def unat_sum_reports stopM_def retM_def)

section \<open>Properties of the classes\<close>

lemmas base_defs = TTransport_isOpen_def TTransport_peek_def TTransport_open_def TTransport_close_def
  TTransport_read_def TTransport_read_virt_def TTransport_readAll_def TTransport_readAll_virt_def
  TTransport_readEnd_def TTransport_write_def TTransport_write_virt_def TTransport_writeEnd_def
  TTransport_flush_def TTransport_borrow_def TTransport_borrow_virt_def TTransport_consume_def
  TTransport_consume_virt_def TTransport_getOrigin_def not_open_def

lemmas static_defs = static_read_def static_readAll_def static_write_def static_borrow_def
  static_consume_def Defaults_read_def Defaults_write_def Defaults_borrow_def Defaults_consume_def
  TVirtual_readAll_def

lemma TTransport_read_eta: "TTransport_read this = vt_read_virt this"
  by (intro ext) (simp add: TTransport_read_def)

text \<open>With \<open>TTransportDefaults\<close> below, no static method looks at the table.\<close>

lemma static_no_this:
  assumes "cl_super c = TTransportDefaults"
  shows "static_read c this = static_read c other" "static_readAll fuel c this = static_readAll fuel c other"
    "static_write c this = static_write c other" "static_borrow c this = static_borrow c other"
    "static_consume c this = static_consume c other"
proof -
  show r: "static_read c this = static_read c other"
    using assms by (auto simp: static_read_def fun_eq_iff split: option.splits)
  show "static_readAll fuel c this = static_readAll fuel c other"
    by (auto simp: static_readAll_def TVirtual_readAll_def r fun_eq_iff split: option.splits)
qed (use assms in \<open>auto simp: static_write_def static_borrow_def static_consume_def fun_eq_iff
      split: option.splits\<close>)

text \<open>Virtual and direct calls agree.  For every class over \<open>TVirtualTransport\<close> with
  \<open>TTransportDefaults\<close>, calling \<open>read\<close>, \<open>readAll\<close>, \<open>write\<close>, \<open>borrow\<close> or \<open>consume\<close> through a base class
  reference, with one level of virtual calls, does what calling the class's own method directly
  does; and when the class declares no \<open>readAll\<close>, the one it gets loops over the class's own
  \<open>read\<close>, just as the base class's loop over the virtual \<open>read\<close> would.\<close>

theorem virtual_calls_agree:
  fixes c :: "'s transport_class"
  shows "let k = c\<lparr>cl_super := TTransportDefaults\<rparr>; obj = vtable (Suc d) fuel k in
    TTransport_read obj b n s = static_read k this b n s \<and>
    TTransport_readAll obj b n s = static_readAll fuel k this b n s \<and>
    TTransport_write obj b n s = static_write k this b n s \<and>
    TTransport_borrow obj b l s = static_borrow k this b l s \<and>
    TTransport_consume obj n s = static_consume k this n s \<and>
    (let obj' = vtable (Suc d) fuel (k\<lparr>cl_readAll := None\<rparr>) in
       TTransport_readAll obj' b n s = TTransport_readAll_virt fuel obj' b n s)"
proof -
  let ?k = "c\<lparr>cl_super := TTransportDefaults\<rparr>"
  have eq: "static_read ?k (vtable d fuel ?k) = static_read ?k this"
    "static_readAll fuel ?k (vtable d fuel ?k) = static_readAll fuel ?k this"
    "static_write ?k (vtable d fuel ?k) = static_write ?k this"
    "static_borrow ?k (vtable d fuel ?k) = static_borrow ?k this"
    "static_consume ?k (vtable d fuel ?k) = static_consume ?k this"
    by (rule static_no_this; simp)+
  have loop: "TTransport_readAll (vtable (Suc d) fuel (?k\<lparr>cl_readAll := None\<rparr>)) b n s =
      TTransport_readAll_virt fuel (vtable (Suc d) fuel (?k\<lparr>cl_readAll := None\<rparr>)) b n s"
    by (simp add: TTransport_readAll_def TTransport_readAll_virt_def TTransport_read_eta
        static_readAll_def TVirtual_readAll_def Let_def)
  show ?thesis
    unfolding Let_def using loop
    by (simp add: eq TTransport_read_def TTransport_readAll_def TTransport_write_def
        TTransport_borrow_def TTransport_consume_def)
qed


text \<open>C35: what \<open>TTransportDefaults\<close> is for.  If a class over \<open>TVirtualTransport\<close> does not declare
  \<open>read\<close> (or \<open>write\<close>, \<open>borrow\<close>, \<open>consume\<close>) and \<open>Super_\<close> is \<open>TTransport\<close> itself, the call runs in a
  circle: no depth of calls is enough.  With \<open>TTransportDefaults\<close> the same call reaches the
  base class's implementation at once and has no other effect.\<close>

theorem defaults_prevent_recursion:
  fixes c :: "'s transport_class"
  shows "let none = c\<lparr>cl_read := None, cl_write := None, cl_borrow := None, cl_consume := None\<rparr>;
      plain = vtable d fuel (none\<lparr>cl_super := TTransport_itself\<rparr>);
      obj = vtable (Suc d) fuel (none\<lparr>cl_super := TTransportDefaults\<rparr>) in
    TTransport_read plain b n s = (Stop Out_Of_Fuel, s) \<and>
    TTransport_write plain b n s = (Stop Out_Of_Fuel, s) \<and>
    TTransport_borrow plain b l s = (Stop Out_Of_Fuel, s) \<and>
    TTransport_consume plain n s = (Stop Out_Of_Fuel, s) \<and>
    TTransport_read obj b n s = (Stop (Threw NOT_OPEN ''Base TTransport cannot read.''), s) \<and>
    TTransport_write obj b n s = (Stop (Threw NOT_OPEN ''Base TTransport cannot write.''), s) \<and>
    TTransport_borrow obj b l s = (Ret NULL, s) \<and>
    TTransport_consume obj n s = (Stop (Threw NOT_OPEN ''Base TTransport cannot consume.''), s)"
proof -
  let ?p = "c\<lparr>cl_read := None, cl_write := None, cl_borrow := None, cl_consume := None, cl_super := TTransport_itself\<rparr>"
  have "TTransport_read (vtable d fuel ?p) b n s = (Stop Out_Of_Fuel, s) \<and>
    TTransport_write (vtable d fuel ?p) b n s = (Stop Out_Of_Fuel, s) \<and>
    TTransport_borrow (vtable d fuel ?p) b l s = (Stop Out_Of_Fuel, s) \<and>
    TTransport_consume (vtable d fuel ?p) n s = (Stop Out_Of_Fuel, s)"
  proof (induction d)
    case 0
    show ?case
      by (simp add: TTransport_read_def TTransport_write_def TTransport_borrow_def
          TTransport_consume_def too_deep_def stopM_def)
  next
    case (Suc d)
    then show ?case
      by (simp add: TTransport_read_def TTransport_write_def TTransport_borrow_def
          TTransport_consume_def static_defs Let_def)
  qed
  then show ?thesis
    by (simp add: Let_def base_defs static_defs stopM_def retM_def)
qed

text \<open>A class that declares nothing only fails.  Through the base class it cannot be opened or
  closed, read, written or consumed from (each with the exception of its own message), is not
  open and has nothing to peek at, lends no memory, and has an unknown origin; reading all of
  nothing succeeds, reading all of something throws the error of \<open>read\<close>, not the end of the file.
  No call changes the state.\<close>

theorem bare_class_fails:
  "let obj = vtable (Suc (Suc d)) (Suc fuel) \<lparr>cl_super = TTransportDefaults, cl_read = None,
      cl_readAll = None, cl_write = None, cl_borrow = None, cl_consume = None\<rparr> in
    vt_isOpen obj s = (Ret False, s) \<and> vt_peek obj s = (Ret False, s) \<and>
    vt_open obj s = (Stop (Threw NOT_OPEN ''Cannot open base TTransport.''), s) \<and>
    vt_close obj s = (Stop (Threw NOT_OPEN ''Cannot close base TTransport.''), s) \<and>
    TTransport_readAll obj b n s =
      ((if n = 0 then Ret 0 else Stop (Threw NOT_OPEN ''Base TTransport cannot read.'')), s) \<and>
    TTransport_write obj b n s = (Stop (Threw NOT_OPEN ''Base TTransport cannot write.''), s) \<and>
    TTransport_borrow obj b l s = (Ret NULL, s) \<and>
    TTransport_consume obj n s = (Stop (Threw NOT_OPEN ''Base TTransport cannot consume.''), s) \<and>
    vt_readEnd obj s = (Ret 0, s) \<and> vt_writeEnd obj s = (Ret 0, s) \<and> vt_flush obj s = (Ret (), s) \<and>
    vt_getOrigin obj s = (Ret ''Unknown'', s)"
  by (simp add: Let_def base_defs static_defs readAll_def stopM_def retM_def bindM_def word_neq_0_conv)

section \<open>A concrete source\<close>

text \<open>A stream read one byte at a time.\<close>

record stream_state = buffers +
  st_rest :: "8 word list"

definition one_byte :: "stream_state reader" where
  "one_byte b n s = (case st_rest s of [] \<Rightarrow> (Ret 0, s)
     | x # xs \<Rightarrow> (Ret 1, s\<lparr>mem := store (mem s) b [x], st_rest := xs\<rparr>))"

lemma one_byte_source: "byte_source one_byte st_rest"
  unfolding byte_source_def
proof (intro allI impI)
  fix b :: addr and n :: "32 word" and s
  assume "0 < n"
  then have n: "Suc 0 \<le> unat n" by (simp add: word_less_nat_alt)
  show "\<exists>k t. one_byte b n s = (Ret (of_nat k), t) \<and> k \<le> unat n \<and> k \<le> length (st_rest s) \<and>
    (k = 0 \<longleftrightarrow> st_rest s = []) \<and> st_rest t = drop k (st_rest s) \<and>
    mem t = store (mem s) b (take k (st_rest s))"
  proof (cases "st_rest s")
    case Nil
    then show ?thesis by (intro exI [of _ 0]) (simp add: one_byte_def)
  next
    case (Cons x xs)
    then show ?thesis using n by (intro exI [of _ "Suc 0"]) (simp add: one_byte_def)
  qed
qed

theorem readAll_exact_witness:
  "\<exists>t. readAll 4 one_byte 100 3 \<lparr>mem = (\<lambda>_. 0), st_rest = [7, 8, 9, 10]\<rparr> = (Ret 3, t) \<and>
     st_rest t = [10] \<and> mem t 102 = 9"
  using conjunct2 [OF readAll_exact [OF one_byte_source, where len = 3 and fuel = 4 and buf = 100
      and s = "\<lparr>mem = (\<lambda>_. 0), st_rest = [7, 8, 9, 10]\<rparr>"]]
  by (auto simp: store_def)

lemma one_byte_reports: "one_byte b n s = (Ret r, t) \<Longrightarrow> r \<le> 1"
  by (auto simp: one_byte_def split: list.splits)

text \<open>Reading at most what was asked for, one byte at a time.\<close>

definition up_to_one :: "stream_state reader" where
  "up_to_one b n = (if n = 0 then retM 0 else one_byte b n)"

lemma two_halves: "sum (\<lambda>_. 0x80000000) {..<n :: nat} \<in> {0, 0x80000000 :: 32 word}"
  by (induction n) auto

theorem readAll_trusts_read_witness:
  "fst (readAll (Suc (Suc 0)) (\<lambda>_ _. retM 7) 100 5 ()) = Ret 7 \<and>
   (\<forall>n. fst (readAll n (\<lambda>_ _. retM 0x80000000) 100 0x80000001 ()) = Stop Out_Of_Fuel)"
proof (intro conjI allI)
  have "reads_report (\<lambda>_ _. retM 7) 100 5 1 (\<lambda>_. 7) (\<lambda>_. ())"
    by (simp add: reads_report_def retM_def)
  from readAll_trusts_read [OF this, of 0] show "fst (readAll (Suc (Suc 0)) (\<lambda>_ _. retM 7) 100 5 ()) = Ret 7"
    by simp
next
  fix n
  have below: "sum (\<lambda>_. 0x80000000) {..<i} < (0x80000001 :: 32 word)" for i :: nat
    using two_halves [of i] by auto
  then have "reads_report (\<lambda>_ _. retM 0x80000000) 100 0x80000001 n (\<lambda>_. 0x80000000) (\<lambda>_. ())"
    unfolding reads_report_def by (simp add: retM_def del: sum_constant)
  from readAll_trusts_read [OF this, of 0] below [of n]
  show "fst (readAll n (\<lambda>_ _. retM 0x80000000) 100 0x80000001 ()) = Stop Out_Of_Fuel"
    by (simp del: sum_constant)
qed

theorem readAll_ends_witness:
  "case fst (readAll 6 up_to_one 100 5 \<lparr>mem = (\<lambda>_. 0), st_rest = [7]\<rparr>) of
     Ret x \<Rightarrow> x = 5 | Stop e \<Rightarrow> e \<noteq> Out_Of_Fuel"
proof (rule readAll_ends)
  fix b n s r t
  assume "up_to_one b n s = (Ret r, t)"
  moreover have "Suc 0 \<le> unat n" if "n \<noteq> 0" using that by (simp add: Suc_le_eq unat_gt_0)
  ultimately show "r \<le> n"
    using one_byte_reports [of b n s r t]
    by (auto simp: up_to_one_def retM_def word_le_nat_alt split: if_splits)
next
  fix b n s
  show "fst (up_to_one b n s) \<noteq> Stop Out_Of_Fuel"
    by (simp add: up_to_one_def one_byte_def retM_def split: list.splits)
qed simp

end
