(* ===== verification/Port_Posix.thy ===== *)
theory Port_Posix
  imports Extern
begin

text \<open>
  The port layer taken over from LevelDB, \<open>src/src/utils/port_posix.cc\<close> and \<open>port_posix.h\<close>: the
  wrappers around POSIX threads, which abort on every error, and the Snappy functions.

  The calls of libpthread answer through the environment.  A \<open>Mutex\<close> or \<open>CondVar\<close> object is its
  address, which is also the address of its first member (\<open>mu_\<close>, \<open>cv_\<close>); what the member
  \<open>CondVar::mu_\<close> points to is kept in the state.  The text printed before \<open>abort\<close> is left out.
  The Snappy library is a parameter, \<open>None\<close> where the macro \<open>SNAPPY\<close> is not defined.
\<close>

section \<open>Threads\<close>

datatype pthread_call =
    Mutex_init addr
  | Mutex_destroy addr
  | Mutex_lock addr
  | Mutex_unlock addr
  | Cond_init addr
  | Cond_destroy addr
  | Cond_wait addr addr
  | Cond_signal addr
  | Cond_broadcast addr
  | Pthread_once addr addr

record port_state = "pthread_call world" +
  cv_mu :: "addr \<Rightarrow> addr"     \<comment> \<open>the member \<open>mu_\<close> of each \<open>CondVar\<close>\<close>

definition PthreadCall :: "int \<Rightarrow> (port_state, unit) cmd" where
  "PthreadCall result = (if result \<noteq> 0 then stopM Aborted else retM ())"



definition Lock :: "pthread_call env \<Rightarrow> addr \<Rightarrow> (port_state, unit) cmd" where
  "Lock env this = bindM (call_int env (Mutex_lock this)) PthreadCall"

definition Unlock :: "pthread_call env \<Rightarrow> addr \<Rightarrow> (port_state, unit) cmd" where
  "Unlock env this = bindM (call_int env (Mutex_unlock this)) PthreadCall"

definition AssertHeld :: "(port_state, unit) cmd" where
  "AssertHeld = retM ()"







section \<open>The contract of a wrapper\<close>

text \<open>A wrapper makes one call, which may depend on the state, and returns exactly when the
  answer is 0.  Programs that go through such wrappers never see an error.\<close>

locale checked_call =
  fixes env :: "pthread_call env" and wrapper :: "(port_state, unit) cmd" and call :: pthread_call
  assumes runs: "wrapper s = (if r_int (env (calls s) call) = 0 then Ret () else Stop Aborted,
    s\<lparr>calls := calls s @ [(call, env (calls s) call)]\<rparr>)"
begin

lemma returns_iff: "fst (wrapper s) = Ret () \<longleftrightarrow> r_int (env (calls s) call) = 0"
  by (simp add: runs)

lemma one_call: "calls (snd (wrapper s)) = calls s @ [(call, env (calls s) call)]"
  by (simp add: runs)

lemma keeps_members: "cv_mu (snd (wrapper s)) = cv_mu s"
  by (simp add: runs)

end

lemma checked:
  "bindM (call_int env c) PthreadCall s = (if r_int (env (calls s) c) = 0 then Ret () else Stop Aborted,
    s\<lparr>calls := calls s @ [(c, env (calls s) c)]\<rparr>)"
  by (simp add: PthreadCall_def cmd_defs Let_def)


interpretation lock: checked_call env "Lock env m" "Mutex_lock m" for env m
  by unfold_locales (simp add: Lock_def checked)

interpretation unlock: checked_call env "Unlock env m" "Mutex_unlock m" for env m
  by unfold_locales (simp add: Unlock_def checked)






section \<open>Mutual exclusion\<close>

text \<open>
  \<open>held tr m\<close> is whether the history of one thread's calls leaves \<open>m\<close> locked.  The mutexes are
  default ones (\<open>pthread_mutex_init (&mu_, NULL)\<close>).  Of such a mutex POSIX promises that locking one
  the thread does not hold and unlocking one it holds succeed; what the misuse of one does,
  locking it twice or unlocking it unheld, is undefined and need not be reported.
\<close>

fun held_after :: "bool \<Rightarrow> addr \<Rightarrow> pthread_call \<times> resp \<Rightarrow> bool" where
  "held_after h m (Mutex_lock m', r) = (if m' = m \<and> r_int r = 0 then True else h)"
| "held_after h m (Mutex_unlock m', r) = (if m' = m \<and> r_int r = 0 then False else h)"
| "held_after h m _ = h"

definition held :: "pthread_call trace \<Rightarrow> addr \<Rightarrow> bool" where
  "held tr m = foldl (\<lambda>h x. held_after h m x) False tr"

lemma held_snoc [simp]: "held (tr @ [x]) m = held_after (held tr m) m x"
  by (simp add: held_def)

definition default_mutexes :: "pthread_call env \<Rightarrow> bool" where
  "default_mutexes env \<longleftrightarrow> (\<forall>tr m. (\<not> held tr m \<longrightarrow> r_int (env tr (Mutex_lock m)) = 0) \<and>
     (held tr m \<longrightarrow> r_int (env tr (Mutex_unlock m)) = 0))"

text \<open>A program of lock and unlock operations, and the abstract lock set it should drive.\<close>

datatype lock_op = Acquire addr | Release addr

fun run_lock_ops :: "pthread_call env \<Rightarrow> lock_op list \<Rightarrow> (port_state, unit) cmd" where
  "run_lock_ops env [] = retM ()"
| "run_lock_ops env (Acquire m # xs) = thenM (Lock env m) (run_lock_ops env xs)"
| "run_lock_ops env (Release m # xs) = thenM (Unlock env m) (run_lock_ops env xs)"

fun lock_set :: "lock_op list \<Rightarrow> addr set \<Rightarrow> addr set option" where
  "lock_set [] L = Some L"
| "lock_set (Acquire m # xs) L = (if m \<in> L then None else lock_set xs (insert m L))"
| "lock_set (Release m # xs) L = (if m \<in> L then lock_set xs (L - {m}) else None)"

fun lock_call :: "lock_op \<Rightarrow> pthread_call" where
  "lock_call (Acquire m) = Mutex_lock m"
| "lock_call (Release m) = Mutex_unlock m"

text \<open>Whether an operation is allowed with the locks \<open>L\<close>, and the locks after it.\<close>

fun allowed :: "addr set \<Rightarrow> lock_op \<Rightarrow> bool" where
  "allowed L (Acquire m) \<longleftrightarrow> m \<notin> L"
| "allowed L (Release m) \<longleftrightarrow> m \<in> L"

fun locks_after :: "addr set \<Rightarrow> lock_op \<Rightarrow> addr set" where
  "locks_after L (Acquire m) = insert m L"
| "locks_after L (Release m) = L - {m}"

lemma lock_set_Cons [simp]:
  "lock_set (x # xs) L = (if allowed L x then lock_set xs (locks_after L x) else None)"
  by (cases x) simp_all

lemma run_lock_ops_Cons [simp]:
  "run_lock_ops env (x # xs) s = (let q = env (calls s) (lock_call x); t = s\<lparr>calls := calls s @ [(lock_call x, q)]\<rparr> in
     if r_int q = 0 then run_lock_ops env xs t else (Stop Aborted, t))"
  by (cases x) (simp_all add: thenM_def bindM_def lock.runs unlock.runs Let_def)

text \<open>A step of the mutexes refines one of the set.\<close>

lemma lock_step:
  assumes "default_mutexes env" and "allowed {m. held tr m} x"
  shows "r_int (env tr (lock_call x)) = 0"
    "{m. held (tr @ [(lock_call x, env tr (lock_call x))]) m} = locks_after {m. held tr m} x"
proof -
  show zero: "r_int (env tr (lock_call x)) = 0"
    using assms by (cases x) (simp_all add: default_mutexes_def)
  show "{m. held (tr @ [(lock_call x, env tr (lock_call x))]) m} = locks_after {m. held tr m} x"
    using zero by (cases x) auto
qed

text \<open>The outcome of a program: \<open>zs\<close> are its calls with their answers.\<close>

definition lock_end :: "lock_op list \<Rightarrow> addr set \<Rightarrow> pthread_call trace \<Rightarrow> unit outcome \<Rightarrow> bool" where
  "lock_end xs L zs r \<longleftrightarrow> (case lock_set xs L of
      Some L' \<Rightarrow> r = Ret () \<and> map fst zs = map lock_call xs
    | None \<Rightarrow> \<exists>ys x rest q. xs = ys @ x # rest \<and> lock_set ys L \<noteq> None \<and> lock_set (ys @ [x]) L = None \<and>
        length ys < length zs \<and> map fst (take (length ys) zs) = map lock_call ys \<and>
        zs ! length ys = (lock_call x, q) \<and>
        (r_int q = 0 \<or> r = Stop Aborted \<and> length zs = Suc (length ys)))"

lemma lock_end_Cons:
  assumes "allowed L x" and "lock_end xs (locks_after L x) zs r"
  shows "lock_end (x # xs) L ((lock_call x, q) # zs) r"
proof (cases "lock_set xs (locks_after L x)")
  case None
  then obtain ys y rest a where ys: "xs = ys @ y # rest" "lock_set ys (locks_after L x) \<noteq> None"
    "lock_set (ys @ [y]) (locks_after L x) = None" "length ys < length zs"
    "map fst (take (length ys) zs) = map lock_call ys" "zs ! length ys = (lock_call y, a)"
    "r_int a = 0 \<or> r = Stop Aborted \<and> length zs = Suc (length ys)"
    using assms(2) by (auto simp: lock_end_def)
  then show ?thesis
    using assms(1) None unfolding lock_end_def
    by (simp, intro exI [of _ "x # ys"] exI [of _ y] exI [of _ rest] exI [of _ a]) simp
qed (use assms in \<open>simp add: lock_end_def\<close>)

lemma lock_end_misuse:
  assumes "\<not> allowed L x" and "r_int q = 0 \<or> r = Stop Aborted \<and> zs = []"
  shows "lock_end (x # xs) L ((lock_call x, q) # zs) r"
  using assms unfolding lock_end_def
  by (simp, intro exI [of _ "[]"] exI [of _ x] exI [of _ xs] exI [of _ q]) auto

lemma run_lock_ops_refines:
  assumes env: "default_mutexes env"
  shows "run_lock_ops env xs s = (r, t) \<Longrightarrow> \<exists>zs. calls t = calls s @ zs \<and> lock_end xs {m. held (calls s) m} zs r \<and>
    (\<forall>L. lock_set xs {m. held (calls s) m} = Some L \<longrightarrow> {m. held (calls t) m} = L)"
proof (induction xs arbitrary: s)
  case Nil
  then show ?case by (auto simp: retM_def lock_end_def)
next
  case (Cons x xs)
  let ?L = "{m. held (calls s) m}" and ?q = "env (calls s) (lock_call x)"
  let ?u = "s\<lparr>calls := calls s @ [(lock_call x, ?q)]\<rparr>"
  show ?case
  proof (cases "r_int ?q = 0")
    case True
    then have "run_lock_ops env xs ?u = (r, t)" using Cons.prems by (simp add: Let_def)
    from Cons.IH [OF this] obtain zs where zs: "calls t = calls ?u @ zs"
      "lock_end xs {m. held (calls ?u) m} zs r"
      "\<forall>L. lock_set xs {m. held (calls ?u) m} = Some L \<longrightarrow> {m. held (calls t) m} = L"
      by blast
    show ?thesis
    proof (cases "allowed ?L x")
      case ok: True
      have after: "{m. held (calls ?u) m} = locks_after ?L x"
        using lock_step(2) [OF env ok] by simp
      show ?thesis
        using zs ok unfolding after
        by (intro exI [of _ "(lock_call x, ?q) # zs"]) (simp add: lock_end_Cons)
    next
      case False
      then show ?thesis
        using zs(1) True by (intro exI [of _ "(lock_call x, ?q) # zs"]) (simp add: lock_end_misuse)
    qed
  next
    case False
    have no: "\<not> allowed ?L x" using lock_step(1) [OF env, of "calls s" x] False by blast
    have "r = Stop Aborted" "t = ?u" using Cons.prems False by (simp_all add: Let_def)
    then show ?thesis
      using no by (intro exI [of _ "[(lock_call x, ?q)]"]) (simp add: lock_end_misuse)
  qed
qed

section \<open>Programs over the wrappers\<close>
















section \<open>Snappy\<close>

text \<open>What the functions use of Snappy, on byte strings: the bound on the compressed size, and the
  three routines, \<open>None\<close> where they return false.\<close>

record snappy =
  MaxCompressedLength :: "nat \<Rightarrow> nat"
  RawCompress :: "8 word list \<Rightarrow> 8 word list"
  GetUncompressedLength :: "8 word list \<Rightarrow> nat option"
  RawUncompress :: "8 word list \<Rightarrow> 8 word list option"

definition resize :: "nat \<Rightarrow> 8 word list \<Rightarrow> 8 word list" where
  "resize n xs = take n xs @ replicate (n - length xs) 0"

lemma length_resize [simp]: "length (resize n xs) = n"
  by (simp add: resize_def)

lemma resize_prefix [simp]: "resize (length xs) (xs @ ys) = xs"
  by (simp add: resize_def)

text \<open>Bytes written to the front of a buffer; writing past its end is undefined behaviour.\<close>

definition write_front :: "8 word list \<Rightarrow> 8 word list \<Rightarrow> 8 word list outcome" where
  "write_front xs buf =
     (if length xs \<le> length buf then Ret (xs @ drop (length xs) buf) else Stop (Faulted Out_Of_Bounds))"

text \<open>\<open>Snappy_Compress\<close>: its result and the string \<open>*output\<close> afterwards.\<close>

definition Snappy_Compress :: "snappy option \<Rightarrow> 8 word list \<Rightarrow> 8 word list \<Rightarrow> (bool \<times> 8 word list) outcome" where
  "Snappy_Compress SNAPPY input out =
     (case SNAPPY of
        None \<Rightarrow> Ret (False, out)
      | Some lib \<Rightarrow>
          (let buf = resize (MaxCompressedLength lib (length input)) out;
             z = RawCompress lib input in
           case write_front z buf of
             Stop e \<Rightarrow> Stop e
           | Ret buf' \<Rightarrow> Ret (True, resize (length z) buf')))"

text \<open>Its result and \<open>*result\<close> afterwards.\<close>

definition Snappy_GetUncompressedLength :: "snappy option \<Rightarrow> 8 word list \<Rightarrow> nat \<Rightarrow> bool \<times> nat" where
  "Snappy_GetUncompressedLength SNAPPY input result =
     (case SNAPPY of
        None \<Rightarrow> (False, result)
      | Some lib \<Rightarrow> (case GetUncompressedLength lib input of None \<Rightarrow> (False, result) | Some n \<Rightarrow> (True, n)))"

text \<open>Its result and the buffer \<open>output\<close> afterwards.\<close>

definition Snappy_Uncompress :: "snappy option \<Rightarrow> 8 word list \<Rightarrow> 8 word list \<Rightarrow> (bool \<times> 8 word list) outcome" where
  "Snappy_Uncompress SNAPPY input out =
     (case SNAPPY of
        None \<Rightarrow> Ret (False, out)
      | Some lib \<Rightarrow> (case RawUncompress lib input of
          None \<Rightarrow> Ret (False, out)
        | Some xs \<Rightarrow> (case write_front xs out of Stop e \<Rightarrow> Stop e | Ret out' \<Rightarrow> Ret (True, out'))))"

definition GetHeapProfile :: bool where
  "GetHeapProfile = False"

text \<open>The wrappers add nothing to the library and take nothing away.  As long as a result fits where the
  library writes it, the string \<open>*output\<close> is the compressed bytes, whatever it held before, and the
  buffer starts with what the library uncompressed; a result that does not fit overruns the string or
  the buffer, which no wrapper checks.\<close>

lemma snappy_wrappers_exact:
  "Snappy_Compress (Some lib) input old =
     (if length (RawCompress lib input) \<le> MaxCompressedLength lib (length input)
      then Ret (True, RawCompress lib input) else Stop (Faulted Out_Of_Bounds)) \<and>
   Snappy_Uncompress (Some lib) z buf = (case RawUncompress lib z of None \<Rightarrow> Ret (False, buf)
     | Some xs \<Rightarrow> if length xs \<le> length buf then Ret (True, xs @ drop (length xs) buf)
         else Stop (Faulted Out_Of_Bounds))"
  by (auto simp: Snappy_Compress_def Snappy_Uncompress_def write_front_def Let_def split: option.split)

section \<open>Properties\<close>

text \<open>C36: locks behave as a set.  Over default mutexes, a program of \<open>Lock\<close> and \<open>Unlock\<close> that never
  locks a mutex it holds or unlocks one it does not makes exactly its calls, runs to its end, and
  leaves locked the mutexes that the abstract program on the set of held locks leaves in that set.
  Any other program makes its calls up to and including the first misuse: the wrappers keep no
  account of their own and hand the misuse to libpthread.  If that reports it the process aborts
  there; if it does not, and POSIX does not ask it to, the program goes on unnoticed.\<close>

theorem locks_refine_set:
  assumes "default_mutexes env" and "run_lock_ops env xs s = (r, t)"
  shows "\<exists>zs. calls t = calls s @ zs \<and>
    (case lock_set xs {m. held (calls s) m} of
      Some L \<Rightarrow> r = Ret () \<and> map fst zs = map lock_call xs \<and> {m. held (calls t) m} = L
    | None \<Rightarrow> \<exists>ys x rest q. xs = ys @ x # rest \<and> lock_set ys {m. held (calls s) m} \<noteq> None \<and>
        lock_set (ys @ [x]) {m. held (calls s) m} = None \<and> length ys < length zs \<and>
        map fst (take (length ys) zs) = map lock_call ys \<and> zs ! length ys = (lock_call x, q) \<and>
        (r_int q = 0 \<or> r = Stop Aborted \<and> length zs = Suc (length ys)))"
proof -
  obtain zs where "calls t = calls s @ zs" "lock_end xs {m. held (calls s) m} zs r"
    "\<forall>L. lock_set xs {m. held (calls s) m} = Some L \<longrightarrow> {m. held (calls t) m} = L"
    using run_lock_ops_refines [OF assms] by blast
  then show ?thesis
    by (intro exI [of _ zs]) (cases "lock_set xs {m. held (calls s) m}"; simp add: lock_end_def)
qed


section \<open>Concrete runs\<close>

text \<open>Mutexes that report every misuse, and mutexes that report none.\<close>

definition lock_env :: "pthread_call env" where
  "lock_env tr c = (case c of
       Mutex_lock m \<Rightarrow> resp0\<lparr>r_int := (if held tr m then 35 else 0)\<rparr>
     | Mutex_unlock m \<Rightarrow> resp0\<lparr>r_int := (if held tr m then 0 else 1)\<rparr>
     | _ \<Rightarrow> resp0)"

lemma lock_env_defaults: "default_mutexes lock_env" "default_mutexes (\<lambda>_ _. resp0)"
  by (simp_all add: default_mutexes_def lock_env_def resp0_def)

theorem locks_refine_set_witness:
  "(\<exists>t. run_lock_ops (\<lambda>_ _. resp0) [Acquire 8, Acquire 9, Release 8] \<lparr>calls = [], cv_mu = (\<lambda>_. 0)\<rparr> = (Ret (), t) \<and>
     {m. held (calls t) m} = {9}) \<and>
   (\<exists>t. run_lock_ops lock_env [Acquire 8, Acquire 8, Release 8] \<lparr>calls = [], cv_mu = (\<lambda>_. 0)\<rparr> = (Stop Aborted, t) \<and>
     1 < length (calls t))"
proof (intro conjI)
  let ?s = "\<lparr>calls = [], cv_mu = (\<lambda>_. 0 :: addr)\<rparr>"
  have nothing_held: "calls ?s = []" "held [] m = False" for m by (simp_all add: held_def)
  have ok: "lock_set [Acquire 8, Acquire 9, Release 8] {m. False} = Some {9}" by auto
  obtain r t where t: "run_lock_ops (\<lambda>_ _. resp0) [Acquire 8, Acquire 9, Release 8] ?s = (r, t)" by (rule prod.exhaust)
  show "\<exists>t. run_lock_ops (\<lambda>_ _. resp0) [Acquire 8, Acquire 9, Release 8] ?s = (Ret (), t) \<and> {m. held (calls t) m} = {9}"
    using locks_refine_set [OF lock_env_defaults(2) t, simplified nothing_held ok] unfolding t by simp
  have "fst (run_lock_ops lock_env [Acquire 8, Acquire 8, Release 8] ?s) = Stop Aborted"
    by (simp add: Lock_def Unlock_def PthreadCall_def cmd_defs lock_env_def held_def resp0_def Let_def)
  then obtain u where u: "run_lock_ops lock_env [Acquire 8, Acquire 8, Release 8] ?s = (Stop Aborted, u)"
    by (metis prod.collapse)
  have bad: "lock_set [Acquire 8, Acquire 8, Release 8] {m. False} = None" by simp
  have later: "0 < length ys" if "lock_set (ys @ [x]) {m. False} = None" "[Acquire 8, Acquire 8, Release 8] = ys @ x # zs" for ys x zs
    using that by (cases ys) auto
  from locks_refine_set [OF lock_env_defaults(1) u, unfolded nothing_held bad option.case]
  obtain zs ys x rest where "calls u = zs" "[Acquire 8, Acquire 8, Release 8] = ys @ x # rest"
    "lock_set (ys @ [x]) {m. False} = None" "length ys < length zs"
    by auto
  moreover from this have "0 < length ys" by (intro later)
  ultimately have "1 < length (calls u)" by (simp only: One_nat_def)
  with u show "\<exists>t. run_lock_ops lock_env [Acquire 8, Acquire 8, Release 8] ?s = (Stop Aborted, t) \<and> 1 < length (calls t)"
    by blast
qed


text \<open>A library whose compression adds a byte, and a string of one byte too few for it.\<close>

definition plain_snappy :: "(nat \<Rightarrow> nat) \<Rightarrow> snappy" where
  "plain_snappy bound = \<lparr>MaxCompressedLength = bound, RawCompress = (\<lambda>xs. 1 # xs),
     GetUncompressedLength = (\<lambda>z. if z = [] then None else Some (length z - 1)),
     RawUncompress = (\<lambda>z. if z = [] then None else Some (tl z))\<rparr>"

lemma snappy_runs:
  "Snappy_Compress (Some (plain_snappy Suc)) [5, 6] [9] = Ret (True, [1, 5, 6])"
  "Snappy_Compress (Some (plain_snappy id)) [5, 6] [9] = Stop (Faulted Out_Of_Bounds)"
  "Snappy_Uncompress (Some (plain_snappy Suc)) [1, 5, 6] [0, 0, 0] = Ret (True, [5, 6, 0])"
  by (simp_all add: snappy_wrappers_exact) (simp_all add: plain_snappy_def)

end
