(* ===== verification/Port_Platform.thy ===== *)
theory Port_Platform
  imports Main
begin

text \<open>
  What \<open>src/src/utils/port_posix.h\<close> chooses at compile time: the byte order constant
  \<open>kLittleEndian\<close> and the functions that stand in for \<open>fread_unlocked\<close>, \<open>fwrite_unlocked\<close>,
  \<open>fflush_unlocked\<close> and \<open>fdatasync\<close>.

  A build is the partial map from the macros that are defined, by the build system and by the
  system headers the branch includes, to their values.  Inside \<open>#if\<close> an undefined macro counts as
  0; in the C++ expression of the constant it is an undeclared name, and the file does not compile.
\<close>

section \<open>Choosing\<close>

type_synonym build = "string \<Rightarrow> int option"

definition is_def :: "build \<Rightarrow> string \<Rightarrow> bool" where
  "is_def m x \<longleftrightarrow> m x \<noteq> None"

text \<open>The C++ expression \<open>(x == y)\<close> over two macros; \<open>None\<close> when it does not compile.\<close>

definition same_value :: "build \<Rightarrow> string \<Rightarrow> string \<Rightarrow> bool option" where
  "same_value m x y = (case (m x, m y) of (Some i, Some j) \<Rightarrow> Some (i = j) | _ \<Rightarrow> None)"

text \<open>What the chain of \<open>#if\<close> defines \<open>PLATFORM_IS_LITTLE_ENDIAN\<close> as, if anything: the outer \<open>None\<close>
  stands for a macro left undefined.\<close>

definition platform_macro :: "build \<Rightarrow> bool option option" where
  "platform_macro m =
     (if is_def m ''OS_MACOSX'' then
        (if is_def m ''__DARWIN_LITTLE_ENDIAN'' \<and> is_def m ''__DARWIN_BYTE_ORDER''
         then Some (same_value m ''__DARWIN_BYTE_ORDER'' ''__DARWIN_LITTLE_ENDIAN'') else None)
      else if is_def m ''OS_SOLARIS'' then
        (if is_def m ''_LITTLE_ENDIAN'' then Some (Some True) else Some (Some False))
      else if is_def m ''OS_FREEBSD'' \<or> is_def m ''OS_OPENBSD'' \<or> is_def m ''OS_NETBSD'' \<or>
          is_def m ''OS_DRAGONFLYBSD''
        then Some (same_value m ''_BYTE_ORDER'' ''_LITTLE_ENDIAN'')
      else if is_def m ''OS_HPUX'' then Some (Some False)
      else if is_def m ''OS_ANDROID'' then Some (same_value m ''_BYTE_ORDER'' ''_LITTLE_ENDIAN'')
      else None)"

definition kLittleEndian :: "build \<Rightarrow> bool option" where
  "kLittleEndian m = (case platform_macro m of
       None \<Rightarrow> same_value m ''__BYTE_ORDER'' ''__LITTLE_ENDIAN''
     | Some v \<Rightarrow> v)"

text \<open>The function a name stands for in the rest of the program.\<close>

definition unlocked_name :: "build \<Rightarrow> string \<Rightarrow> string" where
  "unlocked_name m f =
     (if is_def m ''OS_MACOSX'' \<or> is_def m ''OS_SOLARIS'' \<or> is_def m ''OS_FREEBSD'' \<or>
         is_def m ''OS_NETBSD'' \<or> is_def m ''OS_OPENBSD'' \<or> is_def m ''OS_DRAGONFLYBSD'' \<or>
         is_def m ''OS_ANDROID'' \<or> is_def m ''OS_HPUX'' \<or> is_def m ''CYGWIN''
      then if f = ''fread_unlocked'' then ''fread''
        else if f = ''fwrite_unlocked'' then ''fwrite''
        else if f = ''fflush_unlocked'' then ''fflush'' else f
      else f)"

definition fdatasync_name :: "build \<Rightarrow> string" where
  "fdatasync_name m =
     (if is_def m ''OS_MACOSX'' \<or> is_def m ''OS_FREEBSD'' \<or> is_def m ''OS_OPENBSD'' \<or>
         is_def m ''OS_DRAGONFLYBSD'' then ''fsync''
      else if is_def m ''OS_ANDROID'' \<and>
          (case m ''__ANDROID_API__'' of None \<Rightarrow> 0 | Some v \<Rightarrow> v) < 9 then ''fsync''
      else ''fdatasync'')"

section \<open>What the choice is worth\<close>

text \<open>Headers that tell the truth about a machine: where a byte order macro and the little endian
  macro of its family are both defined they agree exactly on a little endian machine; Solaris
  defines \<open>_LITTLE_ENDIAN\<close> exactly there; and HP-UX runs on big endian machines.\<close>

definition truthful :: "bool \<Rightarrow> build \<Rightarrow> bool" where
  "truthful le m \<longleftrightarrow>
     (\<forall>(x, y) \<in> {(''__DARWIN_BYTE_ORDER'', ''__DARWIN_LITTLE_ENDIAN''), (''_BYTE_ORDER'', ''_LITTLE_ENDIAN''),
         (''__BYTE_ORDER'', ''__LITTLE_ENDIAN'')}.
        \<forall>i j. m x = Some i \<longrightarrow> m y = Some j \<longrightarrow> (i = j \<longleftrightarrow> le)) \<and>
     (is_def m ''OS_SOLARIS'' \<longrightarrow> (is_def m ''_LITTLE_ENDIAN'' \<longleftrightarrow> le)) \<and>
     (is_def m ''OS_HPUX'' \<longrightarrow> \<not> le)"

lemma same_value_Some: "same_value m x y = Some b \<longleftrightarrow> (\<exists>i j. m x = Some i \<and> m y = Some j \<and> b = (i = j))"
  by (auto simp: same_value_def split: option.splits)

text \<open>If the file compiles at all, the constant is the byte order of the machine.\<close>

theorem kLittleEndian_right:
  assumes "truthful le m" and "kLittleEndian m = Some b"
  shows "b = le"
  using assms
  by (auto simp: kLittleEndian_def platform_macro_def truthful_def same_value_Some
      split: if_splits option.splits)

text \<open>A build for Linux: none of the platform macros, the byte order of \<open>endian.h\<close>.\<close>

theorem kLittleEndian_right_witness:
  "kLittleEndian [''__BYTE_ORDER'' \<mapsto> 1234, ''__LITTLE_ENDIAN'' \<mapsto> 1234] = Some True"
proof -
  let ?m = "[''__BYTE_ORDER'' \<mapsto> 1234, ''__LITTLE_ENDIAN'' \<mapsto> (1234 :: int)]"
  have "truthful True ?m" by (auto simp: truthful_def is_def_def)
  moreover have "kLittleEndian ?m = Some b \<Longrightarrow> b = True" for b
    using kLittleEndian_right [OF calculation] by simp
  ultimately show ?thesis
    by (simp add: kLittleEndian_def platform_macro_def is_def_def same_value_def)
qed

end
