(* ===== verification/Node_Api.thy ===== *)
theory Node_Api
  imports Rdma_Prelude
begin

text \<open>
  The node interface taken over from ps-lite, in its two copies: \<open>ps::Van\<close> of
  \<open>src/src/api/van.h\<close> and \<open>rdma::Transport\<close> of \<open>src/src/api/transport.h\<close>.  The methods with a body
  are modelled: \<open>my_node\<close>, \<open>GetTimestamp\<close>, \<open>IsReady\<close>, \<open>IsOpen\<close> and \<open>getTransport\<close> of the factory
  class; the others are declared only.

  \<open>timestamp_\<close> is a \<open>std::atomic<int>\<close>, whose increment wraps around and is one indivisible step:
  threads interleave between calls, never inside one.  The node is a value of any type.  \<open>CHECK\<close>
  is the assertion macro of the logging library, which stops the process when its argument is
  false.
\<close>

section \<open>Van\<close>

record 'n van =
  vn_ready :: bool
  vn_timestamp :: "32 word"
  vn_send_bytes :: "64 word"
  vn_recv_bytes :: "64 word"
  vn_num_servers :: int
  vn_num_workers :: int
  vn_barrier_count :: "int list"
  vn_drop_rate :: int
  vn_my_node :: 'n

text \<open>A new object: the default member initialisers; \<open>my_node_\<close> is what its constructor makes.\<close>

definition Van :: "'n \<Rightarrow> 'n van" where
  "Van node = \<lparr>vn_ready = False, vn_timestamp = 0, vn_send_bytes = 0, vn_recv_bytes = 0,
     vn_num_servers = 0, vn_num_workers = 0, vn_barrier_count = [], vn_drop_rate = 0, vn_my_node = node\<rparr>"

definition Van_my_node :: "('n van, 'n) cmd" where
  "Van_my_node = bindM (getM vn_ready) (\<lambda>r. if r then getM vn_my_node else stopM Aborted)"

definition Van_GetTimestamp :: "('n van, int) cmd" where
  "Van_GetTimestamp = bindM (getM vn_timestamp) (\<lambda>x.
     thenM (modifyM (\<lambda>s. s\<lparr>vn_timestamp := x + 1\<rparr>)) (retM (sint x)))"

definition Van_IsReady :: "('n van, bool) cmd" where
  "Van_IsReady = getM vn_ready"

section \<open>Transport\<close>

record 'n api_transport =
  tp_ready :: bool
  tp_timestamp :: "32 word"
  tp_send_bytes :: "64 word"
  tp_recv_bytes :: "64 word"
  tp_num_servers :: int
  tp_num_workers :: int
  tp_barrier_count :: "int list"
  tp_drop_rate :: int
  tp_my_node :: 'n

definition Transport :: "'n \<Rightarrow> 'n api_transport" where
  "Transport node = \<lparr>tp_ready = False, tp_timestamp = 0, tp_send_bytes = 0, tp_recv_bytes = 0,
     tp_num_servers = 0, tp_num_workers = 0, tp_barrier_count = [], tp_drop_rate = 0, tp_my_node = node\<rparr>"

definition Transport_IsOpen :: "('n api_transport, bool) cmd" where
  "Transport_IsOpen = retM False"

definition Transport_my_node :: "('n api_transport, 'n) cmd" where
  "Transport_my_node = bindM (getM tp_ready) (\<lambda>r. if r then getM tp_my_node else stopM Aborted)"

definition Transport_GetTimestamp :: "('n api_transport, int) cmd" where
  "Transport_GetTimestamp = bindM (getM tp_timestamp) (\<lambda>x.
     thenM (modifyM (\<lambda>s. s\<lparr>tp_timestamp := x + 1\<rparr>)) (retM (sint x)))"

definition Transport_IsReady :: "('n api_transport, bool) cmd" where
  "Transport_IsReady = getM tp_ready"

text \<open>The factory of \<open>api/transport.h\<close> hands back what it is given.\<close>

definition Api_getTransport :: "'tr \<Rightarrow> 'tr" where
  "Api_getTransport tr = tr"

section \<open>The contract of a clock\<close>

text \<open>Threads that draw stamps, in the order in which their calls take effect.\<close>

fun draw :: "('s, int) cmd \<Rightarrow> 'thread list \<Rightarrow> ('s, ('thread \<times> int) list) cmd" where
  "draw get [] = retM []"
| "draw get (th # ths) = bindM get (\<lambda>x. bindM (draw get ths) (\<lambda>zs. retM ((th, x) # zs)))"

locale clock =
  fixes get :: "('s, int) cmd" and now :: "'s \<Rightarrow> 32 word" and upd :: "32 word \<Rightarrow> 's \<Rightarrow> 's"
  assumes tick: "get s = (Ret (sint (now s)), upd (now s + 1) s)"
    and now_upd: "now (upd x s) = x"
    and upd_upd: "upd x (upd y s) = upd x s"
    and upd_now: "upd (now s) s = s"
begin

lemma bind_get: "bindM get f s = f (sint (now s)) (upd (now s + 1) s)"
  by (simp add: bindM_def tick)

lemma draws:
  "draw get ths s = (Ret (zip ths (map (\<lambda>i. sint (now s + of_nat i)) [0..<length ths])),
     upd (now s + of_nat (length ths)) s)"
proof (induction ths arbitrary: s)
  case Nil
  then show ?case by (simp add: retM_def upd_now)
next
  case (Cons th ths)
  have "map (\<lambda>i. sint (now s + of_nat i)) [0..<Suc n] =
      sint (now s) # map (\<lambda>i. sint (now s + 1 + of_nat i)) [0..<n]" for n
    by (subst upt_conv_Cons) (simp_all add: map_Suc_upt [symmetric] add.assoc del: upt_Suc map_Suc_upt)
  then show ?case
    by (simp add: bind_get bindM_def [of "draw _ _"] retM_def Cons.IH now_upd upd_upd add.assoc del: upt_Suc)
qed

lemma stamps_distinct:
  assumes "n \<le> 2 ^ 32"
  shows "distinct (map (\<lambda>i. sint (x + of_nat i :: 32 word)) [0..<n])"
proof -
  have "i = j" if "i < n" "j < n" "sint (x + of_nat i :: 32 word) = sint (x + of_nat j)" for i j
  proof -
    have "x + of_nat i = x + (of_nat j :: 32 word)" using that(3) by (rule signed_word_eqI)
    then have "take_bit LENGTH(32) i = take_bit LENGTH(32) j" by (simp only: add_left_cancel word_of_nat_eq_iff)
    then show ?thesis using that(1,2) assms by (simp add: take_bit_nat_eq_self)
  qed
  then show ?thesis by (auto simp: distinct_map inj_on_def)
qed

end


interpretation van_clock: clock Van_GetTimestamp vn_timestamp "\<lambda>x. vn_timestamp_update (\<lambda>_. x)"
  by unfold_locales (simp_all add: Van_GetTimestamp_def cmd_defs)

interpretation transport_clock: clock Transport_GetTimestamp tp_timestamp "\<lambda>x. tp_timestamp_update (\<lambda>_. x)"
  by unfold_locales (simp_all add: Transport_GetTimestamp_def cmd_defs)

text \<open>The stamps of a new object.\<close>

lemma sint_of_small: "i < 2 ^ 31 \<Longrightarrow> sint (of_nat i :: 32 word) = int i"
  by (simp add: signed_of_nat signed_take_bit_int_eq_self)

lemma first_stamps: "n \<le> 2 ^ 31 \<Longrightarrow> map (\<lambda>i. sint (of_nat i :: 32 word)) [0..<n] = map int [0..<n]"
  by (rule map_cong [OF refl]) (simp add: sint_of_small)

section \<open>Properties\<close>

text \<open>C40: \<open>GetTimestamp\<close> is thread safe.  However any threads interleave, up to \<open>2 ^ 32\<close> calls on one
  object, from any state, all return, each thread gets its stamps, and no stamp is given out
  twice (for \<open>Van\<close> and for \<open>Transport\<close>).\<close>

theorem timestamps_distinct:
  assumes "length ths \<le> 2 ^ 32"
  shows "(\<exists>zs t. draw Van_GetTimestamp ths s = (Ret zs, t) \<and> map fst zs = ths \<and> distinct (map snd zs)) \<and>
    (\<exists>zs t. draw Transport_GetTimestamp ths s' = (Ret zs, t) \<and> map fst zs = ths \<and> distinct (map snd zs))"
  using van_clock.stamps_distinct [OF assms] by (simp add: van_clock.draws transport_clock.draws)

text \<open>The stamps are the next ones.  A new object gives out 0, 1, 2 and so on up to \<open>2 ^ 31\<close>
  calls; the call after these returns \<open>- (2 ^ 31)\<close>, as the counter wraps around.\<close>

theorem timestamps_of_new:
  assumes "length ths \<le> 2 ^ 31"
  shows "fst (draw Van_GetTimestamp ths (Van node)) = Ret (zip ths (map int [0..<length ths])) \<and>
    fst (draw Transport_GetTimestamp ths (Transport node)) = Ret (zip ths (map int [0..<length ths])) \<and>
    (length ths = 2 ^ 31 \<longrightarrow>
       fst (Van_GetTimestamp (snd (draw Van_GetTimestamp ths (Van node)))) = Ret (- (2 ^ 31)))"
  by (simp add: van_clock.draws transport_clock.draws van_clock.tick Van_def Transport_def
      first_stamps [OF assms])

text \<open>A node that was not started cannot be asked for.  \<open>my_node\<close> returns the node exactly when
  the object is ready, stops the process otherwise, and changes nothing; a new object is not
  ready, and drawing stamps, as often as one likes, does not make it so.\<close>

theorem my_node_guarded:
  "Van_my_node s = (if vn_ready s then Ret (vn_my_node s) else Stop Aborted, s) \<and>
   Transport_my_node s' = (if tp_ready s' then Ret (tp_my_node s') else Stop Aborted, s') \<and>
   fst (thenM (draw Van_GetTimestamp ths) Van_IsReady (Van node)) = Ret False \<and>
   fst (thenM (draw Van_GetTimestamp ths) Van_my_node (Van node)) = Stop Aborted \<and>
   fst (thenM (draw Transport_GetTimestamp ths') Transport_my_node (Transport node)) = Stop Aborted"
  by (simp add: Van_my_node_def Transport_my_node_def Van_IsReady_def thenM_def bindM_def getM_def
      stopM_def van_clock.draws transport_clock.draws Van_def Transport_def)

section \<open>Concrete runs\<close>

theorem timestamps_distinct_witness:
  "\<exists>zs t. draw Van_GetTimestamp ''aba'' (Van (0 :: nat)\<lparr>vn_timestamp := - 1\<rparr>) = (Ret zs, t) \<and>
     map fst zs = ''aba'' \<and> distinct (map snd zs)"
proof -
  have "length ''aba'' \<le> 2 ^ 32" by simp
  from timestamps_distinct [OF this] show ?thesis by blast
qed

theorem timestamps_of_new_witness:
  "fst (draw Van_GetTimestamp ''ab'' (Van (0 :: nat))) = Ret [(CHR ''a'', 0), (CHR ''b'', 1)]"
proof -
  have "length ''ab'' \<le> 2 ^ 31" by simp
  from timestamps_of_new [OF this, of 0]
  have "fst (draw Van_GetTimestamp ''ab'' (Van (0 :: nat))) = Ret (zip ''ab'' (map int [0..<length ''ab'']))"
    by blast
  moreover have "zip ''ab'' (map int [0..<length ''ab'']) = [(CHR ''a'', 0), (CHR ''b'', 1)]"
    by (simp add: upt_rec)
  ultimately show ?thesis by (simp only:)
qed

end
