(* ===== verification/Spec2Isabelle.thy ===== *)
theory Spec2Isabelle
  imports Endpoints Client_Session Closed_Session Session_Releases Rdma_Reads Perftest_Properties Gluster_Transport
    Thrift_Properties Port_Posix Port_Platform Node_Api
begin

text \<open>
  \<^bold>\<open>What the program is.\<close>  The repository (all of it under \<open>src/src/\<close>) is the start of a C++ wrapper
  for RDMA transports.  Its working core is a C transport over libibverbs and librdmacm
  (\<open>c/transport.c\<close>, \<open>c/transport.h\<close>, with the device listing \<open>c/device.c\<close> and the lookup class
  \<open>Device.h\<close>).  Around it stand a blocking connection setup in the style of perftest
  (\<open>Connection.cc\<close>), pieces written against GlusterFS (\<open>Qp.cc\<close>, \<open>Transport.cc\<close>), and interfaces
  taken over from other projects: Thrift (\<open>interface/TTransport.h\<close>, \<open>interface/TVirtualTransport.h\<close>),
  ps-lite (\<open>api/van.h\<close>, \<open>api/transport.h\<close>) and LevelDB (\<open>utils/port_posix.cc\<close>, \<open>utils/port_posix.h\<close>).

  \<^bold>\<open>How its parts interact.\<close>  \<open>fs_rdma_connect\<close> creates the one global context \<open>rdma_ctx\<close>
  (\<open>fs_rdma_create_ctx\<close>) and starts an address resolution with its identifier; \<open>fs_rdma_listen\<close>
  binds and listens with the identifier of a context that must exist already.  From
  then on \<open>fs_rdma_cm_event_handler\<close> waits for connection manager events and dispatches each to a
  handler; a resolved route and a connect request build the resources of the connection
  (\<open>fs_rdma_create_resources\<close>, which finds its device with \<open>fs_rdma_find_dev\<close>), an error or a
  disconnect takes them down (\<open>fs_rdma_teardown\<close>).  \<open>fs_rdma_do_reads\<close> posts the reads of one
  request on an established connection.  \<open>Connection.cc\<close> does the same for one connection without
  a loop of events, waiting for each one in turn.  The other parts share no state with these.

  \<^bold>\<open>How it is modelled.\<close>  A function is a \<^emph>\<open>command\<close> (theory \<open>Rdma_Prelude\<close>): from a state to an
  outcome and a state, where the outcome is a value or the reason why there is none: undefined
  behaviour with its kind (null or dangling access, out of bounds, signed overflow), an exception,
  the end of the process, or no fuel left.  What is outside of the repository is an \<^emph>\<open>environment\<close>
  (theory \<open>Extern\<close>): each external call is a constructor of a call type, and its answer may be any
  function of the whole history of calls, which the state records.  A theorem for every \<open>env\<close>
  therefore holds for every behaviour of the libraries, the network and the other host; only where
  a theorem names an assumption (\<open>documented\<close> device lists, a \<open>cooperative\<close> host, a \<open>byte_source\<close>,
  \<open>default_mutexes\<close>, the names and memory of \<open>named_and_roomy\<close>) does it need one.  Machine
  integers that are stored in 32, 16 or 8 bits are words; \<open>int\<close> arithmetic is checked for overflow
  (\<open>c_mul\<close>, \<open>c_int\<close>).

  \<^bold>\<open>The theories.\<close>

  \<^item> \<open>Rdma_Prelude\<close>: outcomes, commands, bounded loops, weakest preconditions.  \<open>Extern\<close>: events and
    answers, histories, which calls a command makes (\<open>emits\<close>, \<open>made\<close>) and how it can stop.
    \<open>Relocation\<close>: a command sees the past only through its answers, so statements about a history
    become statements about the run's own calls (\<open>since\<close>).
  \<^item> \<open>Verbs\<close>: \<open>c/transport.h\<close>; enumerations, macros, \<open>struct rdma_param\<close> with \<open>param\<close>, \<open>struct
    rdma_context\<close>, arrays of pointers, and the two global variables as \<open>fs_state\<close>.
  \<^item> \<open>Device_Lookup\<close>: \<open>fs_rdma_find_dev\<close>, \<open>Device::Find\<close>, \<open>hrd_ibv_devinfo\<close> and its \<open>main\<close>.  The locale
    \<open>device_finder\<close> is what a caller may rely on; both lookups are interpretations of it.
  \<^item> \<open>Rdma_Context\<close>: \<open>ALLOCATE\<close>, \<open>fs_rdma_create_ctx\<close>, \<open>fs_rdma_destroy_ctx\<close>, \<open>fs_rdma_connect\<close>,
    \<open>fs_rdma_listen\<close>.  \<open>Endpoints\<close>: what these two make of the configured port, put together.
  \<^item> \<open>Resources\<close>, \<open>Resource_Creation\<close>, \<open>Resource_Properties\<close>: \<open>fs_rdma_create_resources\<close>, cut at its
    stages (\<open>open_part\<close> to \<open>mr_body\<close>) and its label \<open>out\<close> (\<open>out_cleanup\<close>), and \<open>fs_rdma_teardown\<close>;
    what each stage adds, what every path leaves, and the properties.
  \<^item> \<open>Event_Loop\<close>: loops without end and the locale \<open>ack_loop\<close> of loops that acknowledge the events
    they get.  \<open>Cm_Events\<close>: the six handlers, one turn (\<open>cm_turn\<close>) and the loop.  \<open>Cm_Session\<close>: the life
    cycle of a connection as a step relation (\<open>phase_step\<close>), which every turn refines, and the
    properties of whole sessions.  \<open>Client_Session\<close>: a client from \<open>fs_rdma_connect\<close> to \<open>Connected\<close>
    and to \<open>Closed\<close>.
    \<open>Closed_Session\<close>: what can still happen after a connection was taken down.  \<open>Session_Releases\<close>:
    accounts of what a session releases, one interpretation of the locale \<open>member\<close> for each member
    of the context, and of its contract \<open>owned\<close> through a sublocale.
  \<^item> \<open>Rdma_Reads\<close>: \<open>fs_rdma_do_reads\<close>, with accounts of references and memory.
  \<^item> \<open>Bounded_Retry\<close>, \<open>Perftest_Connection\<close>, \<open>Perftest_Returns\<close>, \<open>Perftest_Properties\<close>: all functions
    of \<open>Connection.cc\<close>, the only ways in which they can fail to return, and what they guarantee.
    The locale \<open>retrying\<close> is interpreted on the address, the route and the reconnecting loop.
  \<^item> \<open>Gluster_Transport\<close>: the structures of \<open>Peer.h\<close> and \<open>Transport.h\<close> that are used;
    \<open>gf_rdma_create_qp\<close> of \<open>Qp.cc\<close>; the event loop (the second interpretation of \<open>ack_loop\<close>), \<open>init\<close>,
    \<open>Listen\<close> and the constructor's members of \<open>Transport.cc\<close>.  What GlusterFS does to the memory of
    the transport is a parameter.
  \<^item> \<open>Thrift_Transport\<close>, \<open>Thrift_Properties\<close>: the template \<open>readAll\<close>, the base class \<open>TTransport\<close> as a
    table of virtual methods, \<open>TTransportDefaults\<close> and \<open>TVirtualTransport\<close> with both dispatches.
  \<^item> \<open>Port_Posix\<close>: the mutex, condition variable and once wrappers (eight interpretations of the
    locale \<open>checked_call\<close>), the Snappy functions.  \<open>Port_Platform\<close>: what the header's conditional
    compilation chooses, as a function of the macros that are defined.
  \<^item> \<open>Node_Api\<close>: the methods of \<open>Van\<close> and \<open>Transport\<close> that have a body; the locale \<open>clock\<close> is
    interpreted on both timestamp counters.

  \<^bold>\<open>What the properties show.\<close>  For the C transport: the events are acknowledged in
  their order, each exactly once, however the loop ends, and each turn is a step of the life cycle; a client whose calls succeed
  gets connected, a server only by an event that names its listening identifier, and once a
  connection was taken down nothing connects again;
  creating resources either completes with exactly the listed
  calls or cleans up, and always returns while the queue size fits into \<open>int\<close>; the tear-down is idempotent and releases what is listed,
  no more; a session releases nothing twice; listener and client meet at the same port; the reads of a request cover one buffer with
  one request per chunk, fit into it, and balance references and memory on every return.  For the
  setup of \<open>Connection.cc\<close>: that it returns or over which member of its context it faults, the retry
  budgets, what a successful return means, who
  frees what.  For
  the interfaces: \<open>readAll\<close> delivers exactly the request, the defaults of a class end a call that
  would recurse for ever, correct use of locks refines a set and misuse is not detected, stamps are distinct.  Theorems named after a defect state what the code does there.

  \<^bold>\<open>Fuel and depth.\<close>  The two event loops are \<open>while (1)\<close> and get a number of turns; theorems hold for
  every number and say that nothing but the fuel ends the loop, or how it ends.  \<open>readAll_from\<close> needs
  one turn for each requested byte and one more (theorem \<open>readAll_ends\<close>).  The depth of \<open>vtable\<close> is
  the number of nested virtual calls; one level is enough for every method a class has, and for
  \<open>Super_ = TTransport\<close> no depth is (theorems \<open>virtual_calls_agree\<close>, \<open>defaults_prevent_recursion\<close>).
  All other loops end by their counters.

  \<^bold>\<open>Readings.\<close>  The files do not compile as they stand: locals without a declaration, members the
  structure lacks (\<open>cq\<close>, \<open>content\<close>, \<open>cm_channel\<close>), a jump to a missing label.  Each theory lists the
  readings it takes in its opening text; none repairs a behaviour.  Uninitialised memory holds what
  the environment answers.

  \<^bold>\<open>Not modelled.\<close>  Text printed and logged; the class declarations of \<open>Transport.h\<close> and
  \<open>Connection.h\<close>, whose methods have no body; the empty or ill-formed bodies \<open>Init\<close>, \<open>Connect\<close>,
  \<open>CtxInit\<close> of \<open>Transport.cc\<close>; the declared methods of \<open>Van\<close> and \<open>Transport\<close>; \<open>AcceleratedCRC32C\<close>,
  which \<open>port_posix.h\<close> only declares; the files that hold nothing but their name.  Threads other
  than the calling one appear only as the order of calls on a timestamp counter and as what is
  found under a lock.
\<close>

end
